(* ===== verification/Orbit_Prelude.thy ===== *)
theory Orbit_Prelude
  imports Main "HOL-Library.Word" "HOL-Library.Char_ord" "HOL-Library.List_Lexorder"
begin

text \<open>
  Shared vocabulary of the development: how the Rust constructs the kernel relies on
  are read in HOL, and the generic lemmas about them that every component uses.

  \<^item> \<open>Result<T, E>\<close> is the sum \<open>'e + 'a\<close> (\<open>Inl\<close> the error); the operator \<open>?\<close> is \<open>rbind\<close>,
    \<open>map_err\<close> and \<open>ok_or\<close> are the methods of that name.
  \<^item> A panic is \<open>None\<close> of an outer \<open>option\<close>: \<open>vec_index\<close> (slice indexing) and \<open>vec_push\<close>
    (a \<open>Vec\<close> never holds more than \<open>isize::MAX\<close> elements) are the two operations that can
    panic in the code modelled here.
  \<^item> \<open>u8\<close>, \<open>u16\<close>, \<open>u64\<close> are words; \<open>checked_add\<close> and \<open>saturating_add\<close> are written out; big-endian
    byte conversions are \<open>be_bytes\<close> and \<open>of_be_bytes\<close>.
  \<^item> \<open>f64\<close> is its IEEE 754 bit pattern, with the comparisons of the standard, so that NaN, the
    infinities and the two zeros are all represented.
  \<^item> A Rust string is its list of UTF-8 bytes; \<open>trim\<close> removes the encodings of the Unicode
    \<open>White_Space\<close> characters at both ends.
  \<^item> A \<open>BTreeMap\<close> is an association list with strictly increasing keys and a \<open>BTreeSet\<close> a strictly
    increasing list, so that iteration is in key order.
\<close>

named_theorems result_simps
named_theorems model_inv


section \<open>Results\<close>

type_synonym ('e, 'a) result = "'e + 'a"

definition rbind :: "('e, 'a) result \<Rightarrow> ('a \<Rightarrow> ('e, 'b) result) \<Rightarrow> ('e, 'b) result" where
  "rbind r f = (case r of Inl e \<Rightarrow> Inl e | Inr x \<Rightarrow> f x)"

definition map_err :: "('e \<Rightarrow> 'f) \<Rightarrow> ('e, 'a) result \<Rightarrow> ('f, 'a) result" where
  "map_err g r = (case r of Inl e \<Rightarrow> Inl (g e) | Inr x \<Rightarrow> Inr x)"

definition ok_or :: "'a option \<Rightarrow> 'e \<Rightarrow> ('e, 'a) result" where
  "ok_or m e = (case m of None \<Rightarrow> Inl e | Some x \<Rightarrow> Inr x)"

definition is_none_or :: "'a option \<Rightarrow> ('a \<Rightarrow> bool) \<Rightarrow> bool" where
  "is_none_or m p = (case m of None \<Rightarrow> True | Some x \<Rightarrow> p x)"

lemma rbind_Inl [simp, result_simps]: "rbind (Inl e) f = Inl e"
  by (simp add: rbind_def)

lemma rbind_Inr [simp, result_simps]: "rbind (Inr x) f = f x"
  by (simp add: rbind_def)

lemma rbind_eq_Inr [result_simps]: "rbind r f = Inr y \<longleftrightarrow> (\<exists>x. r = Inr x \<and> f x = Inr y)"
  by (cases r) auto

lemma rbind_eq_Inl [result_simps]:
  "rbind r f = Inl e \<longleftrightarrow> r = Inl e \<or> (\<exists>x. r = Inr x \<and> f x = Inl e)"
  by (cases r) auto

lemma map_err_simps [simp, result_simps]:
  "map_err g (Inl e) = Inl (g e)" "map_err g (Inr x) = Inr x"
  by (simp_all add: map_err_def)

lemma map_err_eq_Inr [simp, result_simps]: "map_err g r = Inr x \<longleftrightarrow> r = Inr x"
  by (cases r) auto

lemma map_err_eq_Inl [result_simps]: "map_err g r = Inl e \<longleftrightarrow> (\<exists>e'. r = Inl e' \<and> e = g e')"
  by (cases r) auto

lemma ok_or_simps [simp, result_simps]: "ok_or None e = Inl e" "ok_or (Some x) e = Inr x"
  by (simp_all add: ok_or_def)

lemma ok_or_eq_Inr [simp, result_simps]: "ok_or m e = Inr x \<longleftrightarrow> m = Some x"
  by (cases m) auto

lemma ok_or_eq_Inl [result_simps]: "ok_or m e = Inl e' \<longleftrightarrow> m = None \<and> e' = e"
  by (cases m) auto

lemma is_none_or_simps [simp]: "is_none_or None p" "is_none_or (Some x) p = p x"
  by (simp_all add: is_none_or_def)

text \<open>A computation that may also panic has type \<open>('e, 'a) result option\<close>; \<open>obind\<close> is \<open>?\<close> on such
  values, where a panic ends everything.\<close>

definition obind :: "('e, 'a) result option \<Rightarrow> ('a \<Rightarrow> ('e, 'b) result option) \<Rightarrow> ('e, 'b) result option" where
  "obind m f = (case m of None \<Rightarrow> None | Some (Inl e) \<Rightarrow> Some (Inl e) | Some (Inr x) \<Rightarrow> f x)"

lemma obind_simps [simp, result_simps]:
  "obind None f = None" "obind (Some (Inl e)) f = Some (Inl e)" "obind (Some (Inr x)) f = f x"
  by (simp_all add: obind_def)

lemma obind_eq_Inr [result_simps]:
  "obind m f = Some (Inr y) \<longleftrightarrow> (\<exists>x. m = Some (Inr x) \<and> f x = Some (Inr y))"
  by (auto simp: obind_def split: option.splits sum.splits)

lemma obind_eq_None [result_simps]:
  "obind m f = None \<longleftrightarrow> m = None \<or> (\<exists>x. m = Some (Inr x) \<and> f x = None)"
  by (auto simp: obind_def split: option.splits sum.splits)

text \<open>Stateful fallible code, with \<open>?\<close> as \<open>sbind\<close>: the state reached at an early return is kept.\<close>

definition sbind ::
  "('s \<Rightarrow> ('e, 'a) result \<times> 's) \<Rightarrow> ('a \<Rightarrow> 's \<Rightarrow> ('e, 'b) result \<times> 's) \<Rightarrow> 's \<Rightarrow> ('e, 'b) result \<times> 's" where
  "sbind m f s = (case m s of (Inl e, s') \<Rightarrow> (Inl e, s') | (Inr x, s') \<Rightarrow> f x s')"

definition slift :: "('e, 'a) result \<Rightarrow> 's \<Rightarrow> ('e, 'a) result \<times> 's" where
  "slift r s = (r, s)"

lemma sbind_slift [simp]:
  "sbind (slift (Inl e)) f s = (Inl e, s)" "sbind (slift (Inr x)) f s = f x s"
  by (simp_all add: sbind_def slift_def)

text \<open>\<open>call.await.map_err(f)\<close>: the error of a call is translated, its effect is kept.\<close>

definition smap_err :: "('e \<Rightarrow> 'f) \<Rightarrow> ('s \<Rightarrow> ('e, 'a) result \<times> 's) \<Rightarrow> 's \<Rightarrow> ('f, 'a) result \<times> 's" where
  "smap_err f m s = (case m s of (r, s') \<Rightarrow> (map_err f r, s'))"

lemma smap_err_simps [simp]:
  "m s = (Inl e, s') \<Longrightarrow> smap_err f m s = (Inl (f e), s')"
  "m s = (Inr x, s') \<Longrightarrow> smap_err f m s = (Inr x, s')"
  by (simp_all add: smap_err_def)

lemma smap_err_eq_Inr [result_simps]: "smap_err f m s = (Inr x, s') \<longleftrightarrow> m s = (Inr x, s')"
  by (auto simp: smap_err_def split: prod.splits)

lemma sbind_eq_Inr [result_simps]:
  "sbind m f s = (Inr y, s'') \<longleftrightarrow> (\<exists>x s'. m s = (Inr x, s') \<and> f x s' = (Inr y, s''))"
  by (auto simp: sbind_def split: prod.splits sum.splits)

lemma slift_eq_Inr [result_simps]: "slift r s = (Inr x, s') \<longleftrightarrow> r = Inr x \<and> s' = s"
  by (auto simp: slift_def)

lemma sbind_cong:
  "(\<And>x s'. m s = (Inr x, s') \<Longrightarrow> f x s' = g x s') \<Longrightarrow> sbind m f s = sbind m g s"
  by (auto simp: sbind_def split: prod.splits sum.splits)

text \<open>A predicate on the state is kept by a sequence if each part keeps it.\<close>

lemma sbind_keeps:
  assumes "Q (snd (m s))" "\<And>x s'. m s = (Inr x, s') \<Longrightarrow> Q s' \<Longrightarrow> Q (snd (f x s'))"
  shows "Q (snd (sbind m f s))"
proof -
  obtain r s' where m: "m s = (r, s')" by fastforce
  with assms show ?thesis by (cases r) (auto simp: sbind_def)
qed


section \<open>Vectors\<close>

definition isize_max :: nat where
  "isize_max = 2 ^ 63 - 1"

definition vec_index :: "'a list \<Rightarrow> nat \<Rightarrow> 'a option" where
  "vec_index xs i = (if i < length xs then Some (xs ! i) else None)"

definition vec_push :: "'a list \<Rightarrow> 'a \<Rightarrow> 'a list option" where
  "vec_push xs x = (if length xs < isize_max then Some (xs @ [x]) else None)"

lemma vec_index_Some [simp]: "i < length xs \<Longrightarrow> vec_index xs i = Some (xs ! i)"
  by (simp add: vec_index_def)

lemma vec_push_Some: "vec_push xs x = Some ys \<longleftrightarrow> length xs < isize_max \<and> ys = xs @ [x]"
  by (auto simp: vec_push_def)

lemma isize_max_less: "n \<le> isize_max \<Longrightarrow> n < 2 ^ 64"
  by (simp add: isize_max_def)

lemma find_unique:
  assumes "x \<in> set xs" "P x" "\<And>y. y \<in> set xs \<Longrightarrow> P y \<Longrightarrow> y = x"
  shows "find P xs = Some x"
proof (cases "find P xs")
  case None
  with assms(1,2) show ?thesis by (simp add: find_None_iff)
next
  case (Some y)
  then have "y \<in> set xs" "P y" by (auto simp: find_Some_iff)
  with assms(3) Some show ?thesis by simp
qed

lemma find_append: "find P (xs @ ys) = (case find P xs of None \<Rightarrow> find P ys | Some x \<Rightarrow> Some x)"
  by (induction xs) auto

lemma find_least_sorted:
  assumes "sorted xs" "x \<in> set xs" "P x" "\<And>y. y \<in> set xs \<Longrightarrow> P y \<Longrightarrow> x \<le> y"
  shows "find P xs = Some (x :: 'a::linorder)"
  using assms by (induction xs) (auto intro: antisym)

lemma nth_snoc_prefix: "i < length xs \<Longrightarrow> (xs @ [x]) ! i = xs ! i"
  by (simp add: nth_append)


section \<open>Machine integers and bytes\<close>

type_synonym u8 = "8 word"
type_synonym u16 = "16 word"
type_synonym u64 = "64 word"
type_synonym bytes = "u8 list"

definition checked_add :: "'a::len word \<Rightarrow> 'a word \<Rightarrow> 'a word option" where
  "checked_add a b = (if unat a + unat b < 2 ^ LENGTH('a) then Some (a + b) else None)"

definition saturating_add :: "'a::len word \<Rightarrow> 'a word \<Rightarrow> 'a word" where
  "saturating_add a b = (if unat a + unat b < 2 ^ LENGTH('a) then a + b else - 1)"

lemma checked_add_unat: "checked_add a b = Some c \<Longrightarrow> unat c = unat a + unat b"
  by (auto simp: checked_add_def unat_word_ariths split: if_splits)

lemma saturating_add_unat:
  "unat (saturating_add a (b :: 'a::len word)) = min (unat a + unat b) (2 ^ LENGTH('a) - 1)"
  by (auto simp: saturating_add_def unat_word_ariths unsigned_minus_1_eq_mask mask_eq_exp_minus_1)

fun le_bytes :: "nat \<Rightarrow> nat \<Rightarrow> bytes" where
  "le_bytes 0 x = []"
| "le_bytes (Suc n) x = word_of_nat (x mod 256) # le_bytes n (x div 256)"

fun of_le_bytes :: "bytes \<Rightarrow> nat" where
  "of_le_bytes [] = 0"
| "of_le_bytes (b # bs) = unat b + 256 * of_le_bytes bs"

definition be_bytes :: "nat \<Rightarrow> nat \<Rightarrow> bytes" where
  "be_bytes n x = rev (le_bytes n x)"

definition of_be_bytes :: "bytes \<Rightarrow> nat" where
  "of_be_bytes bs = of_le_bytes (rev bs)"

lemma length_le_bytes [simp]: "length (le_bytes n x) = n"
  by (induction n arbitrary: x) auto

lemma length_be_bytes [simp]: "length (be_bytes n x) = n"
  by (simp add: be_bytes_def)

lemma of_le_le_bytes: "x < 256 ^ n \<Longrightarrow> of_le_bytes (le_bytes n x) = x"
proof (induction n arbitrary: x)
  case (Suc n)
  then have "x div 256 < 256 ^ n" by (auto simp: less_mult_imp_div_less mult.commute)
  moreover have "unat (word_of_nat (x mod 256) :: u8) = x mod 256"
    by (simp add: unat_of_nat)
  ultimately show ?case using Suc.IH by simp
qed simp

lemma of_be_be_bytes: "x < 256 ^ n \<Longrightarrow> of_be_bytes (be_bytes n x) = x"
  by (simp add: of_be_bytes_def be_bytes_def of_le_le_bytes)

lemma be_bytes_inject:
  "x < 256 ^ n \<Longrightarrow> y < 256 ^ n \<Longrightarrow> be_bytes n x = be_bytes n y \<longleftrightarrow> x = y"
  by (metis of_be_be_bytes)


section \<open>IEEE 754 binary64\<close>

type_synonym f64 = "64 word"

definition f64_exponent :: "f64 \<Rightarrow> nat" where
  "f64_exponent b = unat b div 2 ^ 52 mod 2 ^ 11"

definition f64_mantissa :: "f64 \<Rightarrow> nat" where
  "f64_mantissa b = unat b mod 2 ^ 52"

definition f64_is_finite :: "f64 \<Rightarrow> bool" where
  "f64_is_finite b \<longleftrightarrow> f64_exponent b \<noteq> 2047"

definition f64_is_nan :: "f64 \<Rightarrow> bool" where
  "f64_is_nan b \<longleftrightarrow> f64_exponent b = 2047 \<and> f64_mantissa b \<noteq> 0"

text \<open>The order of two numbers is the order of their sign-magnitude readings.\<close>

definition f64_key :: "f64 \<Rightarrow> int" where
  "f64_key b = (if unat b < 2 ^ 63 then int (unat b) else - int (unat b - 2 ^ 63))"

definition f64_lt :: "f64 \<Rightarrow> f64 \<Rightarrow> bool" where
  "f64_lt a b \<longleftrightarrow> \<not> f64_is_nan a \<and> \<not> f64_is_nan b \<and> f64_key a < f64_key b"

definition f64_le :: "f64 \<Rightarrow> f64 \<Rightarrow> bool" where
  "f64_le a b \<longleftrightarrow> \<not> f64_is_nan a \<and> \<not> f64_is_nan b \<and> f64_key a \<le> f64_key b"

definition f64_eq :: "f64 \<Rightarrow> f64 \<Rightarrow> bool" where
  "f64_eq a b \<longleftrightarrow> \<not> f64_is_nan a \<and> \<not> f64_is_nan b \<and> f64_key a = f64_key b"

lemma f64_finite_not_nan [simp]: "f64_is_finite a \<Longrightarrow> \<not> f64_is_nan a"
  by (simp add: f64_is_finite_def f64_is_nan_def)

lemma f64_eq_refl [simp]: "f64_is_finite a \<Longrightarrow> f64_eq a a"
  by (simp add: f64_eq_def)

lemma f64_not_lt: "f64_is_finite a \<Longrightarrow> f64_is_finite b \<Longrightarrow> \<not> f64_lt a b \<longleftrightarrow> f64_le b a"
  by (auto simp: f64_lt_def f64_le_def)

lemma f64_finite_zero [simp]: "f64_is_finite 0"
  by (simp add: f64_is_finite_def f64_exponent_def)


section \<open>Strings\<close>

definition white_space :: "string list" where
  "white_space =
    [[CHR 0x09], [CHR 0x0A], [CHR 0x0B], [CHR 0x0C], [CHR 0x0D], [CHR 0x20],
     [CHR 0xC2, CHR 0x85], [CHR 0xC2, CHR 0xA0], [CHR 0xE1, CHR 0x9A, CHR 0x80],
     [CHR 0xE2, CHR 0x80, CHR 0x80], [CHR 0xE2, CHR 0x80, CHR 0x81],
     [CHR 0xE2, CHR 0x80, CHR 0x82], [CHR 0xE2, CHR 0x80, CHR 0x83],
     [CHR 0xE2, CHR 0x80, CHR 0x84], [CHR 0xE2, CHR 0x80, CHR 0x85],
     [CHR 0xE2, CHR 0x80, CHR 0x86], [CHR 0xE2, CHR 0x80, CHR 0x87],
     [CHR 0xE2, CHR 0x80, CHR 0x88], [CHR 0xE2, CHR 0x80, CHR 0x89],
     [CHR 0xE2, CHR 0x80, CHR 0x8A], [CHR 0xE2, CHR 0x80, CHR 0xA8],
     [CHR 0xE2, CHR 0x80, CHR 0xA9], [CHR 0xE2, CHR 0x80, CHR 0xAF],
     [CHR 0xE2, CHR 0x81, CHR 0x9F], [CHR 0xE3, CHR 0x80, CHR 0x80]]"

definition leading :: "string list \<Rightarrow> string \<Rightarrow> string option" where
  "leading ws s = find (\<lambda>w. w \<noteq> [] \<and> take (length w) s = w) ws"

function trim_with :: "string list \<Rightarrow> string \<Rightarrow> string" where
  "trim_with ws s =
     (case leading ws s of None \<Rightarrow> s | Some w \<Rightarrow> trim_with ws (drop (length w) s))"
  by pat_completeness auto
termination
proof (relation "measure (\<lambda>(ws, s). length s)", goal_cases)
  case (2 ws s w)
  then have "w \<noteq> [] \<and> take (length w) s = w"
    by (auto simp: leading_def find_Some_iff)
  then show ?case by (cases s) auto
qed simp

declare trim_with.simps [simp del]

definition trim :: "string \<Rightarrow> string" where
  "trim s = rev (trim_with (map rev white_space) (rev (trim_with white_space s)))"

text \<open>\<open>value.trim().is_empty()\<close>, the blank test of the kernel's validators.\<close>

definition blank :: "string \<Rightarrow> bool" where
  "blank s \<longleftrightarrow> trim s = []"

lemma trim_with_fixed: "leading ws s = None \<Longrightarrow> trim_with ws s = s"
  by (subst trim_with.simps) simp

lemma trim_with_Nil [simp]: "trim_with ws [] = []"
  by (rule trim_with_fixed) (auto simp: leading_def find_None_iff)

lemma trim_Nil [simp]: "trim [] = []"
  by (simp add: trim_def)

lemma trim_with_result: "leading ws (trim_with ws s) = None"
proof (induction ws s rule: trim_with.induct)
  case (1 ws s)
  then show ?case
    by (cases "leading ws s") (simp_all add: trim_with.simps [of ws s])
qed

text \<open>A string with no white space character at either end is its own trimming.\<close>

lemma trim_fixed:
  "leading white_space s = None \<Longrightarrow> leading (map rev white_space) (rev s) = None \<Longrightarrow> trim s = s"
  by (simp add: trim_def trim_with_fixed)

text \<open>Trimming twice is trimming once.\<close>

lemma trim_with_drop: "\<exists>k. trim_with ws s = drop k s"
proof (induction ws s rule: trim_with.induct)
  case (1 ws s)
  show ?case
  proof (cases "leading ws s")
    case None
    then show ?thesis by (intro exI [of _ 0]) (simp add: trim_with_fixed)
  next
    case (Some w)
    then obtain k where "trim_with ws (drop (length w) s) = drop k (drop (length w) s)" using 1 by auto
    then show ?thesis using Some by (intro exI [of _ "k + length w"]) (simp add: trim_with.simps [of ws s])
  qed
qed

lemma leading_take: "leading ws s = None \<Longrightarrow> leading ws (take n s) = None"
proof (rule ccontr)
  assume none: "leading ws s = None" and "leading ws (take n s) \<noteq> None"
  then obtain w where w: "w \<in> set ws" "w \<noteq> []" "take (min (length w) n) s = w"
    by (auto simp: leading_def find_None_iff)
  have "length (take (min (length w) n) s) \<le> n" by simp
  then have "length w \<le> n" unfolding w(3) .
  then have "take (length w) s = w" using w(3) by (simp add: min_def)
  then show False using none w by (auto simp: leading_def find_None_iff)
qed

lemma trim_trim [simp]: "trim (trim s) = trim s"
proof (rule trim_fixed)
  let ?t = "trim_with white_space s"
  obtain k where "trim_with (map rev white_space) (rev ?t) = drop k (rev ?t)"
    using trim_with_drop by blast
  then have "trim s = take (length ?t - k) ?t" by (simp add: trim_def rev_drop)
  then show "leading white_space (trim s) = None" by (simp add: leading_take trim_with_result)
  show "leading (map rev white_space) (rev (trim s)) = None" by (simp add: trim_def trim_with_result)
qed

text \<open>\<open>str::split\<close> on a character and its inverse.\<close>

fun split_on :: "'a \<Rightarrow> 'a list \<Rightarrow> 'a list list" where
  "split_on c [] = [[]]"
| "split_on c (x # xs) =
     (if x = c then [] # split_on c xs
      else (case split_on c xs of [] \<Rightarrow> [[x]] | p # ps \<Rightarrow> (x # p) # ps))"

fun join_with :: "'a \<Rightarrow> 'a list list \<Rightarrow> 'a list" where
  "join_with c [] = []"
| "join_with c [p] = p"
| "join_with c (p # q # ps) = p @ c # join_with c (q # ps)"

lemma split_on_not_Nil [simp]: "split_on c xs \<noteq> []"
  by (induction xs) (auto split: list.splits)

lemma join_split: "join_with c (split_on c xs) = xs"
proof (induction xs)
  case (Cons x xs)
  obtain p ps where "split_on c xs = p # ps" by (cases "split_on c xs") auto
  with Cons show ?case by (cases ps) auto
qed simp

lemma split_on_none: "c \<notin> set p \<Longrightarrow> split_on c p = [p]"
  by (induction p) auto

lemma split_on_append: "c \<notin> set p \<Longrightarrow> split_on c (p @ c # xs) = p # split_on c xs"
  by (induction p) auto

lemma split_join: "ps \<noteq> [] \<Longrightarrow> \<forall>p \<in> set ps. c \<notin> set p \<Longrightarrow> split_on c (join_with c ps) = ps"
  by (induction c ps rule: join_with.induct) (auto simp: split_on_none split_on_append)

lemma set_join_with: "set (join_with c ps) \<subseteq> insert c (\<Union>(set ` set ps))"
  by (induction c ps rule: join_with.induct) auto

text \<open>A string none of whose bytes occurs in an encoding of a white space character is its own
  trimming.\<close>

lemma leading_none:
  assumes "s = [] \<or> hd s \<notin> \<Union>(set ` set ws)"
  shows "leading ws s = None"
proof (rule ccontr)
  assume "leading ws s \<noteq> None"
  then obtain w where "w \<in> set ws" "w \<noteq> []" "take (length w) s = w"
    by (auto simp: leading_def find_None_iff)
  moreover from this have "s \<noteq> []" "hd s = hd w" by (auto, metis hd_take length_greater_0_conv)
  moreover have "hd w \<in> set w" using \<open>w \<noteq> []\<close> by simp
  ultimately show False using assms by auto
qed

lemma trim_plain:
  assumes "\<forall>c \<in> set s. c \<notin> \<Union>(set ` set white_space)"
  shows "trim s = s"
proof (rule trim_fixed)
  show "leading white_space s = None"
    using assms by (intro leading_none) (cases s; auto)
  show "leading (map rev white_space) (rev s) = None"
    using assms by (intro leading_none) (cases s rule: rev_cases; auto)
qed


section \<open>Ordered maps and sets\<close>

type_synonym ('k, 'v) btree_map = "('k \<times> 'v) list"
type_synonym 'k btree_set = "'k list"

definition btree_ok :: "('k::linorder, 'v) btree_map \<Rightarrow> bool" where
  "btree_ok m \<longleftrightarrow> sorted_wrt (<) (map fst m)"

fun btree_insert :: "'k::linorder \<Rightarrow> 'v \<Rightarrow> ('k, 'v) btree_map \<Rightarrow> ('k, 'v) btree_map" where
  "btree_insert k v [] = [(k, v)]"
| "btree_insert k v (e # m) =
     (if fst e < k then e # btree_insert k v m
      else if k < fst e then (k, v) # e # m
      else (k, v) # m)"

definition btree_remove :: "'k::linorder \<Rightarrow> ('k, 'v) btree_map \<Rightarrow> ('k, 'v) btree_map" where
  "btree_remove k m = filter (\<lambda>e. fst e \<noteq> k) m"

abbreviation btree_get :: "('k::linorder, 'v) btree_map \<Rightarrow> 'k \<Rightarrow> 'v option" where
  "btree_get \<equiv> map_of"

lemma btree_keys_insert: "fst ` set (btree_insert k v m) = insert k (fst ` set m)"
  by (induction m) auto

lemma btree_ok_Nil [simp, model_inv]: "btree_ok []"
  by (simp add: btree_ok_def)

lemma btree_ok_Cons: "btree_ok (e # m) \<longleftrightarrow> (\<forall>k \<in> fst ` set m. fst e < k) \<and> btree_ok m"
  by (auto simp: btree_ok_def)

lemma btree_ok_insert [model_inv]: "btree_ok m \<Longrightarrow> btree_ok (btree_insert k v m)"
proof (induction m)
  case (Cons e m)
  then have IH: "btree_ok (btree_insert k v m)" by (simp add: btree_ok_Cons)
  show ?case
  proof (cases "fst e < k")
    case True
    with IH Cons.prems show ?thesis
      by (simp add: btree_ok_Cons [of e] btree_keys_insert)
  next
    case False
    with Cons.prems show ?thesis by (fastforce simp: btree_ok_Cons)
  qed
qed (simp add: btree_ok_def)

lemma btree_ok_remove [model_inv]: "btree_ok m \<Longrightarrow> btree_ok (btree_remove k m)"
  by (simp add: btree_ok_def btree_remove_def sorted_wrt_filter sorted_wrt_map)

lemma btree_get_insert: "btree_get (btree_insert k v m) k' = (if k' = k then Some v else btree_get m k')"
  by (induction m) auto

lemma btree_get_remove: "btree_get (btree_remove k m) k' = (if k' = k then None else btree_get m k')"
  by (induction m) (auto simp: btree_remove_def)

lemma btree_ok_distinct: "btree_ok m \<Longrightarrow> distinct (map fst m)"
  by (auto simp: btree_ok_def strict_sorted_iff)

definition btree_set_of :: "'k::linorder list \<Rightarrow> 'k btree_set" where
  "btree_set_of xs = fold insort_insert xs []"

lemma set_fold_insort_insert: "set (fold insort_insert xs ys) = set xs \<union> set ys"
  by (induction xs arbitrary: ys) (auto simp: set_insort_insert)

lemma set_btree_set_of [simp]: "set (btree_set_of xs) = set xs"
  by (simp add: btree_set_of_def set_fold_insort_insert)

lemma sorted_fold_insort_insert: "sorted ys \<Longrightarrow> sorted (fold insort_insert xs ys)"
  by (induction xs arbitrary: ys) (auto simp: sorted_insort_insert)

lemma distinct_fold_insort_insert: "distinct ys \<Longrightarrow> distinct (fold insort_insert xs ys)"
  by (induction xs arbitrary: ys) (auto simp: distinct_insort_insert)

lemma btree_set_of_sorted: "sorted (btree_set_of xs)" "distinct (btree_set_of xs)"
  by (simp_all add: btree_set_of_def sorted_fold_insort_insert distinct_fold_insort_insert)

text \<open>The contract of an ordered map that its clients use, stated once and discharged for the
  association lists above.\<close>

locale ordered_map =
  fixes emp :: "'m"
    and put :: "'k::linorder \<Rightarrow> 'v \<Rightarrow> 'm \<Rightarrow> 'm"
    and del :: "'k \<Rightarrow> 'm \<Rightarrow> 'm"
    and look :: "'m \<Rightarrow> 'k \<Rightarrow> 'v option"
    and entries :: "'m \<Rightarrow> ('k \<times> 'v) list"
    and ok :: "'m \<Rightarrow> bool"
  assumes ok_emp: "ok emp"
    and ok_put: "ok m \<Longrightarrow> ok (put k v m)"
    and ok_del: "ok m \<Longrightarrow> ok (del k m)"
    and look_emp: "look emp k = None"
    and look_put: "ok m \<Longrightarrow> look (put k v m) k' = (if k' = k then Some v else look m k')"
    and look_del: "ok m \<Longrightarrow> look (del k m) k' = (if k' = k then None else look m k')"
    and entries_sorted: "ok m \<Longrightarrow> sorted_wrt (<) (map fst (entries m))"
    and entries_look: "ok m \<Longrightarrow> (k, v) \<in> set (entries m) \<longleftrightarrow> look m k = Some v"
begin

text \<open>Two ordered maps with the same contents iterate identically.\<close>

lemma entries_unique:
  assumes "ok m" "ok m'" "\<And>k. look m k = look m' k"
  shows "entries m = entries m'"
proof (rule map_sorted_distinct_set_unique [where f = fst])
  have strict: "sorted_wrt (<) (map fst (entries m))" "sorted_wrt (<) (map fst (entries m'))"
    using assms(1,2) by (auto intro: entries_sorted)
  then show "sorted (map fst (entries m))" "distinct (map fst (entries m))"
    "sorted (map fst (entries m'))" "distinct (map fst (entries m'))"
    by (auto simp: strict_sorted_iff)
  show set_eq: "set (entries m) = set (entries m')"
    using assms by (auto simp: entries_look)
  show "inj_on fst (set (entries m) \<union> set (entries m'))"
    unfolding set_eq using strict(2) by (auto simp: strict_sorted_iff distinct_map)
qed

lemma put_del_cancel: "ok m \<Longrightarrow> look m k = None \<Longrightarrow> entries (del k (put k v m)) = entries m"
  by (rule entries_unique) (auto simp: ok_put ok_del look_put look_del)

lemma put_twice: "ok m \<Longrightarrow> entries (put k v' (put k v m)) = entries (put k v' m)"
  by (rule entries_unique) (auto simp: ok_put look_put)

lemma put_commute:
  "ok m \<Longrightarrow> k \<noteq> k' \<Longrightarrow> entries (put k v (put k' v' m)) = entries (put k' v' (put k v m))"
  by (rule entries_unique) (auto simp: ok_put look_put)

end

interpretation btree: ordered_map "[]" btree_insert btree_remove btree_get "\<lambda>m. m" btree_ok
proof
  fix m :: "('a \<times> 'b) list" and k v
  assume "btree_ok m"
  then show "sorted_wrt (<) (map fst m)" by (simp add: btree_ok_def)
  from \<open>btree_ok m\<close> show "(k, v) \<in> set m \<longleftrightarrow> btree_get m k = Some v"
    by (simp add: btree_ok_distinct)
qed (auto simp: btree_get_insert btree_get_remove btree_ok_insert btree_ok_remove)


section \<open>Lifecycles\<close>

text \<open>A state machine whose steps strictly increase a rank: it never returns to a state it left, and a
  state without successor is final.\<close>

locale lifecycle =
  fixes step :: "'s \<Rightarrow> 's \<Rightarrow> bool"
    and rank :: "'s \<Rightarrow> nat"
  assumes step_rank: "step s t \<Longrightarrow> rank s < rank t"
begin

lemma steps_rank: "step\<^sup>*\<^sup>* s t \<Longrightarrow> rank s \<le> rank t"
  by (induction rule: rtranclp_induct) (auto dest: step_rank)

lemma never_returns:
  assumes "step s t" "step\<^sup>*\<^sup>* t u"
  shows "u \<noteq> s"
  using step_rank [OF assms(1)] steps_rank [OF assms(2)] by auto

lemma steps_antisym:
  assumes "step\<^sup>*\<^sup>* s t" "step\<^sup>*\<^sup>* t s"
  shows "s = t"
  using assms(1)
proof (cases rule: converse_rtranclpE)
  case (step u)
  have "step\<^sup>*\<^sup>* u s" using step(2) assms(2) by simp
  with never_returns [OF step(1)] show ?thesis by blast
qed simp

lemma final_state:
  assumes "\<And>u. \<not> step s u" "step\<^sup>*\<^sup>* s t"
  shows "t = s"
  using assms(2) by (cases rule: converse_rtranclpE) (auto simp: assms(1))

end

end
