(* ===== verification/Core_Model.thy ===== *)
theory Core_Model
  imports Orbit_Prelude
begin

text \<open>
  The value types of \<open>orbitrelay-core\<close> and \<open>orbitrelay-protocol\<close>: opaque identifiers, metadata,
  timestamps, versions, JSON payloads, and the records (\<open>Action\<close>, \<open>Event\<close>, \<open>Actor\<close>, \<open>Session\<close>,
  \<open>MessageEnvelope\<close>) that travel between the other components. A record's selectors are the
  accessor methods of the struct it models. A UUID is its 128-bit value, whose order is the order
  of the UUID's bytes; a timestamp is the instant it denotes, in nanoseconds, since every
  \<open>Timestamp\<close> is normalised to UTC; \<open>serde_json::Value\<close> is a datatype.
\<close>

section \<open>Identifiers\<close>

datatype EntityId = EntityId "128 word"

primrec as_uuid :: "EntityId \<Rightarrow> 128 word" where
  "as_uuid (EntityId w) = w"

definition uuid_as_bytes :: "128 word \<Rightarrow> bytes" where
  "uuid_as_bytes w = be_bytes 16 (unat w)"

instantiation EntityId :: linorder
begin

definition less_eq_EntityId :: "EntityId \<Rightarrow> EntityId \<Rightarrow> bool" where
  "less_eq_EntityId a b \<longleftrightarrow> as_uuid a \<le> as_uuid b"

definition less_EntityId :: "EntityId \<Rightarrow> EntityId \<Rightarrow> bool" where
  "less_EntityId a b \<longleftrightarrow> as_uuid a < as_uuid b"

instance
proof
  fix a b :: EntityId
  show "a \<le> b \<Longrightarrow> b \<le> a \<Longrightarrow> a = b"
    by (cases a; cases b) (simp add: less_eq_EntityId_def)
qed (auto simp: less_eq_EntityId_def less_EntityId_def)

end

lemma length_uuid_as_bytes [simp]: "length (uuid_as_bytes w) = 16"
  by (simp add: uuid_as_bytes_def)

lemma uuid_as_bytes_inject [simp]: "uuid_as_bytes v = uuid_as_bytes w \<longleftrightarrow> v = w"
proof -
  have "unat x < 256 ^ 16" for x :: "128 word"
    using unsigned_less [of x, where ?'a = nat] by simp
  then show ?thesis by (simp add: uuid_as_bytes_def be_bytes_inject word_unat_eq_iff)
qed

lemma as_uuid_inject [simp]: "as_uuid a = as_uuid b \<longleftrightarrow> a = b"
  by (cases a; cases b) simp

datatype ActorId = ActorId EntityId
datatype SessionId = SessionId EntityId
datatype ActionId = ActionId EntityId
datatype EventId = EventId EntityId
datatype MessageId = MessageId EntityId


section \<open>Metadata\<close>

datatype Metadata = Metadata "(string, string) btree_map"

primrec metadata_entries :: "Metadata \<Rightarrow> (string, string) btree_map" where
  "metadata_entries (Metadata m) = m"

definition metadata_new :: Metadata where
  "metadata_new = Metadata []"

definition metadata_len :: "Metadata \<Rightarrow> nat" where
  "metadata_len m = length (metadata_entries m)"

definition metadata_is_empty :: "Metadata \<Rightarrow> bool" where
  "metadata_is_empty m \<longleftrightarrow> metadata_entries m = []"

definition metadata_get :: "Metadata \<Rightarrow> string \<Rightarrow> string option" where
  "metadata_get m k = btree_get (metadata_entries m) k"

definition metadata_insert :: "string \<Rightarrow> string \<Rightarrow> Metadata \<Rightarrow> string option \<times> Metadata" where
  "metadata_insert k v m = (metadata_get m k, Metadata (btree_insert k v (metadata_entries m)))"

definition metadata_remove :: "string \<Rightarrow> Metadata \<Rightarrow> string option \<times> Metadata" where
  "metadata_remove k m = (metadata_get m k, Metadata (btree_remove k (metadata_entries m)))"

definition metadata_iter :: "Metadata \<Rightarrow> (string \<times> string) list" where
  "metadata_iter m = metadata_entries m"

definition metadata_ok :: "Metadata \<Rightarrow> bool" where
  "metadata_ok m \<longleftrightarrow> btree_ok (metadata_entries m)"

lemmas metadata_defs = metadata_new_def metadata_len_def metadata_is_empty_def metadata_get_def
  metadata_insert_def metadata_remove_def metadata_iter_def metadata_ok_def


section \<open>Time and versions\<close>

datatype Timestamp = Timestamp int

primrec instant :: "Timestamp \<Rightarrow> int" where
  "instant (Timestamp t) = t"

instantiation Timestamp :: linorder
begin

definition less_eq_Timestamp :: "Timestamp \<Rightarrow> Timestamp \<Rightarrow> bool" where
  "less_eq_Timestamp a b \<longleftrightarrow> instant a \<le> instant b"

definition less_Timestamp :: "Timestamp \<Rightarrow> Timestamp \<Rightarrow> bool" where
  "less_Timestamp a b \<longleftrightarrow> instant a < instant b"

instance
proof
  fix a b :: Timestamp
  show "a \<le> b \<Longrightarrow> b \<le> a \<Longrightarrow> a = b"
    by (cases a; cases b) (simp add: less_eq_Timestamp_def)
qed (auto simp: less_eq_Timestamp_def less_Timestamp_def)

end

record Version =
  major :: u16
  minor :: u16
  patch :: u16

definition Version_new :: "u16 \<Rightarrow> u16 \<Rightarrow> u16 \<Rightarrow> Version" where
  "Version_new a b c = \<lparr>major = a, minor = b, patch = c\<rparr>"


section \<open>JSON payloads\<close>

datatype json_number = PosInt u64 | NegInt int | Float f64

datatype json =
    JNull
  | JBool bool
  | JNumber json_number
  | JString string
  | JArray "json list"
  | JObject "(string, json) btree_map"

text \<open>\<open>==\<close> on JSON values: floating-point numbers are compared as numbers, so that the two zeros are equal.\<close>

fun json_number_eq :: "json_number \<Rightarrow> json_number \<Rightarrow> bool" where
  "json_number_eq (PosInt m) (PosInt n) \<longleftrightarrow> m = n"
| "json_number_eq (NegInt m) (NegInt n) \<longleftrightarrow> m = n"
| "json_number_eq (Float a) (Float b) \<longleftrightarrow> f64_eq a b"
| "json_number_eq _ _ \<longleftrightarrow> False"

fun json_eq :: "json \<Rightarrow> json \<Rightarrow> bool"
  and json_list_eq :: "json list \<Rightarrow> json list \<Rightarrow> bool"
  and json_fields_eq :: "(string \<times> json) list \<Rightarrow> (string \<times> json) list \<Rightarrow> bool" where
  "json_eq JNull JNull \<longleftrightarrow> True"
| "json_eq (JBool a) (JBool b) \<longleftrightarrow> a = b"
| "json_eq (JNumber m) (JNumber n) \<longleftrightarrow> json_number_eq m n"
| "json_eq (JString s) (JString t) \<longleftrightarrow> s = t"
| "json_eq (JArray vs) (JArray ws) \<longleftrightarrow> json_list_eq vs ws"
| "json_eq (JObject m) (JObject n) \<longleftrightarrow> json_fields_eq m n"
| "json_eq _ _ \<longleftrightarrow> False"
| "json_list_eq [] [] \<longleftrightarrow> True"
| "json_list_eq (v # vs) (w # ws) \<longleftrightarrow> json_eq v w \<and> json_list_eq vs ws"
| "json_list_eq _ _ \<longleftrightarrow> False"
| "json_fields_eq [] [] \<longleftrightarrow> True"
| "json_fields_eq ((k, v) # m) ((l, w) # n) \<longleftrightarrow> k = l \<and> json_eq v w \<and> json_fields_eq m n"
| "json_fields_eq _ _ \<longleftrightarrow> False"

text \<open>A \<open>serde_json::Number\<close> is never a NaN or infinite.\<close>

primrec json_number_finite :: "json_number \<Rightarrow> bool" where
  "json_number_finite (PosInt _) \<longleftrightarrow> True"
| "json_number_finite (NegInt _) \<longleftrightarrow> True"
| "json_number_finite (Float a) \<longleftrightarrow> f64_is_finite a"

fun json_finite :: "json \<Rightarrow> bool" where
  "json_finite (JNumber n) \<longleftrightarrow> json_number_finite n"
| "json_finite (JArray vs) \<longleftrightarrow> (\<forall>v \<in> set vs. json_finite v)"
| "json_finite (JObject m) \<longleftrightarrow> (\<forall>kv \<in> set m. json_finite (snd kv))"
| "json_finite _ \<longleftrightarrow> True"

lemma json_list_eq_refl: "(\<And>v. v \<in> set vs \<Longrightarrow> json_eq v v) \<Longrightarrow> json_list_eq vs vs"
  by (induction vs) simp_all

lemma json_fields_eq_refl: "(\<And>kv. kv \<in> set m \<Longrightarrow> json_eq (snd kv) (snd kv)) \<Longrightarrow> json_fields_eq m m"
  by (induction m) force+

lemma json_number_eq_refl: "json_number_finite n \<Longrightarrow> json_number_eq n n"
  by (cases n) (simp_all add: f64_eq_refl)

lemma json_eq_refl: "json_finite v \<Longrightarrow> json_eq v v"
  by (induction v rule: json_finite.induct) (simp_all add: json_number_eq_refl json_list_eq_refl json_fields_eq_refl)

datatype Payload = Payload "(string, json) btree_map"

primrec payload_fields :: "Payload \<Rightarrow> (string, json) btree_map" where
  "payload_fields (Payload m) = m"

definition payload_new :: Payload where
  "payload_new = Payload []"

definition payload_get :: "Payload \<Rightarrow> string \<Rightarrow> json option" where
  "payload_get p k = btree_get (payload_fields p) k"

definition payload_insert :: "string \<Rightarrow> json \<Rightarrow> Payload \<Rightarrow> json option \<times> Payload" where
  "payload_insert k v p = (payload_get p k, Payload (btree_insert k v (payload_fields p)))"

definition payload_iter :: "Payload \<Rightarrow> (string \<times> json) list" where
  "payload_iter p = payload_fields p"


section \<open>Actors, sessions, actions, events and envelopes\<close>

datatype ActorType = Human | Agent | Plugin | Service

record Actor =
  actor_id :: ActorId
  actor_type :: ActorType
  actor_metadata :: Metadata

record Session =
  session_id :: SessionId
  session_created_at :: Timestamp
  session_metadata :: Metadata

datatype ActionType = ActionType string

primrec action_type_str :: "ActionType \<Rightarrow> string" where
  "action_type_str (ActionType s) = s"

record Action =
  ac_id :: ActionId
  ac_session_id :: SessionId
  ac_actor_id :: ActorId
  ac_action_type :: ActionType
  ac_requested_at :: Timestamp
  ac_payload :: Payload
  ac_metadata :: Metadata

datatype EventType = EventType string

primrec event_type_str :: "EventType \<Rightarrow> string" where
  "event_type_str (EventType s) = s"

instantiation EventType :: linorder
begin

definition less_eq_EventType :: "EventType \<Rightarrow> EventType \<Rightarrow> bool" where
  "less_eq_EventType a b \<longleftrightarrow> event_type_str a \<le> event_type_str b"

definition less_EventType :: "EventType \<Rightarrow> EventType \<Rightarrow> bool" where
  "less_EventType a b \<longleftrightarrow> event_type_str a < event_type_str b"

instance
proof
  fix a b :: EventType
  show "a \<le> b \<Longrightarrow> b \<le> a \<Longrightarrow> a = b"
    by (cases a; cases b) (simp add: less_eq_EventType_def)
qed (auto simp: less_eq_EventType_def less_EventType_def)

end

record Event =
  ev_id :: EventId
  ev_session_id :: SessionId
  ev_actor_id :: ActorId
  ev_action_id :: ActionId
  ev_event_type :: EventType
  ev_occurred_at :: Timestamp
  ev_payload :: Payload
  ev_metadata :: Metadata

definition event_eq :: "Event \<Rightarrow> Event \<Rightarrow> bool" where
  "event_eq a b \<longleftrightarrow>
     ev_id a = ev_id b \<and> ev_session_id a = ev_session_id b \<and> ev_actor_id a = ev_actor_id b
     \<and> ev_action_id a = ev_action_id b \<and> ev_event_type a = ev_event_type b \<and> ev_occurred_at a = ev_occurred_at b
     \<and> json_fields_eq (payload_fields (ev_payload a)) (payload_fields (ev_payload b)) \<and> ev_metadata a = ev_metadata b"

lemma event_eq_refl:
  "(\<And>kv. kv \<in> set (payload_fields (ev_payload e)) \<Longrightarrow> json_finite (snd kv)) \<Longrightarrow> event_eq e e"
  by (auto simp: event_eq_def intro!: json_fields_eq_refl json_eq_refl)

definition Event_new ::
  "EventId \<Rightarrow> SessionId \<Rightarrow> ActorId \<Rightarrow> ActionId \<Rightarrow> EventType \<Rightarrow> Timestamp \<Rightarrow> Payload \<Rightarrow> Metadata \<Rightarrow> Event"
where
  "Event_new i s a c t ts p m =
     \<lparr>ev_id = i, ev_session_id = s, ev_actor_id = a, ev_action_id = c, ev_event_type = t,
      ev_occurred_at = ts, ev_payload = p, ev_metadata = m\<rparr>"

datatype MessageType = MessageType string

record 'p MessageEnvelope =
  env_version :: Version
  env_message_id :: MessageId
  env_message_type :: MessageType
  env_payload :: 'p

lemma Event_new_simps [simp]:
  "ev_id (Event_new i s a c t ts p m) = i"
  "ev_session_id (Event_new i s a c t ts p m) = s"
  "ev_actor_id (Event_new i s a c t ts p m) = a"
  "ev_action_id (Event_new i s a c t ts p m) = c"
  "ev_event_type (Event_new i s a c t ts p m) = t"
  "ev_occurred_at (Event_new i s a c t ts p m) = ts"
  "ev_payload (Event_new i s a c t ts p m) = p"
  "ev_metadata (Event_new i s a c t ts p m) = m"
  by (simp_all add: Event_new_def)


section \<open>Metadata behaves as an ordered map\<close>

lemma metadata_ok_new [simp, model_inv]: "metadata_ok metadata_new"
  by (simp add: metadata_defs)

lemma metadata_ok_insert [model_inv]: "metadata_ok m \<Longrightarrow> metadata_ok (snd (metadata_insert k v m))"
  by (simp add: metadata_defs btree_ok_insert)

lemma metadata_ok_remove [model_inv]: "metadata_ok m \<Longrightarrow> metadata_ok (snd (metadata_remove k m))"
  by (simp add: metadata_defs btree_ok_remove)

interpretation metadata: ordered_map metadata_new
  "\<lambda>k v m. snd (metadata_insert k v m)" "\<lambda>k m. snd (metadata_remove k m)"
  metadata_get metadata_iter metadata_ok
proof
  fix m :: Metadata and k v :: string
  assume ok: "metadata_ok m"
  show "sorted_wrt (<) (map fst (metadata_iter m))"
    using ok btree.entries_sorted by (simp add: metadata_defs)
  show "((k, v) \<in> set (metadata_iter m)) = (metadata_get m k = Some v)"
    using ok btree.entries_look by (simp add: metadata_defs)
qed (auto simp: metadata_ok_insert metadata_ok_remove, auto simp: metadata_defs btree_get_insert btree_get_remove)

end
