(* ===== verification/Storage_Model.thy ===== *)
theory Storage_Model
  imports Core_Model
begin

text \<open>
  \<open>orbitrelay-storage\<close>: the opaque cursor and checkpoint tokens (\<open>record.rs\<close>), structured queries
  (\<open>query.rs\<close>) and the append-only in-memory event store (\<open>memory.rs\<close>).

  The \<open>base64\<close> crate is a parameter, a pair of functions; \<open>base64_ok\<close> states what the code relies
  on: decoding inverts encoding, and only the empty input encodes to the empty string. An
  operation of the store returns \<open>None\<close> where the code would panic. \<open>mem_inv\<close> relates the record
  vector, the index and the cursors; the operations keep it and, under it, never panic.
\<close>

section \<open>Tokens\<close>

record base64 =
  b64_encode :: "bytes \<Rightarrow> string"
  b64_decode :: "string \<Rightarrow> bytes option"

definition base64_ok :: "base64 \<Rightarrow> bool" where
  "base64_ok b64 \<longleftrightarrow> (\<forall>bs. b64_decode b64 (b64_encode b64 bs) = Some bs)
     \<and> (\<forall>bs. b64_encode b64 bs = [] \<longrightarrow> bs = [])"

datatype StorageError =
    InvalidQuery string
  | InvalidCursor string
  | InvalidCheckpoint string
  | EventConflict EventId
  | BackendUnavailable string
  | BackendFailure string

datatype TokenKind = Cursor | Checkpoint

primrec token_kind_u8 :: "TokenKind \<Rightarrow> u8" where
  "token_kind_u8 Cursor = 1"
| "token_kind_u8 Checkpoint = 2"

definition TOKEN_VERSION :: u8 where
  "TOKEN_VERSION = 1"

definition TOKEN_LENGTH :: nat where
  "TOKEN_LENGTH = 26"

definition STORAGE_TOKEN_VERSION :: u8 where
  "STORAGE_TOKEN_VERSION = 1"

definition STORAGE_TOKEN_LENGTH :: nat where
  "STORAGE_TOKEN_LENGTH = 42"

definition encode_memory_token :: "base64 \<Rightarrow> TokenKind \<Rightarrow> EntityId \<Rightarrow> nat \<Rightarrow> string option" where
  "encode_memory_token b64 kind sid position =
     (if position < 2 ^ 64
      then Some (b64_encode b64 ([TOKEN_VERSION, token_kind_u8 kind] @ uuid_as_bytes (as_uuid sid)
                                  @ be_bytes 8 position))
      else None)"

definition decode_memory_token :: "base64 \<Rightarrow> string \<Rightarrow> TokenKind \<Rightarrow> EntityId \<Rightarrow> u64 option" where
  "decode_memory_token b64 token kind sid =
     (case b64_decode b64 token of
        None \<Rightarrow> None
      | Some bs \<Rightarrow>
          if length bs \<noteq> TOKEN_LENGTH
             \<or> bs ! 0 \<noteq> TOKEN_VERSION
             \<or> bs ! 1 \<noteq> token_kind_u8 kind
             \<or> take 16 (drop 2 bs) \<noteq> uuid_as_bytes (as_uuid sid)
          then None
          else Some (word_of_nat (of_be_bytes (drop 18 bs))))"

definition encode_storage_token ::
  "base64 \<Rightarrow> TokenKind \<Rightarrow> EntityId \<Rightarrow> EntityId \<Rightarrow> u64 \<Rightarrow> string" where
  "encode_storage_token b64 kind sid epoch position =
     b64_encode b64 ([STORAGE_TOKEN_VERSION, token_kind_u8 kind] @ uuid_as_bytes (as_uuid sid)
                      @ uuid_as_bytes (as_uuid epoch) @ be_bytes 8 (unat position))"

definition decode_storage_token ::
  "base64 \<Rightarrow> string \<Rightarrow> TokenKind \<Rightarrow> EntityId \<Rightarrow> EntityId \<Rightarrow> u64 option" where
  "decode_storage_token b64 token kind sid epoch =
     (case b64_decode b64 token of
        None \<Rightarrow> None
      | Some bs \<Rightarrow>
          if length bs \<noteq> STORAGE_TOKEN_LENGTH
             \<or> bs ! 0 \<noteq> STORAGE_TOKEN_VERSION
             \<or> bs ! 1 \<noteq> token_kind_u8 kind
             \<or> take 16 (drop 2 bs) \<noteq> uuid_as_bytes (as_uuid sid)
             \<or> take 16 (drop 18 bs) \<noteq> uuid_as_bytes (as_uuid epoch)
          then None
          else Some (word_of_nat (of_be_bytes (drop 34 bs))))"

datatype EventCursor = EventCursor string
datatype EventStoreCheckpoint = EventStoreCheckpoint string

primrec cursor_token :: "EventCursor \<Rightarrow> string" where
  "cursor_token (EventCursor t) = t"

primrec checkpoint_token :: "EventStoreCheckpoint \<Rightarrow> string" where
  "checkpoint_token (EventStoreCheckpoint t) = t"

definition cursor_for_storage :: "base64 \<Rightarrow> EntityId \<Rightarrow> EntityId \<Rightarrow> u64 \<Rightarrow> EventCursor" where
  "cursor_for_storage b64 sid epoch position =
     EventCursor (encode_storage_token b64 Cursor sid epoch position)"

definition cursor_storage_position ::
  "base64 \<Rightarrow> EventCursor \<Rightarrow> EntityId \<Rightarrow> EntityId \<Rightarrow> (StorageError, u64) result" where
  "cursor_storage_position b64 c sid epoch =
     ok_or (decode_storage_token b64 (cursor_token c) Cursor sid epoch)
       (InvalidCursor ''cursor does not belong to this store epoch'')"

definition cursor_for_memory :: "base64 \<Rightarrow> EntityId \<Rightarrow> nat \<Rightarrow> EventCursor option" where
  "cursor_for_memory b64 sid position =
     map_option EventCursor (encode_memory_token b64 Cursor sid position)"

definition cursor_memory_position ::
  "base64 \<Rightarrow> EventCursor \<Rightarrow> EntityId \<Rightarrow> nat \<Rightarrow> (StorageError, nat) result" where
  "cursor_memory_position b64 c sid record_count =
     ok_or (case decode_memory_token b64 (cursor_token c) Cursor sid of
              None \<Rightarrow> None
            | Some w \<Rightarrow> if 0 < unat w \<and> unat w \<le> record_count then Some (unat w) else None)
       (InvalidCursor ''cursor position is outside the stored event range'')"

definition cursor_is_empty :: "EventCursor \<Rightarrow> bool" where
  "cursor_is_empty c \<longleftrightarrow> cursor_token c = []"

definition checkpoint_for_storage ::
  "base64 \<Rightarrow> EntityId \<Rightarrow> EntityId \<Rightarrow> u64 \<Rightarrow> EventStoreCheckpoint" where
  "checkpoint_for_storage b64 sid epoch position =
     EventStoreCheckpoint (encode_storage_token b64 Checkpoint sid epoch position)"

definition checkpoint_storage_position ::
  "base64 \<Rightarrow> EventStoreCheckpoint \<Rightarrow> EntityId \<Rightarrow> EntityId \<Rightarrow> (StorageError, u64) result" where
  "checkpoint_storage_position b64 c sid epoch =
     ok_or (decode_storage_token b64 (checkpoint_token c) Checkpoint sid epoch)
       (InvalidCheckpoint ''checkpoint does not belong to this store epoch'')"

definition checkpoint_for_memory :: "base64 \<Rightarrow> EntityId \<Rightarrow> nat \<Rightarrow> EventStoreCheckpoint option" where
  "checkpoint_for_memory b64 sid position =
     map_option EventStoreCheckpoint (encode_memory_token b64 Checkpoint sid position)"

definition checkpoint_memory_position ::
  "base64 \<Rightarrow> EventStoreCheckpoint \<Rightarrow> EntityId \<Rightarrow> nat \<Rightarrow> (StorageError, nat) result" where
  "checkpoint_memory_position b64 c sid record_count =
     ok_or (case decode_memory_token b64 (checkpoint_token c) Checkpoint sid of
              None \<Rightarrow> None
            | Some w \<Rightarrow> if unat w \<le> record_count then Some (unat w) else None)
       (InvalidCheckpoint ''checkpoint does not belong to this store or is outside its range'')"

definition checkpoint_is_empty :: "EventStoreCheckpoint \<Rightarrow> bool" where
  "checkpoint_is_empty c \<longleftrightarrow> checkpoint_token c = []"


section \<open>Records, pages and queries\<close>

record StoredEvent =
  st_cursor :: EventCursor
  st_event :: Event

record EventPage =
  page_events :: "StoredEvent list"
  page_next_cursor :: "EventCursor option"

record EventQuery =
  q_session_id :: "SessionId option"
  q_actor_id :: "ActorId option"
  q_event_types :: "EventType btree_set"
  q_occurred_from :: "Timestamp option"
  q_occurred_until :: "Timestamp option"
  q_after :: "EventCursor option"
  q_upper_bound :: "EventStoreCheckpoint option"
  q_limit :: nat

definition DEFAULT_LIMIT :: nat where
  "DEFAULT_LIMIT = 100"

definition MAX_LIMIT :: nat where
  "MAX_LIMIT = 1000"

definition EventQuery_all :: EventQuery where
  "EventQuery_all =
     \<lparr>q_session_id = None, q_actor_id = None, q_event_types = [], q_occurred_from = None,
      q_occurred_until = None, q_after = None, q_upper_bound = None, q_limit = DEFAULT_LIMIT\<rparr>"

definition EventQuery_for_session :: "SessionId \<Rightarrow> EventQuery" where
  "EventQuery_for_session s = EventQuery_all\<lparr>q_session_id := Some s\<rparr>"

definition with_actor_id :: "ActorId \<Rightarrow> EventQuery \<Rightarrow> EventQuery" where
  "with_actor_id a q = q\<lparr>q_actor_id := Some a\<rparr>"

definition with_event_type :: "EventType \<Rightarrow> EventQuery \<Rightarrow> EventQuery" where
  "with_event_type t q = q\<lparr>q_event_types := insort_insert t (q_event_types q)\<rparr>"

definition with_time_range :: "Timestamp \<Rightarrow> Timestamp \<Rightarrow> EventQuery \<Rightarrow> EventQuery" where
  "with_time_range from until q = q\<lparr>q_occurred_from := Some from, q_occurred_until := Some until\<rparr>"

definition after :: "EventCursor \<Rightarrow> EventQuery \<Rightarrow> EventQuery" where
  "after c q = q\<lparr>q_after := Some c\<rparr>"

definition before :: "EventStoreCheckpoint \<Rightarrow> EventQuery \<Rightarrow> EventQuery" where
  "before c q = q\<lparr>q_upper_bound := Some c\<rparr>"

definition with_limit :: "nat \<Rightarrow> EventQuery \<Rightarrow> EventQuery" where
  "with_limit n q = q\<lparr>q_limit := n\<rparr>"

definition EventQuery_validate :: "EventQuery \<Rightarrow> (StorageError, unit) result" where
  "EventQuery_validate q =
     (if q_limit q = 0 \<or> q_limit q > MAX_LIMIT
        then Inl (InvalidQuery ''limit must be between 1 and 1000'')
      else if list_ex (\<lambda>t. blank (event_type_str t)) (q_event_types q)
        then Inl (InvalidQuery ''event type cannot be empty'')
      else if (case (q_occurred_from q, q_occurred_until q) of
                 (Some from, Some until) \<Rightarrow> until \<le> from | _ \<Rightarrow> False)
        then Inl (InvalidQuery ''occurred_from must be earlier than occurred_until'')
      else if (case q_after q of None \<Rightarrow> False | Some c \<Rightarrow> cursor_is_empty c)
        then Inl (InvalidCursor ''cursor cannot be empty'')
      else if (case q_upper_bound q of None \<Rightarrow> False | Some c \<Rightarrow> checkpoint_is_empty c)
        then Inl (InvalidCheckpoint ''checkpoint cannot be empty'')
      else Inr ())"

definition EventQuery_matches :: "EventQuery \<Rightarrow> Event \<Rightarrow> bool" where
  "EventQuery_matches q e \<longleftrightarrow>
     is_none_or (q_session_id q) (\<lambda>s. s = ev_session_id e)
     \<and> is_none_or (q_actor_id q) (\<lambda>a. a = ev_actor_id e)
     \<and> (q_event_types q = [] \<or> List.member (q_event_types q) (ev_event_type e))
     \<and> is_none_or (q_occurred_from q) (\<lambda>from. from \<le> ev_occurred_at e)
     \<and> is_none_or (q_occurred_until q) (\<lambda>until. ev_occurred_at e < until)"


section \<open>The in-memory store\<close>

record MemState =
  store_id :: EntityId
  records :: "StoredEvent list"
  event_indices :: "EventId \<rightharpoonup> nat"

definition MemState_default :: "EntityId \<Rightarrow> MemState" where
  "MemState_default fresh = \<lparr>store_id = fresh, records = [], event_indices = Map.empty\<rparr>"

definition capture_checkpoint ::
  "base64 \<Rightarrow> MemState \<Rightarrow> (StorageError, EventStoreCheckpoint) result option" where
  "capture_checkpoint b64 s =
     map_option Inr (checkpoint_for_memory b64 (store_id s) (length (records s)))"

definition append_event ::
  "base64 \<Rightarrow> Event \<Rightarrow> MemState \<Rightarrow> ((StorageError, StoredEvent) result \<times> MemState) option" where
  "append_event b64 e s =
     (case event_indices s (ev_id e) of
        Some index \<Rightarrow>
          (case vec_index (records s) index of
             None \<Rightarrow> None
           | Some existing \<Rightarrow>
               if event_eq (st_event existing) e then Some (Inr existing, s)
               else Some (Inl (EventConflict (ev_id e)), s))
      | None \<Rightarrow>
          (case cursor_for_memory b64 (store_id s) (length (records s) + 1) of
             None \<Rightarrow> None
           | Some cursor \<Rightarrow>
               let record' = \<lparr>st_cursor = cursor, st_event = e\<rparr>;
                   index = length (records s)
               in (case vec_push (records s) record' of
                     None \<Rightarrow> None
                   | Some rs \<Rightarrow>
                       Some (Inr record',
                         s\<lparr>records := rs,
                           event_indices := (event_indices s)(ev_id (st_event record') \<mapsto> index)\<rparr>))))"

definition get_event ::
  "EventId \<Rightarrow> MemState \<Rightarrow> (StorageError, StoredEvent option) result option" where
  "get_event i s =
     (case event_indices s i of
        None \<Rightarrow> Some (Inr None)
      | Some index \<Rightarrow> map_option (\<lambda>r. Inr (Some r)) (vec_index (records s) index))"

definition page_of :: "EventQuery \<Rightarrow> StoredEvent list \<Rightarrow> EventPage" where
  "page_of q found =
     (if length found > q_limit q
      then let kept = take (q_limit q) found
           in \<lparr>page_events = kept,
               page_next_cursor = (if kept = [] then None else Some (st_cursor (last kept)))\<rparr>
      else \<lparr>page_events = found, page_next_cursor = None\<rparr>)"

definition query_events ::
  "base64 \<Rightarrow> EventQuery \<Rightarrow> MemState \<Rightarrow> (StorageError, EventPage) result option" where
  "query_events b64 q s =
     (case EventQuery_validate q of
        Inl e \<Rightarrow> Some (Inl e)
      | Inr _ \<Rightarrow>
     (case (case q_upper_bound q of
              Some c \<Rightarrow> checkpoint_memory_position b64 c (store_id s) (length (records s))
            | None \<Rightarrow> Inr (length (records s))) of
        Inl e \<Rightarrow> Some (Inl e)
      | Inr upper_bound \<Rightarrow>
     (case (case q_after q of
              Some c \<Rightarrow> cursor_memory_position b64 c (store_id s) (length (records s))
            | None \<Rightarrow> Inr 0) of
        Inl e \<Rightarrow> Some (Inl e)
      | Inr start \<Rightarrow>
          if start > upper_bound
          then Some (Inl (InvalidCursor ''cursor is beyond the query checkpoint''))
          else if length (records s) < upper_bound then None
          else Some (Inr (page_of q
                 (take (q_limit q + 1)
                   (filter (\<lambda>r. EventQuery_matches q (st_event r))
                     (drop start (take upper_bound (records s))))))))))"


section \<open>Invariant, abstraction and the store contract\<close>

definition mem_inv :: "base64 \<Rightarrow> MemState \<Rightarrow> bool" where
  "mem_inv b64 s \<longleftrightarrow>
     length (records s) \<le> isize_max
     \<and> (\<forall>i < length (records s).
          event_indices s (ev_id (st_event (records s ! i))) = Some i
          \<and> cursor_for_memory b64 (store_id s) (i + 1) = Some (st_cursor (records s ! i)))
     \<and> (\<forall>k i. event_indices s k = Some i \<longrightarrow>
          i < length (records s) \<and> ev_id (st_event (records s ! i)) = k)"

definition event_log :: "MemState \<Rightarrow> Event list" where
  "event_log s = map st_event (records s)"

text \<open>A sequence of appends against any store, stopping at a panic; errors leave the store as the
  operation left it.\<close>

primrec run_appends ::
  "(Event \<Rightarrow> 's \<Rightarrow> ('r \<times> 's) option) \<Rightarrow> Event list \<Rightarrow> 's \<Rightarrow> 's option" where
  "run_appends app [] s = Some s"
| "run_appends app (e # es) s =
     (case app e s of None \<Rightarrow> None | Some (_, s') \<Rightarrow> run_appends app es s')"

text \<open>The reference behaviour of a sequence of appends: the first event with each identifier.\<close>

primrec log_extend :: "Event list \<Rightarrow> Event list \<Rightarrow> Event list" where
  "log_extend l [] = l"
| "log_extend l (e # es) = log_extend (if ev_id e \<in> ev_id ` set l then l else l @ [e]) es"

lemma log_extend_prefix: "\<exists>new. log_extend l es = l @ new \<and> set new \<subseteq> set es"
proof (induction es arbitrary: l)
  case (Cons e es)
  obtain new where new: "log_extend (if ev_id e \<in> ev_id ` set l then l else l @ [e]) es =
      (if ev_id e \<in> ev_id ` set l then l else l @ [e]) @ new" "set new \<subseteq> set es"
    using Cons.IH by blast
  then show ?case by (cases "ev_id e \<in> ev_id ` set l") auto
qed simp

lemma log_extend_ids: "ev_id ` set (log_extend l es) = ev_id ` set l \<union> ev_id ` set es"
  by (induction es arbitrary: l) auto

locale event_store =
  fixes inv :: "'s \<Rightarrow> bool"
    and log :: "'s \<Rightarrow> Event list"
    and append :: "Event \<Rightarrow> 's \<Rightarrow> ((StorageError, 'r) result \<times> 's) option"
    and get :: "EventId \<Rightarrow> 's \<Rightarrow> (StorageError, 'r option) result option"
    and event_of :: "'r \<Rightarrow> Event"
  assumes distinct_log: "inv s \<Longrightarrow> distinct (map ev_id (log s))"
    and append_known:
      "inv s \<Longrightarrow> x \<in> set (log s) \<Longrightarrow> ev_id x = ev_id e \<Longrightarrow>
         \<exists>r. append e s = Some (r, s)
           \<and> (case r of Inl err \<Rightarrow> \<not> event_eq x e \<and> err = EventConflict (ev_id e)
                      | Inr rec \<Rightarrow> event_eq x e \<and> event_of rec = x)"
    and append_fresh:
      "inv s \<Longrightarrow> ev_id e \<notin> ev_id ` set (log s) \<Longrightarrow> length (log s) < isize_max \<Longrightarrow>
         \<exists>rec s'. append e s = Some (Inr rec, s') \<and> event_of rec = e
           \<and> log s' = log s @ [e] \<and> inv s'"
    and get_spec:
      "inv s \<Longrightarrow> \<exists>r. get i s = Some (Inr r) \<and> map_option event_of r = find (\<lambda>x. ev_id x = i) (log s)"
begin

text \<open>One append: the log grows by the event if its identifier is new, and is unchanged otherwise.\<close>

lemma append_step:
  assumes "inv s" "length (log s) < isize_max"
  obtains r s' where "append e s = Some (r, s')" "inv s'"
    "log s' = (if ev_id e \<in> ev_id ` set (log s) then log s else log s @ [e])"
proof (cases "ev_id e \<in> ev_id ` set (log s)")
  case True
  then obtain x where "x \<in> set (log s)" "ev_id x = ev_id e" by force
  with append_known assms(1) obtain r where "append e s = Some (r, s)" by blast
  with True assms(1) that show thesis by simp
next
  case False
  with append_fresh assms obtain rec s' where
    "append e s = Some (Inr rec, s')" "log s' = log s @ [e]" "inv s'" by blast
  with False that show thesis by simp
qed

lemma run_appends_log:
  "inv s \<Longrightarrow> length (log s) + length es \<le> isize_max \<Longrightarrow>
     \<exists>s'. run_appends append es s = Some s' \<and> inv s' \<and> log s' = log_extend (log s) es"
proof (induction es arbitrary: s)
  case (Cons e es)
  then have "length (log s) < isize_max" by simp
  with Cons.prems(1) obtain r s1 where s1: "append e s = Some (r, s1)" "inv s1"
    "log s1 = (if ev_id e \<in> ev_id ` set (log s) then log s else log s @ [e])"
    by (rule append_step)
  have "length (log s1) + length es \<le> isize_max" using Cons.prems(2) s1(3) by auto
  from Cons.IH [OF s1(2) this] show ?case using s1 by simp
qed simp

lemma get_known: "inv s \<Longrightarrow> x \<in> set (log s) \<Longrightarrow> \<exists>rec. get (ev_id x) s = Some (Inr (Some rec)) \<and> event_of rec = x"
proof -
  assume inv: "inv s" and x: "x \<in> set (log s)"
  obtain r where r: "get (ev_id x) s = Some (Inr r)"
    "map_option event_of r = find (\<lambda>y. ev_id y = ev_id x) (log s)"
    using get_spec [OF inv] by blast
  moreover have "find (\<lambda>y. ev_id y = ev_id x) (log s) = Some x"
    by (rule find_unique) (use distinct_log [OF inv] x in \<open>auto simp: distinct_map inj_on_def\<close>)
  ultimately show ?thesis by (cases r) auto
qed

text \<open>Durability: what the log holds is still retrieved, unchanged, after any further appends.\<close>

lemma get_after_appends:
  assumes "inv s" "x \<in> set (log s)" "length (log s) + length es \<le> isize_max"
  obtains s' rec where "run_appends append es s = Some s'"
    "get (ev_id x) s' = Some (Inr (Some rec))" "event_of rec = x"
proof -
  obtain s' where s': "run_appends append es s = Some s'" "inv s'" "log s' = log_extend (log s) es"
    using run_appends_log assms(1,3) by blast
  moreover have "x \<in> set (log s')"
    using log_extend_prefix [of "log s" es] assms(2) s'(3) by auto
  ultimately show thesis using get_known that by blast
qed

end

lemma mem_invD:
  assumes "mem_inv b64 s"
  shows "length (records s) \<le> isize_max"
    and "i < length (records s) \<Longrightarrow> event_indices s (ev_id (st_event (records s ! i))) = Some i"
    and "i < length (records s) \<Longrightarrow>
      cursor_for_memory b64 (store_id s) (i + 1) = Some (st_cursor (records s ! i))"
    and "event_indices s k = Some j \<Longrightarrow> j < length (records s)"
    and "event_indices s k = Some j \<Longrightarrow> ev_id (st_event (records s ! j)) = k"
  using assms unfolding mem_inv_def by blast+

lemma mem_inv_default [model_inv]: "mem_inv b64 (MemState_default fresh)"
  by (simp add: mem_inv_def MemState_default_def)

lemma event_indices_None:
  assumes "mem_inv b64 s"
  shows "event_indices s k = None \<longleftrightarrow> k \<notin> ev_id ` set (event_log s)"
proof
  assume "event_indices s k = None"
  then show "k \<notin> ev_id ` set (event_log s)"
    using mem_invD(2) [OF assms] by (force simp: event_log_def in_set_conv_nth)
next
  assume "k \<notin> ev_id ` set (event_log s)"
  then show "event_indices s k = None"
    using mem_invD(4,5) [OF assms]
    by (cases "event_indices s k") (force simp: event_log_def image_iff)+
qed

lemma mem_inv_push [model_inv]:
  assumes "mem_inv b64 s" "length (records s) < isize_max" "event_indices s (ev_id (st_event r)) = None"
    "cursor_for_memory b64 (store_id s) (length (records s) + 1) = Some (st_cursor r)"
  shows "mem_inv b64 (s\<lparr>records := records s @ [r],
           event_indices := (event_indices s)(ev_id (st_event r) \<mapsto> length (records s))\<rparr>)"
proof -
  have fresh: "ev_id (st_event (records s ! i)) \<noteq> ev_id (st_event r)" if "i < length (records s)" for i
    using mem_invD(2) [OF assms(1) that] assms(3) by auto
  show ?thesis
    unfolding mem_inv_def
    using assms(2,4) mem_invD [OF assms(1)] fresh
    by (auto simp: nth_append less_Suc_eq)
qed

lemma cursor_for_memory_Some:
  "n < 2 ^ 64 \<Longrightarrow> \<exists>c. cursor_for_memory b64 sid n = Some c"
  by (simp add: cursor_for_memory_def encode_memory_token_def)

lemma get_event_find:
  assumes inv: "mem_inv b64 s"
  shows "\<exists>r. get_event k s = Some (Inr r) \<and> map_option st_event r = find (\<lambda>x. ev_id x = k) (event_log s)"
proof (cases "event_indices s k")
  case None
  then have "find (\<lambda>x. ev_id x = k) (event_log s) = None"
    using event_indices_None [OF inv, of k] by (auto simp: find_None_iff)
  with None show ?thesis by (simp add: get_event_def)
next
  case (Some i)
  have "find (\<lambda>x. ev_id x = k) (event_log s) = Some (st_event (records s ! i))"
  proof (rule find_unique)
    show "st_event (records s ! i) \<in> set (event_log s)" "ev_id (st_event (records s ! i)) = k"
      using mem_invD(4,5) [OF inv Some] by (simp_all add: event_log_def)
    fix y assume y: "y \<in> set (event_log s)" "ev_id y = k"
    then obtain j where "j < length (records s)" "y = st_event (records s ! j)"
      by (auto simp: event_log_def in_set_conv_nth)
    with mem_invD(2) [OF inv, of j] y(2) Some show "y = st_event (records s ! i)" by simp
  qed
  with Some mem_invD(4) [OF inv Some] show ?thesis by (simp add: get_event_def)
qed

lemma append_event_known:
  assumes inv: "mem_inv b64 s" and x: "x \<in> set (event_log s)" "ev_id x = ev_id e"
  shows "\<exists>r. append_event b64 e s = Some (r, s)
    \<and> (case r of Inl err \<Rightarrow> \<not> event_eq x e \<and> err = EventConflict (ev_id e) | Inr rec \<Rightarrow> event_eq x e \<and> st_event rec = x)"
proof -
  obtain i where i: "i < length (records s)" "x = st_event (records s ! i)"
    using x(1) by (auto simp: event_log_def in_set_conv_nth)
  with x(2) mem_invD(2) [OF inv i(1)] have "event_indices s (ev_id e) = Some i" by simp
  with i show ?thesis by (cases "event_eq x e") (auto simp: append_event_def)
qed

lemma append_event_fresh:
  assumes inv: "mem_inv b64 s" and fresh: "ev_id e \<notin> ev_id ` set (event_log s)"
    and room: "length (event_log s) < isize_max"
  shows "\<exists>rec s'. append_event b64 e s = Some (Inr rec, s') \<and> st_event rec = e
    \<and> event_log s' = event_log s @ [e] \<and> mem_inv b64 s'"
proof -
  have idx: "event_indices s (ev_id e) = None"
    using fresh event_indices_None [OF inv] by simp
  have len: "length (records s) < isize_max" using room by (simp add: event_log_def)
  then have "length (records s) + 1 < 2 ^ 64" by (simp add: isize_max_def)
  then obtain c where c: "cursor_for_memory b64 (store_id s) (length (records s) + 1) = Some c"
    using cursor_for_memory_Some by blast
  define r where "r = \<lparr>st_cursor = c, st_event = e\<rparr>"
  have "append_event b64 e s = Some (Inr r, s\<lparr>records := records s @ [r],
      event_indices := (event_indices s)(ev_id (st_event r) \<mapsto> length (records s))\<rparr>)"
    using idx c len by (simp add: append_event_def r_def vec_push_def Let_def)
  moreover have "mem_inv b64 (s\<lparr>records := records s @ [r],
      event_indices := (event_indices s)(ev_id (st_event r) \<mapsto> length (records s))\<rparr>)"
    by (rule mem_inv_push) (use inv len idx c in \<open>simp_all add: r_def\<close>)
  ultimately show ?thesis by (auto simp: event_log_def r_def)
qed

lemma event_log_distinct: "mem_inv b64 s \<Longrightarrow> distinct (map ev_id (event_log s))"
  unfolding distinct_conv_nth event_log_def
  using mem_invD(2) by (auto simp: nth_eq_iff_index_eq) (metis option.inject)

interpretation mem: event_store "mem_inv b64" event_log "append_event b64" get_event st_event
  for b64
  by unfold_locales (rule event_log_distinct get_event_find append_event_known append_event_fresh; assumption)+

end
