(* ===== verification/Storage_Replay.thy ===== *)
theory Storage_Replay
  imports Storage_Model
begin

text \<open>
  What the tokens and the paged queries of \<open>orbitrelay-storage\<close> guarantee: a token is read back only
  by the store and for the purpose it was issued for, following \<open>next_cursor\<close> from page to page
  delivers every matching event exactly once in append order, and a checkpoint freezes what a
  replay sees. \<open>fetch_pages\<close> is the client loop that the pages are made for; its fuel is the number
  of pages still to be requested, and one page per stored record, plus one, always suffices.
\<close>

section \<open>Tokens are read back only where they belong\<close>

lemma base64_decode_encode [simp]: "base64_ok b64 \<Longrightarrow> b64_decode b64 (b64_encode b64 bs) = Some bs"
  by (simp add: base64_ok_def)

lemma base64_encode_nonempty: "base64_ok b64 \<Longrightarrow> bs \<noteq> [] \<Longrightarrow> b64_encode b64 bs \<noteq> []"
  by (auto simp: base64_ok_def)

lemma token_kind_u8_inject [simp]: "token_kind_u8 a = token_kind_u8 b \<longleftrightarrow> a = b"
  by (cases a; cases b) simp_all

lemma decode_encode_memory_token:
  assumes "base64_ok b64" "encode_memory_token b64 kind sid n = Some t"
  shows "decode_memory_token b64 t kind' sid' =
    (if kind' = kind \<and> sid' = sid then Some (word_of_nat n) else None)"
proof -
  have n: "n < 2 ^ 64" and t: "t = b64_encode b64 ([TOKEN_VERSION, token_kind_u8 kind]
      @ uuid_as_bytes (as_uuid sid) @ be_bytes 8 n)"
    using assms(2) by (auto simp: encode_memory_token_def split: if_splits)
  from n have "of_be_bytes (be_bytes 8 n) = n" by (simp add: of_be_be_bytes)
  then show ?thesis
    using assms(1) by (auto simp: t decode_memory_token_def TOKEN_LENGTH_def)
qed

lemma decode_encode_storage_token:
  assumes "base64_ok b64"
  shows "decode_storage_token b64 (encode_storage_token b64 kind sid epoch n) kind' sid' epoch' =
    (if kind' = kind \<and> sid' = sid \<and> epoch' = epoch then Some n else None)"
proof -
  have "unat n < 256 ^ 8" using unsigned_less [of n, where ?'a = nat] by simp
  then have "of_be_bytes (be_bytes 8 (unat n)) = unat n" by (rule of_be_be_bytes)
  then show ?thesis
    using assms
    by (auto simp: decode_storage_token_def encode_storage_token_def STORAGE_TOKEN_LENGTH_def)
qed

lemma unat_word_of_nat_64: "n < 2 ^ 64 \<Longrightarrow> unat (word_of_nat n :: u64) = n"
  by (simp add: unat_of_nat)

lemma cursor_position_for_memory:
  assumes "base64_ok b64" "cursor_for_memory b64 sid n = Some c" "0 < n" "n \<le> count"
  shows "cursor_memory_position b64 c sid count = Inr n"
proof -
  obtain t where t: "encode_memory_token b64 Cursor sid n = Some t" "c = EventCursor t"
    using assms(2) by (auto simp: cursor_for_memory_def)
  then have "n < 2 ^ 64" by (simp add: encode_memory_token_def split: if_splits)
  then show ?thesis
    using assms(3,4) decode_encode_memory_token [OF assms(1) t(1)]
    by (simp add: cursor_memory_position_def t(2) unat_word_of_nat_64)
qed

lemma checkpoint_position_for_memory:
  assumes "base64_ok b64" "checkpoint_for_memory b64 sid n = Some c" "n \<le> count"
  shows "checkpoint_memory_position b64 c sid count = Inr n"
proof -
  obtain t where t: "encode_memory_token b64 Checkpoint sid n = Some t" "c = EventStoreCheckpoint t"
    using assms(2) by (auto simp: checkpoint_for_memory_def)
  then have "n < 2 ^ 64" by (simp add: encode_memory_token_def split: if_splits)
  then show ?thesis
    using assms(3) decode_encode_memory_token [OF assms(1) t(1)]
    by (simp add: checkpoint_memory_position_def t(2) unat_word_of_nat_64)
qed

lemma cursor_for_memory_not_empty:
  "base64_ok b64 \<Longrightarrow> cursor_for_memory b64 sid n = Some c \<Longrightarrow> \<not> cursor_is_empty c"
  by (auto simp: cursor_for_memory_def encode_memory_token_def cursor_is_empty_def
      base64_encode_nonempty split: if_splits)


section \<open>One page\<close>

lemma filter_split_at:
  assumes "0 < n" "n \<le> length (filter P xs)"
  obtains k where "k < length xs" "last (take n (filter P xs)) = xs ! k"
    "filter P (drop (Suc k) xs) = drop n (filter P xs)"
  using assms
proof (induction xs arbitrary: n thesis)
  case (Cons x xs)
  show ?case
  proof (cases "P x")
    case False
    then obtain k where "k < length xs" "last (take n (filter P xs)) = xs ! k"
      "filter P (drop (Suc k) xs) = drop n (filter P xs)"
      using Cons.IH [of n] Cons.prems(2,3) by auto
    then show ?thesis using False Cons.prems(1) [of "Suc k"] by simp
  next
    case True
    show ?thesis
    proof (cases "n = 1")
      case True
      with \<open>P x\<close> show ?thesis using Cons.prems(1) [of 0] by simp
    next
      case False
      then obtain m where n: "n = Suc m" "0 < m" using Cons.prems(2) by (cases n) auto
      then obtain k where k: "k < length xs" "last (take m (filter P xs)) = xs ! k"
        "filter P (drop (Suc k) xs) = drop m (filter P xs)"
        using Cons.IH [of m] Cons.prems(3) \<open>P x\<close> by auto
      moreover have "take m (filter P xs) \<noteq> []"
        using n Cons.prems(3) \<open>P x\<close> by (cases "filter P xs") auto
      ultimately show ?thesis using \<open>P x\<close> n Cons.prems(1) [of "Suc k"] by simp
    qed
  qed
qed simp

definition query_start :: "base64 \<Rightarrow> EventQuery \<Rightarrow> MemState \<Rightarrow> (StorageError, nat) result" where
  "query_start b64 q s =
     (case q_after q of
        Some c \<Rightarrow> cursor_memory_position b64 c (store_id s) (length (records s))
      | None \<Rightarrow> Inr 0)"

definition query_stop :: "base64 \<Rightarrow> EventQuery \<Rightarrow> MemState \<Rightarrow> (StorageError, nat) result" where
  "query_stop b64 q s =
     (case q_upper_bound q of
        Some c \<Rightarrow> checkpoint_memory_position b64 c (store_id s) (length (records s))
      | None \<Rightarrow> Inr (length (records s)))"

text \<open>The specification of a replay: the matching records of the window, in append order.\<close>

definition window :: "EventQuery \<Rightarrow> MemState \<Rightarrow> nat \<Rightarrow> nat \<Rightarrow> StoredEvent list" where
  "window q s start stop =
     filter (\<lambda>r. EventQuery_matches q (st_event r)) (drop start (take stop (records s)))"

lemma query_stop_bound: "query_stop b64 q s = Inr stop \<Longrightarrow> stop \<le> length (records s)"
  by (auto simp: query_stop_def checkpoint_memory_position_def result_simps
      split: option.splits if_splits)

lemma query_start_bound: "query_start b64 q s = Inr start \<Longrightarrow> start \<le> length (records s)"
  by (auto simp: query_start_def cursor_memory_position_def result_simps
      split: option.splits if_splits)

lemma query_events_page:
  assumes "EventQuery_validate q = Inr ()" "query_start b64 q s = Inr start"
    "query_stop b64 q s = Inr stop" "start \<le> stop"
  shows "query_events b64 q s = Some (Inr (page_of q (take (q_limit q + 1) (window q s start stop))))"
  using assms(1,4) assms(2) [unfolded query_start_def] assms(3) [unfolded query_stop_def]
    query_stop_bound [OF assms(3)]
  by (simp add: query_events_def window_def)

lemma validate_limit: "EventQuery_validate q = Inr () \<Longrightarrow> 0 < q_limit q \<and> q_limit q \<le> MAX_LIMIT"
  by (auto simp: EventQuery_validate_def split: if_splits)

lemma page_of_window:
  assumes "0 < q_limit q"
  shows "page_of q (take (q_limit q + 1) w) =
    \<lparr>page_events = take (q_limit q) w,
     page_next_cursor = (if length w \<le> q_limit q then None
                         else Some (st_cursor (last (take (q_limit q) w))))\<rparr>"
  using assms by (auto simp: page_of_def Let_def)

text \<open>The next cursor denotes the position just after the last record of the page.\<close>

lemma next_cursor_position:
  assumes ok: "base64_ok b64" and inv: "mem_inv b64 s" and stop: "stop \<le> length (records s)"
    and n: "0 < n" "n < length (window q s start stop)"
  obtains k where "start < k" "k \<le> stop"
    "cursor_memory_position b64 (st_cursor (last (take n (window q s start stop)))) (store_id s)
       (length (records s)) = Inr k"
    "window q s k stop = drop n (window q s start stop)"
    "\<not> cursor_is_empty (st_cursor (last (take n (window q s start stop))))"
proof -
  let ?P = "\<lambda>r. EventQuery_matches q (st_event r)"
  let ?xs = "drop start (take stop (records s))"
  have "n \<le> length (filter ?P ?xs)" using n(2) by (simp add: window_def)
  with n(1) obtain j where j: "j < length ?xs" "last (take n (filter ?P ?xs)) = ?xs ! j"
    "filter ?P (drop (Suc j) ?xs) = drop n (filter ?P ?xs)"
    by (rule filter_split_at)
  let ?k = "Suc (start + j)"
  have pos: "start + j < stop" "start + j < length (records s)" using j(1) stop by auto
  have last: "last (take n (window q s start stop)) = records s ! (start + j)"
    using j(2) pos by (simp add: window_def)
  have cur: "cursor_for_memory b64 (store_id s) ?k = Some (st_cursor (records s ! (start + j)))"
    using mem_invD(3) [OF inv pos(2)] by simp
  show thesis
  proof (rule that)
    show "start < ?k" "?k \<le> stop" using pos by auto
    show "cursor_memory_position b64 (st_cursor (last (take n (window q s start stop)))) (store_id s)
        (length (records s)) = Inr ?k"
      unfolding last using cursor_position_for_memory [OF ok cur] pos by simp
    show "window q s ?k stop = drop n (window q s start stop)"
      using j(3) by (simp add: window_def add.commute)
    show "\<not> cursor_is_empty (st_cursor (last (take n (window q s start stop))))"
      unfolding last by (rule cursor_for_memory_not_empty [OF ok cur])
  qed
qed


section \<open>Following the pages\<close>

primrec fetch_pages ::
  "base64 \<Rightarrow> nat \<Rightarrow> EventQuery \<Rightarrow> MemState \<Rightarrow> StoredEvent list option" where
  "fetch_pages b64 0 q s = None"
| "fetch_pages b64 (Suc fuel) q s =
     (case query_events b64 q s of
        Some (Inr page) \<Rightarrow>
          (case page_next_cursor page of
             None \<Rightarrow> Some (page_events page)
           | Some c \<Rightarrow> map_option (\<lambda>rest. page_events page @ rest) (fetch_pages b64 fuel (after c q) s))
      | _ \<Rightarrow> None)"

lemma after_simps [simp]:
  "q_after (after c q) = Some c" "q_upper_bound (after c q) = q_upper_bound q"
  "q_limit (after c q) = q_limit q" "window (after c q) = window q"
  "query_stop b64 (after c q) = query_stop b64 q"
  by (auto simp: after_def window_def query_stop_def EventQuery_matches_def fun_eq_iff)

lemma validate_after:
  "EventQuery_validate q = Inr () \<Longrightarrow> \<not> cursor_is_empty c \<Longrightarrow> EventQuery_validate (after c q) = Inr ()"
  by (auto simp: EventQuery_validate_def after_def split: if_splits option.splits)

lemma fetch_pages_window:
  assumes "base64_ok b64" "mem_inv b64 s" "EventQuery_validate q = Inr ()"
    "query_start b64 q s = Inr start" "query_stop b64 q s = Inr stop" "start \<le> stop"
    "stop - start < fuel"
  shows "fetch_pages b64 fuel q s = Some (window q s start stop)"
  using assms(3-)
proof (induction fuel arbitrary: q start)
  case (Suc fuel)
  note lim = validate_limit [OF Suc.prems(1), THEN conjunct1]
  note page = query_events_page [OF Suc.prems(1,2,3,4), unfolded page_of_window [OF lim]]
  show ?case
  proof (cases "length (window q s start stop) \<le> q_limit q")
    case True
    then show ?thesis using page by simp
  next
    case False
    then have "q_limit q < length (window q s start stop)" by simp
    from next_cursor_position [OF assms(1,2) query_stop_bound [OF Suc.prems(3)] lim this]
    obtain k where k: "start < k" "k \<le> stop"
      "cursor_memory_position b64 (st_cursor (last (take (q_limit q) (window q s start stop))))
         (store_id s) (length (records s)) = Inr k"
      "window q s k stop = drop (q_limit q) (window q s start stop)"
      "\<not> cursor_is_empty (st_cursor (last (take (q_limit q) (window q s start stop))))" .
    let ?c = "st_cursor (last (take (q_limit q) (window q s start stop)))"
    have "fetch_pages b64 fuel (after ?c q) s = Some (window (after ?c q) s k stop)"
    proof (rule Suc.IH)
      show "EventQuery_validate (after ?c q) = Inr ()"
        by (rule validate_after [OF Suc.prems(1) k(5)])
      show "query_start b64 (after ?c q) s = Inr k" using k(3) by (simp add: query_start_def)
    qed (use Suc.prems k in auto)
    then show ?thesis using page False k(4) by simp
  qed
qed simp


section \<open>Checkpoints are stable under appends\<close>

lemma append_event_extends:
  assumes "append_event b64 e s = Some (r, s')"
  shows "\<exists>new. records s' = records s @ new" "store_id s' = store_id s"
  using assms
  by (auto simp: append_event_def vec_push_Some Let_def split: option.splits if_splits)

lemma run_appends_extends:
  "run_appends (append_event b64) es s = Some s' \<Longrightarrow>
     (\<exists>new. records s' = records s @ new) \<and> store_id s' = store_id s"
proof (induction es arbitrary: s)
  case (Cons e es)
  then obtain r s1 where s1: "append_event b64 e s = Some (r, s1)"
    "run_appends (append_event b64) es s1 = Some s'"
    by (auto split: option.splits)
  with Cons.IH [OF s1(2)] append_event_extends [OF s1(1)] show ?case by auto
qed simp

lemma window_extends:
  "records s' = records s @ new \<Longrightarrow> stop \<le> length (records s) \<Longrightarrow> window q s' start stop = window q s start stop"
  by (simp add: window_def)

lemma capture_checkpoint_position:
  assumes "base64_ok b64" "capture_checkpoint b64 s = Some (Inr c)" "length (records s) \<le> n"
  shows "checkpoint_memory_position b64 c (store_id s) n = Inr (length (records s))"
  using assms by (auto simp: capture_checkpoint_def intro: checkpoint_position_for_memory)


section \<open>Sample values\<close>

text \<open>A concrete byte-for-character encoding in the place of the \<open>base64\<close> crate, and a store of
  three events, on which the properties below are instantiated.\<close>

definition raw64 :: base64 where
  "raw64 = \<lparr>b64_encode = map (\<lambda>b. char_of (unat b)),
            b64_decode = (\<lambda>s. Some (map (\<lambda>c. word_of_nat (of_char c)) s))\<rparr>"

definition sample_event :: "128 word \<Rightarrow> Event" where
  "sample_event n = Event_new (EventId (EntityId n)) (SessionId (EntityId 1)) (ActorId (EntityId 2))
     (ActionId (EntityId 3)) (EventType ''canvas.stroke.began'') (Timestamp 0) payload_new metadata_new"

definition sample_store :: MemState where
  "sample_store = the (run_appends (append_event raw64) (map sample_event [10, 11, 12])
     (MemState_default (EntityId 7)))"

lemma raw64_ok [simp]: "base64_ok raw64"
proof -
  have "word_of_nat (of_char (char_of (unat b) :: char)) = b" for b :: u8
    using unsigned_less [of b, where ?'a = nat] by simp
  then show ?thesis by (simp add: base64_ok_def raw64_def comp_def)
qed

lemma sample_store_facts:
  shows "mem_inv raw64 sample_store" and "event_log sample_store = map sample_event [10, 11, 12]"
proof -
  have "length (event_log (MemState_default (EntityId 7))) + length (map sample_event [10, 11, 12])
      \<le> isize_max"
    by (simp add: event_log_def MemState_default_def isize_max_def)
  from mem.run_appends_log [OF mem_inv_default this, of raw64]
  show "mem_inv raw64 sample_store" "event_log sample_store = map sample_event [10, 11, 12]"
    by (auto simp: sample_store_def event_log_def MemState_default_def sample_event_def)
qed

lemma sample_store_length [simp]:
  "length (event_log sample_store) = 3" "length (records sample_store) = 3"
proof -
  show "length (event_log sample_store) = 3" by (simp add: sample_store_facts)
  then show "length (records sample_store) = 3" by (simp add: event_log_def)
qed


section \<open>Properties\<close>

text \<open>C39. A memory token decodes, in the store that issued it and for the kind it was issued as, to
  the position it encodes; for the other kind (a cursor used as a checkpoint or the reverse) or for
  any other store it does not decode at all.\<close>

theorem memory_token_roundtrip:
  assumes "base64_ok b64" "encode_memory_token b64 kind sid n = Some t"
  shows "decode_memory_token b64 t kind' sid' =
    (if kind' = kind \<and> sid' = sid then Some (word_of_nat n) else None)"
  using assms by (rule decode_encode_memory_token)

theorem memory_token_roundtrip_witness:
  "\<exists>t. encode_memory_token raw64 Cursor (EntityId 7) 2 = Some t
     \<and> decode_memory_token raw64 t Cursor (EntityId 7) = Some 2
     \<and> decode_memory_token raw64 t Checkpoint (EntityId 7) = None
     \<and> decode_memory_token raw64 t Cursor (EntityId 8) = None"
proof -
  obtain t where t: "encode_memory_token raw64 Cursor (EntityId 7) 2 = Some t"
    by (simp add: encode_memory_token_def)
  show ?thesis
    using t memory_token_roundtrip [OF raw64_ok t, of Cursor "EntityId 7"]
      memory_token_roundtrip [OF raw64_ok t, of Checkpoint "EntityId 7"]
      memory_token_roundtrip [OF raw64_ok t, of Cursor "EntityId 8"]
    by auto
qed

text \<open>A token of a storage adapter decodes exactly for its kind, its store and its continuation
  epoch, to the 64-bit position it was made from.\<close>

theorem storage_token_roundtrip:
  assumes "base64_ok b64"
  shows "decode_storage_token b64 (encode_storage_token b64 kind sid epoch n) kind' sid' epoch' =
    (if kind' = kind \<and> sid' = sid \<and> epoch' = epoch then Some n else None)"
  using assms by (rule decode_encode_storage_token)

theorem storage_token_roundtrip_witness:
  "decode_storage_token raw64 (encode_storage_token raw64 Checkpoint (EntityId 7) (EntityId 9) 5)
     Checkpoint (EntityId 7) (EntityId 9) = Some 5"
  using storage_token_roundtrip [OF raw64_ok, of Checkpoint "EntityId 7" "EntityId 9" 5] by simp

text \<open>C4. Appending refines the abstract log: under the store invariant and below the capacity of a
  vector, an append never panics and keeps the invariant; a new identifier extends the log by the
  event at its end; a known identifier leaves the whole store unchanged, returning the stored record
  when its event equals the new one and \<open>EventConflict\<close> when it does not.\<close>

theorem append_event_refines:
  assumes "mem_inv b64 s" "length (event_log s) < isize_max"
  shows "\<exists>r s'. append_event b64 e s = Some (r, s') \<and> mem_inv b64 s'
    \<and> (case find (\<lambda>x. ev_id x = ev_id e) (event_log s) of
         Some x \<Rightarrow> s' = s \<and> (if event_eq x e then \<exists>rec. r = Inr rec \<and> st_event rec = x
                            else r = Inl (EventConflict (ev_id e)))
       | None \<Rightarrow> event_log s' = event_log s @ [e] \<and> (\<exists>rec. r = Inr rec \<and> st_event rec = e))"
proof (cases "ev_id e \<in> ev_id ` set (event_log s)")
  case True
  then obtain x where x: "x \<in> set (event_log s)" "ev_id x = ev_id e" by force
  have "find (\<lambda>x. ev_id x = ev_id e) (event_log s) = Some x"
    by (rule find_unique) (use mem.distinct_log [OF assms(1)] x in \<open>auto simp: distinct_map inj_on_def\<close>)
  moreover obtain r where "append_event b64 e s = Some (r, s)"
    "case r of Inl err \<Rightarrow> \<not> event_eq x e \<and> err = EventConflict (ev_id e) | Inr rec \<Rightarrow> event_eq x e \<and> st_event rec = x"
    using mem.append_known [OF assms(1) x] by blast
  ultimately show ?thesis using assms(1) by (cases r) auto
next
  case False
  then have "find (\<lambda>x. ev_id x = ev_id e) (event_log s) = None"
    unfolding find_None_iff by (metis imageI)
  then show ?thesis using mem.append_fresh [OF assms(1) False assms(2)] by auto
qed

theorem append_event_refines_witness:
  "\<exists>r s'. append_event raw64 (sample_event 13) sample_store = Some (r, s') \<and> mem_inv raw64 s'
     \<and> event_log s' = map sample_event [10, 11, 12, 13]"
proof -
  have "length (event_log sample_store) < isize_max" by (simp add: isize_max_def)
  from append_event_refines [OF sample_store_facts(1) this, of "sample_event 13"]
  show ?thesis by (auto simp: sample_store_facts sample_event_def)
qed

text \<open>C27. Durability: an event of the log is still retrieved unchanged by its identifier after any
  sequence of further appends, whatever they contain, and the log then is the old log followed by
  the first event of each new identifier.\<close>

theorem stored_event_survives_appends:
  assumes "mem_inv b64 s" "x \<in> set (event_log s)" "length (event_log s) + length es \<le> isize_max"
  shows "\<exists>s' rec. run_appends (append_event b64) es s = Some s'
    \<and> event_log s' = log_extend (event_log s) es
    \<and> get_event (ev_id x) s' = Some (Inr (Some rec)) \<and> st_event rec = x"
  using mem.get_after_appends [OF assms] mem.run_appends_log [OF assms(1,3)]
  by (metis option.inject)

theorem stored_event_survives_appends_witness:
  "\<exists>s' rec. run_appends (append_event raw64) [sample_event 13, sample_event 10] sample_store = Some s'
     \<and> event_log s' = map sample_event [10, 11, 12, 13]
     \<and> get_event (EventId (EntityId 11)) s' = Some (Inr (Some rec)) \<and> st_event rec = sample_event 11"
proof -
  have "sample_event 11 \<in> set (event_log sample_store)" by (simp add: sample_store_facts)
  moreover have "length (event_log sample_store) + length [sample_event 13, sample_event 10] \<le> isize_max"
    by (simp add: isize_max_def)
  ultimately show ?thesis
    using stored_event_survives_appends [OF sample_store_facts(1), of "sample_event 11"
        "[sample_event 13, sample_event 10]"]
    by (auto simp: sample_store_facts sample_event_def)
qed

text \<open>C2. Paging is complete and duplicate-free: starting from any accepted query, following
  \<open>next_cursor\<close> until it is absent terminates within one request per stored record and delivers
  exactly the matching records between the start cursor and the upper bound, each once, in append
  order, whatever the page size.\<close>

theorem fetch_pages_complete:
  assumes "base64_ok b64" "mem_inv b64 s" "EventQuery_validate q = Inr ()"
    "query_start b64 q s = Inr start" "query_stop b64 q s = Inr stop" "start \<le> stop"
  shows "fetch_pages b64 (Suc (length (records s))) q s = Some (window q s start stop)"
  using query_stop_bound [OF assms(5)] by (intro fetch_pages_window assms) simp

definition two_per_page :: EventQuery where
  "two_per_page = with_limit 2 EventQuery_all"

lemma two_per_page_facts:
  "EventQuery_validate two_per_page = Inr ()" "query_start b64 two_per_page s = Inr 0"
  "query_stop b64 two_per_page s = Inr (length (records s))"
  by (simp_all add: two_per_page_def with_limit_def EventQuery_all_def EventQuery_validate_def
      query_start_def query_stop_def MAX_LIMIT_def)

theorem fetch_pages_complete_witness:
  "map_option (map st_event) (fetch_pages raw64 4 two_per_page sample_store)
     = Some (map sample_event [10, 11, 12])"
proof -
  have "window two_per_page sample_store 0 3 = records sample_store"
    by (simp add: window_def EventQuery_matches_def two_per_page_def with_limit_def EventQuery_all_def)
  then show ?thesis
    using fetch_pages_complete [OF raw64_ok sample_store_facts(1) two_per_page_facts]
      sample_store_facts(2)
    by (simp add: event_log_def numeral_eq_Suc)
qed

text \<open>C3. A checkpoint freezes a replay: paging with an upper bound captured earlier delivers, after
  any further appends, exactly the records that matched when the checkpoint was taken.\<close>

theorem checkpoint_freezes_replay:
  assumes "base64_ok b64" "mem_inv b64 s" "capture_checkpoint b64 s = Some (Inr c)"
    "length (event_log s) + length es \<le> isize_max"
    "EventQuery_validate (before c q) = Inr ()" "q_after q = None"
  shows "\<exists>s'. run_appends (append_event b64) es s = Some s'
    \<and> fetch_pages b64 (Suc (length (records s'))) (before c q) s'
        = Some (window q s 0 (length (records s)))"
proof -
  obtain s' where s': "run_appends (append_event b64) es s = Some s'" "mem_inv b64 s'"
    using mem.run_appends_log [OF assms(2,4)] by blast
  then obtain new where new: "records s' = records s @ new" "store_id s' = store_id s"
    using run_appends_extends by blast
  let ?n = "length (records s)"
  have "query_stop b64 (before c q) s' = Inr ?n"
    using capture_checkpoint_position [OF assms(1,3), of "length (records s')"] new
    by (simp add: query_stop_def before_def)
  moreover have "query_start b64 (before c q) s' = Inr 0"
    using assms(6) by (simp add: query_start_def before_def)
  ultimately have "fetch_pages b64 (Suc (length (records s'))) (before c q) s'
      = Some (window (before c q) s' 0 ?n)"
    using new by (intro fetch_pages_window assms(1,5) s'(2)) auto
  moreover have "window (before c q) s' 0 ?n = window q s 0 ?n"
    using new by (simp add: window_def before_def EventQuery_matches_def)
  ultimately show ?thesis using s'(1) by auto
qed

theorem checkpoint_freezes_replay_witness:
  "\<exists>c s'. capture_checkpoint raw64 sample_store = Some (Inr c)
     \<and> run_appends (append_event raw64) [sample_event 13] sample_store = Some s'
     \<and> fetch_pages raw64 (Suc (length (records s'))) (before c two_per_page) s'
         = Some (window two_per_page sample_store 0 3)"
proof -
  obtain c where c: "capture_checkpoint raw64 sample_store = Some (Inr c)" "\<not> checkpoint_is_empty c"
    by (simp add: capture_checkpoint_def checkpoint_for_memory_def encode_memory_token_def
        checkpoint_is_empty_def raw64_def)
  have "EventQuery_validate (before c two_per_page) = Inr ()"
    using c(2) by (simp add: EventQuery_validate_def before_def two_per_page_def with_limit_def
        EventQuery_all_def MAX_LIMIT_def)
  moreover have "q_after two_per_page = None"
    by (simp add: two_per_page_def with_limit_def EventQuery_all_def)
  moreover have "length (event_log sample_store) + length [sample_event 13] \<le> isize_max"
    by (simp add: isize_max_def)
  ultimately show ?thesis
    using checkpoint_freezes_replay [OF raw64_ok sample_store_facts(1) c(1)] c(1) by fastforce
qed

text \<open>A query never panics: for every query and every store the bound taken from the checkpoint
  lies within the record vector, so the \<open>expect\<close> in \<open>query\<close> cannot fire.\<close>

theorem query_events_total: "\<exists>r. query_events b64 q s = Some r"
  using query_stop_bound [of b64 q s]
  by (auto simp: query_events_def query_stop_def split: sum.splits option.splits)

end
