(* ===== verification/Canvas_Model.thy ===== *)
theory Canvas_Model
  imports Core_Model
begin

text \<open>
  The values of \<open>orbitrelay-canvas\<close>: identifiers, geometry, style, the descriptor, the stroke
  lifecycle, the five payloads with their validation, and the strict conversion between payloads and
  the generic protocol payload. Derived equality on floating-point fields is IEEE equality, so it is
  written out (\<open>point_eq\<close>, \<open>style_eq\<close>) and is not HOL equality.

  \<open>serde_json::to_value\<close> and \<open>from_value\<close> at a type are a record of two functions, an argument of the
  definitions that use them: \<open>None\<close> is a serialisation or schema error.
\<close>

section \<open>Identifiers, geometry and style\<close>

datatype CanvasId = CanvasId EntityId
datatype LayerId = LayerId EntityId
datatype StrokeId = StrokeId EntityId

primrec layer_entity_id :: "LayerId \<Rightarrow> EntityId" where
  "layer_entity_id (LayerId i) = i"

primrec stroke_entity_id :: "StrokeId \<Rightarrow> EntityId" where
  "stroke_entity_id (StrokeId i) = i"

instantiation LayerId :: linorder
begin

definition less_eq_LayerId :: "LayerId \<Rightarrow> LayerId \<Rightarrow> bool" where
  "less_eq_LayerId a b \<longleftrightarrow> layer_entity_id a \<le> layer_entity_id b"

definition less_LayerId :: "LayerId \<Rightarrow> LayerId \<Rightarrow> bool" where
  "less_LayerId a b \<longleftrightarrow> layer_entity_id a < layer_entity_id b"

instance
proof
  fix a b :: LayerId
  show "a \<le> b \<Longrightarrow> b \<le> a \<Longrightarrow> a = b"
    by (cases a; cases b) (simp add: less_eq_LayerId_def)
qed (auto simp: less_eq_LayerId_def less_LayerId_def)

end

datatype StrokeLifecycle = Active | Completed | Cancelled | Removed

datatype CanvasError =
    InvalidPayload string
  | InvalidCoordinate string
  | InvalidCanvasSpace string
  | InvalidStyle string
  | EmptyLayerSet
  | DefaultLayerNotFound LayerId
  | StrokeNotFound StrokeId
  | StrokeAlreadyExists StrokeId
  | InvalidStrokeState StrokeLifecycle StrokeLifecycle
  | InvalidChunkIndex string u64
  | ChunkConflict StrokeId u64
  | MissingChunk StrokeId u64 u64
  | InvalidPointCount nat nat

record CanvasPoint =
  pt_x :: f64
  pt_y :: f64

definition CanvasPoint_new :: "f64 \<Rightarrow> f64 \<Rightarrow> (CanvasError, CanvasPoint) result" where
  "CanvasPoint_new x y =
     (if \<not> f64_is_finite x then Inl (InvalidCoordinate ''x'')
      else if \<not> f64_is_finite y then Inl (InvalidCoordinate ''y'')
      else Inr \<lparr>pt_x = x, pt_y = y\<rparr>)"

definition point_eq :: "CanvasPoint \<Rightarrow> CanvasPoint \<Rightarrow> bool" where
  "point_eq p q \<longleftrightarrow> f64_eq (pt_x p) (pt_x q) \<and> f64_eq (pt_y p) (pt_y q)"

definition points_eq :: "CanvasPoint list \<Rightarrow> CanvasPoint list \<Rightarrow> bool" where
  "points_eq ps qs \<longleftrightarrow> list_all2 point_eq ps qs"

record CanvasSpace =
  sp_width :: f64
  sp_height :: f64

definition CanvasSpace_new :: "f64 \<Rightarrow> f64 \<Rightarrow> (CanvasError, CanvasSpace) result" where
  "CanvasSpace_new w h =
     (if \<not> f64_is_finite w \<or> f64_le w 0 then Inl (InvalidCanvasSpace ''width'')
      else if \<not> f64_is_finite h \<or> f64_le h 0 then Inl (InvalidCanvasSpace ''height'')
      else Inr \<lparr>sp_width = w, sp_height = h\<rparr>)"

definition space_contains :: "CanvasSpace \<Rightarrow> CanvasPoint \<Rightarrow> bool" where
  "space_contains s p \<longleftrightarrow>
     f64_le 0 (pt_x p) \<and> f64_le (pt_x p) (sp_width s) \<and> f64_le 0 (pt_y p) \<and> f64_le (pt_y p) (sp_height s)"

definition validate_point :: "CanvasSpace \<Rightarrow> CanvasPoint \<Rightarrow> (CanvasError, unit) result" where
  "validate_point s p =
     (if f64_lt (pt_x p) 0 \<or> f64_lt (sp_width s) (pt_x p) then Inl (InvalidCoordinate ''x'')
      else if f64_lt (pt_y p) 0 \<or> f64_lt (sp_height s) (pt_y p) then Inl (InvalidCoordinate ''y'')
      else Inr ())"

record RgbaColor =
  red :: u8
  green :: u8
  blue :: u8
  alpha :: u8

datatype StrokeTool = Pen

record StrokeStyle =
  style_width :: f64
  style_color :: RgbaColor

definition StrokeStyle_new :: "f64 \<Rightarrow> RgbaColor \<Rightarrow> (CanvasError, StrokeStyle) result" where
  "StrokeStyle_new w c =
     (if \<not> f64_is_finite w \<or> f64_le w 0 then Inl (InvalidStyle ''width'')
      else Inr \<lparr>style_width = w, style_color = c\<rparr>)"

definition style_eq :: "StrokeStyle \<Rightarrow> StrokeStyle \<Rightarrow> bool" where
  "style_eq s t \<longleftrightarrow> f64_eq (style_width s) (style_width t) \<and> style_color s = style_color t"


section \<open>Descriptor and lifecycle\<close>

record CanvasDescriptor =
  cd_canvas_id :: CanvasId
  cd_session_id :: SessionId
  cd_space :: CanvasSpace
  cd_layer_ids :: "LayerId btree_set"
  cd_default_layer_id :: LayerId

definition CanvasDescriptor_new ::
  "CanvasId \<Rightarrow> SessionId \<Rightarrow> CanvasSpace \<Rightarrow> LayerId list \<Rightarrow> LayerId \<Rightarrow> (CanvasError, CanvasDescriptor) result"
where
  "CanvasDescriptor_new c s sp ls d =
     (let layers = btree_set_of ls in
      if layers = [] then Inl EmptyLayerSet
      else if d \<notin> set layers then Inl (DefaultLayerNotFound d)
      else Inr \<lparr>cd_canvas_id = c, cd_session_id = s, cd_space = sp, cd_layer_ids = layers,
                cd_default_layer_id = d\<rparr>)"

definition contains_layer :: "CanvasDescriptor \<Rightarrow> LayerId \<Rightarrow> bool" where
  "contains_layer d l \<longleftrightarrow> l \<in> set (cd_layer_ids d)"

fun can_transition_to :: "StrokeLifecycle \<Rightarrow> StrokeLifecycle \<Rightarrow> bool" where
  "can_transition_to Active Completed = True"
| "can_transition_to Active Cancelled = True"
| "can_transition_to Completed Removed = True"
| "can_transition_to _ _ = False"

definition transition_to :: "StrokeLifecycle \<Rightarrow> StrokeLifecycle \<Rightarrow> (CanvasError, StrokeLifecycle) result" where
  "transition_to s t = (if can_transition_to s t then Inr t else Inl (InvalidStrokeState s t))"


section \<open>Payloads\<close>

definition MAX_POINTS_PER_CHUNK :: nat where
  "MAX_POINTS_PER_CHUNK = 256"

record StrokeBeginPayload =
  sb_canvas_id :: CanvasId
  sb_layer_id :: LayerId
  sb_stroke_id :: StrokeId
  sb_tool :: StrokeTool
  sb_style :: StrokeStyle
  sb_chunk_index :: u64
  sb_points :: "CanvasPoint list"

record StrokeAppendPayload =
  sa_canvas_id :: CanvasId
  sa_stroke_id :: StrokeId
  sa_chunk_index :: u64
  sa_points :: "CanvasPoint list"

record StrokeEndPayload =
  se_canvas_id :: CanvasId
  se_stroke_id :: StrokeId
  se_final_chunk_index :: u64

record StrokeCancelPayload =
  sc_canvas_id :: CanvasId
  sc_stroke_id :: StrokeId
  sc_final_chunk_index :: u64

record StrokeRemovePayload =
  sr_canvas_id :: CanvasId
  sr_stroke_id :: StrokeId

definition validate_begin_chunk_index :: "u64 \<Rightarrow> (CanvasError, unit) result" where
  "validate_begin_chunk_index i = (if i = 0 then Inr () else Inl (InvalidChunkIndex ''begin'' i))"

definition validate_append_chunk_index :: "u64 \<Rightarrow> (CanvasError, unit) result" where
  "validate_append_chunk_index i = (if 1 \<le> i then Inr () else Inl (InvalidChunkIndex ''append'' i))"

definition validate_point_count :: "CanvasPoint list \<Rightarrow> (CanvasError, unit) result" where
  "validate_point_count ps =
     (if 1 \<le> length ps \<and> length ps \<le> MAX_POINTS_PER_CHUNK then Inr ()
      else Inl (InvalidPointCount (length ps) MAX_POINTS_PER_CHUNK))"

definition begin_validate :: "StrokeBeginPayload \<Rightarrow> (CanvasError, unit) result" where
  "begin_validate p = rbind (validate_begin_chunk_index (sb_chunk_index p)) (\<lambda>_. validate_point_count (sb_points p))"

definition append_validate :: "StrokeAppendPayload \<Rightarrow> (CanvasError, unit) result" where
  "append_validate p = rbind (validate_append_chunk_index (sa_chunk_index p)) (\<lambda>_. validate_point_count (sa_points p))"

definition end_validate :: "StrokeEndPayload \<Rightarrow> (CanvasError, unit) result" where
  "end_validate p = Inr ()"

definition cancel_validate :: "StrokeCancelPayload \<Rightarrow> (CanvasError, unit) result" where
  "cancel_validate p = Inr ()"

definition remove_validate :: "StrokeRemovePayload \<Rightarrow> (CanvasError, unit) result" where
  "remove_validate p = Inr ()"

definition StrokeBeginPayload_new ::
  "CanvasId \<Rightarrow> LayerId \<Rightarrow> StrokeId \<Rightarrow> StrokeTool \<Rightarrow> StrokeStyle \<Rightarrow> u64 \<Rightarrow> CanvasPoint list
     \<Rightarrow> (CanvasError, StrokeBeginPayload) result" where
  "StrokeBeginPayload_new c l s t st i ps =
     (let p = \<lparr>sb_canvas_id = c, sb_layer_id = l, sb_stroke_id = s, sb_tool = t, sb_style = st,
               sb_chunk_index = i, sb_points = ps\<rparr>
      in rbind (begin_validate p) (\<lambda>_. Inr p))"

definition StrokeAppendPayload_new ::
  "CanvasId \<Rightarrow> StrokeId \<Rightarrow> u64 \<Rightarrow> CanvasPoint list \<Rightarrow> (CanvasError, StrokeAppendPayload) result" where
  "StrokeAppendPayload_new c s i ps =
     (let p = \<lparr>sa_canvas_id = c, sa_stroke_id = s, sa_chunk_index = i, sa_points = ps\<rparr>
      in rbind (append_validate p) (\<lambda>_. Inr p))"

record 'a serde =
  to_value :: "'a \<Rightarrow> json option"
  from_value :: "json \<Rightarrow> 'a option"

definition decode_payload ::
  "'a serde \<Rightarrow> Payload serde \<Rightarrow> ('a \<Rightarrow> (CanvasError, unit) result) \<Rightarrow> Payload \<Rightarrow> (CanvasError, 'a) result" where
  "decode_payload S P validate payload =
     rbind (ok_or (to_value P payload) (InvalidPayload ''decode failed'')) (\<lambda>v.
     rbind (ok_or (from_value S v) (InvalidPayload ''schema mismatch'')) (\<lambda>decoded.
     rbind (validate decoded) (\<lambda>_. Inr decoded)))"

definition encode_payload ::
  "'a serde \<Rightarrow> Payload serde \<Rightarrow> ('a \<Rightarrow> (CanvasError, unit) result) \<Rightarrow> 'a \<Rightarrow> (CanvasError, Payload) result" where
  "encode_payload S P validate x =
     rbind (validate x) (\<lambda>_.
     rbind (ok_or (to_value S x) (InvalidPayload ''encode failed'')) (\<lambda>v.
     ok_or (from_value P v) (InvalidPayload ''top level must be an object'')))"

record canvas_serde =
  cs_payload :: "Payload serde"
  cs_begin :: "StrokeBeginPayload serde"
  cs_append :: "StrokeAppendPayload serde"
  cs_end :: "StrokeEndPayload serde"
  cs_cancel :: "StrokeCancelPayload serde"
  cs_remove :: "StrokeRemovePayload serde"

abbreviation "decode_begin S \<equiv> decode_payload (cs_begin S) (cs_payload S) begin_validate"
abbreviation "decode_append S \<equiv> decode_payload (cs_append S) (cs_payload S) append_validate"
abbreviation "decode_end S \<equiv> decode_payload (cs_end S) (cs_payload S) end_validate"
abbreviation "decode_cancel S \<equiv> decode_payload (cs_cancel S) (cs_payload S) cancel_validate"
abbreviation "decode_remove S \<equiv> decode_payload (cs_remove S) (cs_payload S) remove_validate"

abbreviation "encode_begin S \<equiv> encode_payload (cs_begin S) (cs_payload S) begin_validate"
abbreviation "encode_append S \<equiv> encode_payload (cs_append S) (cs_payload S) append_validate"
abbreviation "encode_end S \<equiv> encode_payload (cs_end S) (cs_payload S) end_validate"
abbreviation "encode_cancel S \<equiv> encode_payload (cs_cancel S) (cs_payload S) cancel_validate"
abbreviation "encode_remove S \<equiv> encode_payload (cs_remove S) (cs_payload S) remove_validate"


section \<open>Lemmas\<close>

lemma validate_point_contains:
  "f64_is_finite (pt_x p) \<Longrightarrow> f64_is_finite (pt_y p) \<Longrightarrow> f64_is_finite (sp_width s) \<Longrightarrow>
   f64_is_finite (sp_height s) \<Longrightarrow> validate_point s p = Inr () \<longleftrightarrow> space_contains s p"
  by (auto simp: validate_point_def space_contains_def f64_not_lt [symmetric])

lemma points_eq_refl: "\<forall>p \<in> set ps. f64_is_finite (pt_x p) \<and> f64_is_finite (pt_y p) \<Longrightarrow> points_eq ps ps"
  by (auto simp: points_eq_def point_eq_def list_all2_conv_all_nth)

lemma begin_validate_ok:
  "begin_validate p = Inr () \<longleftrightarrow> sb_chunk_index p = 0 \<and> 1 \<le> length (sb_points p) \<and> length (sb_points p) \<le> 256"
  by (auto simp: begin_validate_def validate_begin_chunk_index_def validate_point_count_def
      MAX_POINTS_PER_CHUNK_def)

lemma append_validate_ok:
  "append_validate p = Inr () \<longleftrightarrow> 1 \<le> sa_chunk_index p \<and> 1 \<le> length (sa_points p) \<and> length (sa_points p) \<le> 256"
  by (auto simp: append_validate_def validate_append_chunk_index_def validate_point_count_def
      MAX_POINTS_PER_CHUNK_def)

text \<open>What the conversions rely on for one value: its JSON form is an object that is read back as the
  same value.\<close>

definition survives :: "'a serde \<Rightarrow> Payload serde \<Rightarrow> 'a \<Rightarrow> bool" where
  "survives S P x \<longleftrightarrow>
     (case to_value S x of None \<Rightarrow> False
      | Some v \<Rightarrow> (case from_value P v of None \<Rightarrow> False
         | Some p \<Rightarrow> (case to_value P p of None \<Rightarrow> False
            | Some v' \<Rightarrow> from_value S v' = Some x)))"

lemma decode_payload_ok:
  "decode_payload S P validate p = Inr x \<longleftrightarrow>
     (\<exists>v. to_value P p = Some v \<and> from_value S v = Some x) \<and> validate x = Inr ()"
  by (auto simp: decode_payload_def result_simps)

lemma encode_decode:
  "survives S P x \<Longrightarrow> encode_payload S P validate x = Inr p \<Longrightarrow> decode_payload S P validate p = Inr x"
  by (auto simp: survives_def encode_payload_def decode_payload_ok result_simps split: option.splits)

lemma encode_succeeds:
  "survives S P x \<Longrightarrow> validate x = Inr () \<Longrightarrow> \<exists>p. encode_payload S P validate x = Inr p"
  by (auto simp: survives_def encode_payload_def split: option.splits)

end
