(* ===== verification/Canvas_Projection.thy ===== *)
theory Canvas_Projection
  imports Canvas_Model
begin

text \<open>
  Canvas events and the stroke projector of \<open>orbitrelay-canvas\<close>: \<open>CanvasEventKind\<close>,
  \<open>CanvasEventData\<close>, \<open>StrokeChunk\<close>, \<open>StrokeProjection\<close> and \<open>StrokeProjector::apply\<close>. The \<open>expect\<close> in
  \<open>last_chunk_index\<close> is a panic of the model (\<open>None\<close>), so that its unreachability is a theorem. The
  fields of a projection are private to the crate and \<open>apply\<close> is its only constructor: the values of
  the type are those of the inductive predicate \<open>projected\<close>.
\<close>

section \<open>Events\<close>

definition STROKE_BEGAN_EVENT_TYPE :: string where
  "STROKE_BEGAN_EVENT_TYPE = ''canvas.stroke.began''"
definition STROKE_POINTS_APPENDED_EVENT_TYPE :: string where
  "STROKE_POINTS_APPENDED_EVENT_TYPE = ''canvas.stroke.points_appended''"
definition STROKE_COMPLETED_EVENT_TYPE :: string where
  "STROKE_COMPLETED_EVENT_TYPE = ''canvas.stroke.completed''"
definition STROKE_CANCELLED_EVENT_TYPE :: string where
  "STROKE_CANCELLED_EVENT_TYPE = ''canvas.stroke.cancelled''"
definition STROKE_REMOVED_EVENT_TYPE :: string where
  "STROKE_REMOVED_EVENT_TYPE = ''canvas.stroke.removed''"

lemmas event_type_names = STROKE_BEGAN_EVENT_TYPE_def STROKE_POINTS_APPENDED_EVENT_TYPE_def
  STROKE_COMPLETED_EVENT_TYPE_def STROKE_CANCELLED_EVENT_TYPE_def STROKE_REMOVED_EVENT_TYPE_def

datatype CanvasEventKind =
  StrokeBegan | StrokePointsAppended | StrokeCompleted | StrokeCancelled | StrokeRemoved

definition kind_from_event_type :: "EventType \<Rightarrow> CanvasEventKind option" where
  "kind_from_event_type t =
     (let s = event_type_str t in
      if s = STROKE_BEGAN_EVENT_TYPE then Some StrokeBegan
      else if s = STROKE_POINTS_APPENDED_EVENT_TYPE then Some StrokePointsAppended
      else if s = STROKE_COMPLETED_EVENT_TYPE then Some StrokeCompleted
      else if s = STROKE_CANCELLED_EVENT_TYPE then Some StrokeCancelled
      else if s = STROKE_REMOVED_EVENT_TYPE then Some StrokeRemoved
      else None)"

definition is_canvas_event_type :: "EventType \<Rightarrow> bool" where
  "is_canvas_event_type t \<longleftrightarrow> kind_from_event_type t \<noteq> None"

datatype CanvasProjectionError =
    UnexpectedEvent EventType
  | InvalidEventPayload EventType CanvasError
  | ProjectionAlreadyExists StrokeId
  | ProjectionMissing EventType
  | SessionMismatch SessionId SessionId
  | CanvasMismatch CanvasId CanvasId
  | StrokeMismatch StrokeId StrokeId
  | InvalidHistoryState StrokeId StrokeLifecycle EventType
  | InvalidHistoryChunk StrokeId u64 u64
  | ChunkIndexOverflow StrokeId

datatype CanvasEventData =
    BeganData StrokeBeginPayload
  | PointsAppendedData StrokeAppendPayload
  | CompletedData StrokeEndPayload
  | CancelledData StrokeCancelPayload
  | RemovedData StrokeRemovePayload

primrec event_data_kind :: "CanvasEventData \<Rightarrow> CanvasEventKind" where
  "event_data_kind (BeganData p) = StrokeBegan"
| "event_data_kind (PointsAppendedData p) = StrokePointsAppended"
| "event_data_kind (CompletedData p) = StrokeCompleted"
| "event_data_kind (CancelledData p) = StrokeCancelled"
| "event_data_kind (RemovedData p) = StrokeRemoved"

definition event_data_of :: "canvas_serde \<Rightarrow> Event \<Rightarrow> (CanvasProjectionError, CanvasEventData) result" where
  "event_data_of S e =
     rbind (ok_or (kind_from_event_type (ev_event_type e)) (UnexpectedEvent (ev_event_type e))) (\<lambda>kind.
     map_err (InvalidEventPayload (ev_event_type e))
       (case kind of
          StrokeBegan \<Rightarrow> rbind (decode_begin S (ev_payload e)) (\<lambda>p. Inr (BeganData p))
        | StrokePointsAppended \<Rightarrow> rbind (decode_append S (ev_payload e)) (\<lambda>p. Inr (PointsAppendedData p))
        | StrokeCompleted \<Rightarrow> rbind (decode_end S (ev_payload e)) (\<lambda>p. Inr (CompletedData p))
        | StrokeCancelled \<Rightarrow> rbind (decode_cancel S (ev_payload e)) (\<lambda>p. Inr (CancelledData p))
        | StrokeRemoved \<Rightarrow> rbind (decode_remove S (ev_payload e)) (\<lambda>p. Inr (RemovedData p))))"


section \<open>Chunks and projections\<close>

record StrokeChunk =
  ck_index :: u64
  ck_points :: "CanvasPoint list"

definition StrokeChunk_new :: "u64 \<Rightarrow> CanvasPoint list \<Rightarrow> (CanvasError, StrokeChunk) result" where
  "StrokeChunk_new i ps =
     (if \<not> (1 \<le> length ps \<and> length ps \<le> MAX_POINTS_PER_CHUNK)
      then Inl (InvalidPointCount (length ps) MAX_POINTS_PER_CHUNK)
      else Inr \<lparr>ck_index = i, ck_points = ps\<rparr>)"

record StrokeProjection =
  sj_stroke_id :: StrokeId
  sj_canvas_id :: CanvasId
  sj_layer_id :: LayerId
  sj_session_id :: SessionId
  sj_creator_actor_id :: ActorId
  sj_tool :: StrokeTool
  sj_style :: StrokeStyle
  sj_chunks :: "StrokeChunk list"
  sj_lifecycle :: StrokeLifecycle
  sj_created_at :: Timestamp

definition projection_chunk :: "StrokeProjection \<Rightarrow> u64 \<Rightarrow> StrokeChunk option" where
  "projection_chunk p i =
     (if unat i < length (sj_chunks p) \<and> ck_index (sj_chunks p ! unat i) = i
      then Some (sj_chunks p ! unat i) else None)"

definition last_chunk_index :: "StrokeProjection \<Rightarrow> u64 option" where
  "last_chunk_index p = (if sj_chunks p = [] then None else Some (ck_index (last (sj_chunks p))))"

definition next_chunk_index :: "StrokeProjection \<Rightarrow> u64 option option" where
  "next_chunk_index p = map_option (\<lambda>i. checked_add i 1) (last_chunk_index p)"


section \<open>The projector\<close>

definition require_projection ::
  "StrokeProjection option \<Rightarrow> EventType \<Rightarrow> (CanvasProjectionError, StrokeProjection) result" where
  "require_projection p t = ok_or p (ProjectionMissing t)"

definition validate_identity ::
  "StrokeProjection \<Rightarrow> Event \<Rightarrow> CanvasId \<Rightarrow> StrokeId \<Rightarrow> (CanvasProjectionError, unit) result" where
  "validate_identity p e c s =
     (if ev_session_id e \<noteq> sj_session_id p then Inl (SessionMismatch (sj_session_id p) (ev_session_id e))
      else if c \<noteq> sj_canvas_id p then Inl (CanvasMismatch (sj_canvas_id p) c)
      else if s \<noteq> sj_stroke_id p then Inl (StrokeMismatch (sj_stroke_id p) s)
      else Inr ())"

definition require_lifecycle ::
  "StrokeProjection \<Rightarrow> StrokeLifecycle \<Rightarrow> EventType \<Rightarrow> (CanvasProjectionError, unit) result" where
  "require_lifecycle p l t =
     (if sj_lifecycle p = l then Inr ()
      else Inl (InvalidHistoryState (sj_stroke_id p) (sj_lifecycle p) t))"

definition apply_terminal ::
  "StrokeProjection option \<Rightarrow> Event \<Rightarrow> CanvasId \<Rightarrow> StrokeId \<Rightarrow> u64 \<Rightarrow> StrokeLifecycle
     \<Rightarrow> (CanvasProjectionError, StrokeProjection) result option" where
  "apply_terminal po e c s final target =
     obind (Some (require_projection po (ev_event_type e))) (\<lambda>p.
     obind (Some (validate_identity p e c s)) (\<lambda>_.
     obind (Some (require_lifecycle p Active (ev_event_type e))) (\<lambda>_.
     (case last_chunk_index p of
        None \<Rightarrow> None
      | Some expected \<Rightarrow>
          Some (if final \<noteq> expected then Inl (InvalidHistoryChunk (sj_stroke_id p) expected final)
                else Inr (p\<lparr>sj_lifecycle := target\<rparr>))))))"

definition apply_event ::
  "canvas_serde \<Rightarrow> StrokeProjection option \<Rightarrow> Event \<Rightarrow> (CanvasProjectionError, StrokeProjection) result option"
where
  "apply_event S po e =
     obind (Some (event_data_of S e)) (\<lambda>data.
     case data of
       BeganData b \<Rightarrow>
         (case po of
            Some existing \<Rightarrow> Some (Inl (ProjectionAlreadyExists (sj_stroke_id existing)))
          | None \<Rightarrow>
              obind (Some (map_err (InvalidEventPayload (ev_event_type e))
                             (StrokeChunk_new (sb_chunk_index b) (sb_points b)))) (\<lambda>chunk.
              Some (Inr \<lparr>sj_stroke_id = sb_stroke_id b, sj_canvas_id = sb_canvas_id b,
                         sj_layer_id = sb_layer_id b, sj_session_id = ev_session_id e,
                         sj_creator_actor_id = ev_actor_id e, sj_tool = sb_tool b,
                         sj_style = sb_style b, sj_chunks = [chunk], sj_lifecycle = Active,
                         sj_created_at = ev_occurred_at e\<rparr>)))
     | PointsAppendedData a \<Rightarrow>
         obind (Some (require_projection po (ev_event_type e))) (\<lambda>p.
         obind (Some (validate_identity p e (sa_canvas_id a) (sa_stroke_id a))) (\<lambda>_.
         obind (Some (require_lifecycle p Active (ev_event_type e))) (\<lambda>_.
         obind (map_option (\<lambda>n. ok_or n (ChunkIndexOverflow (sj_stroke_id p))) (next_chunk_index p)) (\<lambda>expected.
         if sa_chunk_index a \<noteq> expected
         then Some (Inl (InvalidHistoryChunk (sj_stroke_id p) expected (sa_chunk_index a)))
         else
           obind (Some (map_err (InvalidEventPayload (ev_event_type e))
                          (StrokeChunk_new (sa_chunk_index a) (sa_points a)))) (\<lambda>chunk.
           Some (Inr (p\<lparr>sj_chunks := sj_chunks p @ [chunk]\<rparr>)))))))
     | CompletedData c \<Rightarrow>
         apply_terminal po e (se_canvas_id c) (se_stroke_id c) (se_final_chunk_index c) Completed
     | CancelledData c \<Rightarrow>
         apply_terminal po e (sc_canvas_id c) (sc_stroke_id c) (sc_final_chunk_index c) Cancelled
     | RemovedData r \<Rightarrow>
         obind (Some (require_projection po (ev_event_type e))) (\<lambda>p.
         obind (Some (validate_identity p e (sr_canvas_id r) (sr_stroke_id r))) (\<lambda>_.
         obind (Some (require_lifecycle p Completed (ev_event_type e))) (\<lambda>_.
         Some (Inr (p\<lparr>sj_lifecycle := Removed\<rparr>))))))"

inductive projected :: "canvas_serde \<Rightarrow> Event list \<Rightarrow> StrokeProjection \<Rightarrow> bool" for S where
  first: "apply_event S None e = Some (Inr p) \<Longrightarrow> projected S [e] p"
| more: "projected S h p \<Longrightarrow> apply_event S (Some p) e = Some (Inr p') \<Longrightarrow> projected S (h @ [e]) p'"

lemmas projector_defs = require_projection_def validate_identity_def require_lifecycle_def
  apply_terminal_def StrokeChunk_new_def MAX_POINTS_PER_CHUNK_def


section \<open>Lemmas\<close>

definition stroke_inv :: "StrokeProjection \<Rightarrow> bool" where
  "stroke_inv p \<longleftrightarrow> sj_chunks p \<noteq> [] \<and> length (sj_chunks p) \<le> 2 ^ 64
     \<and> (\<forall>i < length (sj_chunks p). unat (ck_index (sj_chunks p ! i)) = i
          \<and> 1 \<le> length (ck_points (sj_chunks p ! i)) \<and> length (ck_points (sj_chunks p ! i)) \<le> 256)"

lemma last_chunk_index_inv:
  "stroke_inv p \<Longrightarrow> \<exists>i. last_chunk_index p = Some i \<and> unat i = length (sj_chunks p) - 1"
  by (auto simp: stroke_inv_def last_chunk_index_def last_conv_nth)

lemma next_chunk_index_inv:
  "stroke_inv p \<Longrightarrow> \<exists>n. next_chunk_index p = Some n
     \<and> (\<forall>i. n = Some i \<longrightarrow> unat i = length (sj_chunks p) \<and> length (sj_chunks p) < 2 ^ 64)"
proof -
  assume inv: "stroke_inv p"
  then obtain l where l: "last_chunk_index p = Some l" "unat l = length (sj_chunks p) - 1"
    using last_chunk_index_inv by blast
  have "unat i = length (sj_chunks p) \<and> length (sj_chunks p) < 2 ^ 64" if "checked_add l 1 = Some i" for i
  proof -
    have "unat i = length (sj_chunks p)"
      using checked_add_unat [OF that] l(2) inv by (simp add: stroke_inv_def)
    moreover have "unat i < 2 ^ 64" using unsigned_less [of i, where ?'a = nat] by simp
    ultimately show ?thesis by simp
  qed
  with l show ?thesis by (auto simp: next_chunk_index_def)
qed

lemma projection_chunk_inv:
  "stroke_inv p \<Longrightarrow> projection_chunk p i =
     (if unat i < length (sj_chunks p) then Some (sj_chunks p ! unat i) else None)"
  by (auto simp: projection_chunk_def stroke_inv_def word_unat_eq_iff)

lemma stroke_inv_snoc:
  assumes "stroke_inv p" "unat i = length (sj_chunks p)" "length (sj_chunks p) < 2 ^ 64"
    "1 \<le> length ps" "length ps \<le> 256"
  shows "stroke_inv (p\<lparr>sj_chunks := sj_chunks p @ [\<lparr>ck_index = i, ck_points = ps\<rparr>]\<rparr>)"
  using assms by (auto simp: stroke_inv_def nth_append less_Suc_eq)

lemma stroke_inv_lifecycle [simp]: "stroke_inv (p\<lparr>sj_lifecycle := l\<rparr>) = stroke_inv p"
  by (simp add: stroke_inv_def)

text \<open>The possible effects of an accepted event.\<close>

definition began :: "canvas_serde \<Rightarrow> Event \<Rightarrow> StrokeBeginPayload \<Rightarrow> StrokeProjection \<Rightarrow> bool" where
  "began S e b p \<longleftrightarrow> event_data_of S e = Inr (BeganData b)
     \<and> p = \<lparr>sj_stroke_id = sb_stroke_id b, sj_canvas_id = sb_canvas_id b, sj_layer_id = sb_layer_id b,
           sj_session_id = ev_session_id e, sj_creator_actor_id = ev_actor_id e, sj_tool = sb_tool b,
           sj_style = sb_style b, sj_chunks = [\<lparr>ck_index = sb_chunk_index b, ck_points = sb_points b\<rparr>],
           sj_lifecycle = Active, sj_created_at = ev_occurred_at e\<rparr>"

lemma apply_event_None:
  "apply_event S None e = Some (Inr p) \<longleftrightarrow>
     (\<exists>b. began S e b p \<and> 1 \<le> length (sb_points b) \<and> length (sb_points b) \<le> 256)"
proof (cases "event_data_of S e")
  case (Inr d)
  then show ?thesis
    by (cases d) (auto simp: apply_event_def began_def projector_defs result_simps)
qed (simp add: apply_event_def began_def)

lemma event_data_began_valid:
  "event_data_of S e = Inr (BeganData b) \<Longrightarrow> begin_validate b = Inr ()"
  by (cases "kind_from_event_type (ev_event_type e)")
    (auto simp: event_data_of_def decode_payload_ok result_simps split: CanvasEventKind.splits
      intro: CanvasEventKind.exhaust)

lemma event_data_appended_valid:
  "event_data_of S e = Inr (PointsAppendedData a) \<Longrightarrow> append_validate a = Inr ()"
  by (cases "kind_from_event_type (ev_event_type e)")
    (auto simp: event_data_of_def decode_payload_ok result_simps split: CanvasEventKind.splits
      intro: CanvasEventKind.exhaust)

lemma apply_event_Some:
  assumes "apply_event S (Some p) e = Some (Inr p')"
  obtains (appended) a i where "event_data_of S e = Inr (PointsAppendedData a)"
      "sj_lifecycle p = Active" "next_chunk_index p = Some (Some i)" "sa_chunk_index a = i"
      "1 \<le> length (sa_points a)" "length (sa_points a) \<le> 256"
      "p' = p\<lparr>sj_chunks := sj_chunks p @ [\<lparr>ck_index = i, ck_points = sa_points a\<rparr>]\<rparr>"
    | (completed) c where "event_data_of S e = Inr (CompletedData c)" "sj_lifecycle p = Active"
      "p' = p\<lparr>sj_lifecycle := Completed\<rparr>"
    | (cancelled) c where "event_data_of S e = Inr (CancelledData c)" "sj_lifecycle p = Active"
      "p' = p\<lparr>sj_lifecycle := Cancelled\<rparr>"
    | (removed) r where "event_data_of S e = Inr (RemovedData r)" "sj_lifecycle p = Completed"
      "p' = p\<lparr>sj_lifecycle := Removed\<rparr>"
proof (cases "event_data_of S e")
  case (Inl x)
  with assms show thesis by (simp add: apply_event_def)
next
  case data: (Inr d)
  show thesis
  proof (cases d)
    case (BeganData b)
    with assms data show thesis by (simp add: apply_event_def)
  next
    case (PointsAppendedData a)
    with assms data show thesis
      by (intro appended [of a "sa_chunk_index a"])
        (auto simp: apply_event_def projector_defs result_simps split: if_splits)
  next
    case (CompletedData c)
    with assms data show thesis
      by (intro completed [of c])
        (auto simp: apply_event_def projector_defs result_simps split: if_splits option.splits)
  next
    case (CancelledData c)
    with assms data show thesis
      by (intro cancelled [of c])
        (auto simp: apply_event_def projector_defs result_simps split: if_splits option.splits)
  next
    case (RemovedData r)
    with assms data show thesis
      by (intro removed [of r])
        (auto simp: apply_event_def projector_defs result_simps split: if_splits)
  qed
qed

lemma stroke_inv_first [model_inv]: "apply_event S None e = Some (Inr p) \<Longrightarrow> stroke_inv p"
  using event_data_began_valid
  by (fastforce simp: apply_event_None began_def stroke_inv_def begin_validate_ok)

lemma stroke_inv_more [model_inv]:
  assumes "stroke_inv p" "apply_event S (Some p) e = Some (Inr p')"
  shows "stroke_inv p'"
  using assms(2)
proof (cases rule: apply_event_Some)
  case (appended a i)
  with next_chunk_index_inv [OF assms(1)] show ?thesis
    by (auto intro!: stroke_inv_snoc [OF assms(1)])
qed (use assms(1) in auto)

lemma stroke_inv_projected [model_inv]: "projected S h p \<Longrightarrow> stroke_inv p"
  by (induction rule: projected.induct) (auto intro: stroke_inv_first stroke_inv_more)

lemma apply_event_no_panic: "(\<And>p. po = Some p \<Longrightarrow> stroke_inv p) \<Longrightarrow> apply_event S po e \<noteq> None"
proof (cases po)
  case None
  then show ?thesis
    by (auto simp: apply_event_def projector_defs result_simps split: CanvasEventData.splits)
next
  case (Some p)
  assume "\<And>p. po = Some p \<Longrightarrow> stroke_inv p"
  with Some obtain l n where "last_chunk_index p = Some l" "next_chunk_index p = Some n"
    using last_chunk_index_inv next_chunk_index_inv by blast
  with Some show ?thesis
    by (cases n) (auto simp: apply_event_def projector_defs result_simps split: CanvasEventData.splits if_splits)
qed


text \<open>The kinds of an accepted history are those of a run of the lifecycle, and its points are the
  points of the events that carry some.\<close>

primrec lifecycle_tail :: "StrokeLifecycle \<Rightarrow> CanvasEventKind list" where
  "lifecycle_tail Active = []"
| "lifecycle_tail Completed = [StrokeCompleted]"
| "lifecycle_tail Cancelled = [StrokeCancelled]"
| "lifecycle_tail Removed = [StrokeCompleted, StrokeRemoved]"

definition event_points :: "canvas_serde \<Rightarrow> Event \<Rightarrow> CanvasPoint list" where
  "event_points S e = (case event_data_of S e of
     Inr (BeganData b) \<Rightarrow> sb_points b
   | Inr (PointsAppendedData a) \<Rightarrow> sa_points a
   | _ \<Rightarrow> [])"

definition history_shape :: "canvas_serde \<Rightarrow> Event list \<Rightarrow> StrokeProjection \<Rightarrow> bool" where
  "history_shape S h p \<longleftrightarrow>
     map (\<lambda>e. map_err (\<lambda>_. ()) (rbind (event_data_of S e) (\<lambda>d. Inr (event_data_kind d)))) h
       = map Inr (StrokeBegan # replicate (length (sj_chunks p) - 1) StrokePointsAppended
                  @ lifecycle_tail (sj_lifecycle p))
     \<and> map ck_points (sj_chunks p) = map (event_points S) (take (length (sj_chunks p)) h)"

lemma history_shape_first: "apply_event S None e = Some (Inr p) \<Longrightarrow> history_shape S [e] p"
  by (auto simp: apply_event_None began_def history_shape_def event_points_def)

lemma history_shape_length:
  "history_shape S h p \<Longrightarrow> stroke_inv p \<Longrightarrow>
     length h = length (sj_chunks p) + length (lifecycle_tail (sj_lifecycle p))"
  by (drule arg_cong [where f = length, OF conjunct1 [OF history_shape_def [THEN iffD1]]])
    (cases "sj_chunks p"; simp add: stroke_inv_def)

lemma history_shape_more:
  assumes shape: "history_shape S h p" and inv: "stroke_inv p"
    and step: "apply_event S (Some p) e = Some (Inr p')"
  shows "history_shape S (h @ [e]) p'"
proof -
  have ne: "sj_chunks p \<noteq> []" using inv by (simp add: stroke_inv_def)
  have len: "length h = length (sj_chunks p) + length (lifecycle_tail (sj_lifecycle p))"
    by (rule history_shape_length [OF shape inv])
  show ?thesis
    using step
  proof (cases rule: apply_event_Some)
    case (appended a i)
    then have "Suc (length (sj_chunks p) - 1) = length (sj_chunks p)" using ne by (cases "sj_chunks p") auto
    then have "replicate (length (sj_chunks p)) StrokePointsAppended
        = replicate (length (sj_chunks p) - 1) StrokePointsAppended @ [StrokePointsAppended]"
      by (metis replicate_Suc replicate_append_same)
    with appended shape len show ?thesis by (simp add: history_shape_def event_points_def)
  qed (use shape len in \<open>simp_all add: history_shape_def\<close>)
qed

lemma history_shape_projected: "projected S h p \<Longrightarrow> history_shape S h p"
  by (induction rule: projected.induct)
    (auto intro: history_shape_first history_shape_more stroke_inv_projected)

fun lifecycle_rank :: "StrokeLifecycle \<Rightarrow> nat" where
  "lifecycle_rank Active = 0"
| "lifecycle_rank Completed = 1"
| "lifecycle_rank Cancelled = 1"
| "lifecycle_rank Removed = 2"

interpretation stroke: lifecycle can_transition_to lifecycle_rank
proof
  fix s t
  show "can_transition_to s t \<Longrightarrow> lifecycle_rank s < lifecycle_rank t"
    by (cases s; cases t) simp_all
qed

lemma apply_event_lifecycle:
  assumes "apply_event S (Some p) e = Some (Inr p')"
  shows "sj_lifecycle p' = sj_lifecycle p \<or> can_transition_to (sj_lifecycle p) (sj_lifecycle p')"
  using assms by (cases rule: apply_event_Some) auto

lemma projected_not_Nil: "projected S h p \<Longrightarrow> h \<noteq> []"
  by (induction rule: projected.induct) auto

lemma projected_snocE:
  assumes "projected S (h @ [e]) p'" "h \<noteq> []"
  obtains p where "projected S h p" "apply_event S (Some p) e = Some (Inr p')"
  using assms(1) by (cases rule: projected.cases) (use assms(2) that in auto)

lemma projected_unique: "projected S h p \<Longrightarrow> projected S h q \<Longrightarrow> p = q"
proof (induction arbitrary: q rule: projected.induct)
  case (first e p)
  from first.prems show ?case
    by (cases rule: projected.cases) (use first.hyps projected_not_Nil in auto)
next
  case (more h p e p')
  obtain r where "projected S h r" "apply_event S (Some r) e = Some (Inr q)"
    using projected_snocE [OF more.prems projected_not_Nil [OF more.hyps(1)]] by blast
  with more.IH [of r] more.hyps(2) show ?case by simp
qed

text \<open>What a projection may become.\<close>

definition extends :: "StrokeProjection \<Rightarrow> StrokeProjection \<Rightarrow> bool" where
  "extends p q \<longleftrightarrow>
     sj_stroke_id q = sj_stroke_id p \<and> sj_canvas_id q = sj_canvas_id p \<and> sj_layer_id q = sj_layer_id p
     \<and> sj_session_id q = sj_session_id p \<and> sj_creator_actor_id q = sj_creator_actor_id p
     \<and> sj_tool q = sj_tool p \<and> sj_style q = sj_style p \<and> sj_created_at q = sj_created_at p
     \<and> (\<exists>cs. sj_chunks q = sj_chunks p @ cs \<and> (sj_lifecycle p \<noteq> Active \<longrightarrow> cs = []))
     \<and> can_transition_to\<^sup>*\<^sup>* (sj_lifecycle p) (sj_lifecycle q)"

lemma extends_refl: "extends p p"
  by (simp add: extends_def)

lemma active_only_first: "can_transition_to\<^sup>*\<^sup>* l Active \<Longrightarrow> l = Active"
  using stroke.steps_rank [of l Active] by (cases l) auto

lemma extends_apply:
  assumes "extends p q" "apply_event S (Some q) e = Some (Inr q')"
  shows "extends p q'"
proof -
  have steps: "can_transition_to\<^sup>*\<^sup>* (sj_lifecycle p) (sj_lifecycle q')"
    using assms(1) apply_event_lifecycle [OF assms(2)]
    by (auto simp: extends_def intro: rtranclp.rtrancl_into_rtrancl)
  show ?thesis
    using assms(2)
  proof (cases rule: apply_event_Some)
    case (appended a i)
    moreover from this assms(1) have "sj_lifecycle p = Active"
      by (auto simp: extends_def dest: active_only_first)
    ultimately show ?thesis using assms(1) by (auto simp: extends_def)
  qed (use assms(1) steps in \<open>auto simp: extends_def\<close>)
qed

lemma projected_extends: "projected S h p \<Longrightarrow> projected S (h @ h') q \<Longrightarrow> extends p q"
proof (induction h' arbitrary: q rule: rev_induct)
  case Nil
  then show ?case using projected_unique by (fastforce simp: extends_refl)
next
  case (snoc e h')
  obtain r where r: "projected S (h @ h') r" "apply_event S (Some r) e = Some (Inr q)"
    using projected_snocE [of S "h @ h'" e q] snoc.prems projected_not_Nil [OF snoc.prems(1)] by auto
  from extends_apply [OF snoc.IH [OF snoc.prems(1) r(1)] r(2)] show ?case .
qed

lemma terminal_rejects:
  "sj_lifecycle p \<in> {Cancelled, Removed} \<Longrightarrow> apply_event S (Some p) e \<noteq> Some (Inr q)"
  by (auto elim: apply_event_Some)


section \<open>Sample values\<close>

text \<open>A codec that knows a finite table of values.\<close>

definition table_serde :: "('a \<times> json) list \<Rightarrow> 'a serde" where
  "table_serde t =
     \<lparr>to_value = (\<lambda>x. map_of t x), from_value = (\<lambda>v. map_of (map (\<lambda>(x, v). (v, x)) t) v)\<rparr>"

definition tagged :: "string \<Rightarrow> (string, json) btree_map" where
  "tagged s = [(''k'', JString s)]"

definition sample_begin :: StrokeBeginPayload where
  "sample_begin = \<lparr>sb_canvas_id = CanvasId (EntityId 1), sb_layer_id = LayerId (EntityId 2),
     sb_stroke_id = StrokeId (EntityId 3), sb_tool = Pen,
     sb_style = \<lparr>style_width = 0x3FF0000000000000, style_color = \<lparr>red = 0, green = 0, blue = 0, alpha = 255\<rparr>\<rparr>,
     sb_chunk_index = 0, sb_points = [\<lparr>pt_x = 0, pt_y = 0\<rparr>]\<rparr>"

definition sample_append :: StrokeAppendPayload where
  "sample_append = \<lparr>sa_canvas_id = CanvasId (EntityId 1), sa_stroke_id = StrokeId (EntityId 3),
     sa_chunk_index = 1, sa_points = [\<lparr>pt_x = 0x3FF0000000000000, pt_y = 0\<rparr>]\<rparr>"

definition sample_end :: StrokeEndPayload where
  "sample_end = \<lparr>se_canvas_id = CanvasId (EntityId 1), se_stroke_id = StrokeId (EntityId 3),
     se_final_chunk_index = 1\<rparr>"

definition sample_cancel :: StrokeCancelPayload where
  "sample_cancel = \<lparr>sc_canvas_id = CanvasId (EntityId 1), sc_stroke_id = StrokeId (EntityId 3),
     sc_final_chunk_index = 1\<rparr>"

definition sample_remove :: StrokeRemovePayload where
  "sample_remove = \<lparr>sr_canvas_id = CanvasId (EntityId 1), sr_stroke_id = StrokeId (EntityId 3)\<rparr>"

definition sample_canvas_serde :: canvas_serde where
  "sample_canvas_serde =
     \<lparr>cs_payload = \<lparr>to_value = (\<lambda>p. Some (JObject (payload_fields p))),
                    from_value = (\<lambda>v. case v of JObject m \<Rightarrow> Some (Payload m) | _ \<Rightarrow> None)\<rparr>,
      cs_begin = table_serde [(sample_begin, JObject (tagged ''b''))],
      cs_append = table_serde [(sample_append, JObject (tagged ''a''))],
      cs_end = table_serde [(sample_end, JObject (tagged ''e''))],
      cs_cancel = table_serde [(sample_cancel, JObject (tagged ''c''))],
      cs_remove = table_serde [(sample_remove, JObject (tagged ''r''))]\<rparr>"

definition canvas_event :: "string \<Rightarrow> string \<Rightarrow> Event" where
  "canvas_event t k = Event_new (EventId (EntityId 7)) (SessionId (EntityId 1)) (ActorId (EntityId 2))
     (ActionId (EntityId 9)) (EventType t) (Timestamp 5) (Payload (tagged k)) metadata_new"

definition sample_history :: "Event list" where
  "sample_history = [canvas_event STROKE_BEGAN_EVENT_TYPE ''b'',
     canvas_event STROKE_POINTS_APPENDED_EVENT_TYPE ''a'', canvas_event STROKE_COMPLETED_EVENT_TYPE ''e'']"

definition sample_stroke :: "StrokeChunk list \<Rightarrow> StrokeLifecycle \<Rightarrow> StrokeProjection" where
  "sample_stroke cs l = \<lparr>sj_stroke_id = StrokeId (EntityId 3), sj_canvas_id = CanvasId (EntityId 1),
     sj_layer_id = LayerId (EntityId 2), sj_session_id = SessionId (EntityId 1),
     sj_creator_actor_id = ActorId (EntityId 2), sj_tool = Pen, sj_style = sb_style sample_begin,
     sj_chunks = cs, sj_lifecycle = l, sj_created_at = Timestamp 5\<rparr>"

definition chunk0 :: StrokeChunk where
  "chunk0 = \<lparr>ck_index = 0, ck_points = sb_points sample_begin\<rparr>"

definition chunk1 :: StrokeChunk where
  "chunk1 = \<lparr>ck_index = 1, ck_points = sa_points sample_append\<rparr>"

lemmas sample_canvas_defs = sample_canvas_serde_def table_serde_def tagged_def canvas_event_def
  event_data_of_def kind_from_event_type_def event_type_names decode_payload_def

lemma sample_valid [simp]:
  "begin_validate sample_begin = Inr ()" "append_validate sample_append = Inr ()"
  by (simp_all add: begin_validate_ok append_validate_ok sample_begin_def sample_append_def)

lemma sample_data:
  "event_data_of sample_canvas_serde (canvas_event STROKE_BEGAN_EVENT_TYPE ''b'') = Inr (BeganData sample_begin)"
  "event_data_of sample_canvas_serde (canvas_event STROKE_POINTS_APPENDED_EVENT_TYPE ''a'') = Inr (PointsAppendedData sample_append)"
  "event_data_of sample_canvas_serde (canvas_event STROKE_COMPLETED_EVENT_TYPE ''e'') = Inr (CompletedData sample_end)"
  by (simp_all add: sample_canvas_defs end_validate_def)

lemma sample_step1:
  "apply_event sample_canvas_serde None (canvas_event STROKE_BEGAN_EVENT_TYPE ''b'')
     = Some (Inr (sample_stroke [chunk0] Active))"
  by (simp add: apply_event_def sample_data projector_defs sample_stroke_def chunk0_def)
    (simp add: sample_begin_def canvas_event_def)

lemma sample_step2:
  "apply_event sample_canvas_serde (Some (sample_stroke [chunk0] Active))
     (canvas_event STROKE_POINTS_APPENDED_EVENT_TYPE ''a'') = Some (Inr (sample_stroke [chunk0, chunk1] Active))"
  by (simp add: apply_event_def sample_data projector_defs sample_stroke_def chunk0_def chunk1_def
      next_chunk_index_def last_chunk_index_def checked_add_def)
    (simp add: sample_append_def canvas_event_def)

lemma sample_step3:
  "apply_event sample_canvas_serde (Some (sample_stroke [chunk0, chunk1] Active))
     (canvas_event STROKE_COMPLETED_EVENT_TYPE ''e'') = Some (Inr (sample_stroke [chunk0, chunk1] Completed))"
  by (simp add: apply_event_def sample_data projector_defs sample_stroke_def chunk0_def chunk1_def
      last_chunk_index_def)
    (simp add: sample_end_def canvas_event_def)

lemma sample_projected:
  "projected sample_canvas_serde (take 1 sample_history) (sample_stroke [chunk0] Active)"
  "projected sample_canvas_serde (take 1 sample_history @ drop 1 sample_history) (sample_stroke [chunk0, chunk1] Completed)"
proof -
  show first: "projected sample_canvas_serde (take 1 sample_history) (sample_stroke [chunk0] Active)"
    using projected.first [OF sample_step1] by (simp add: sample_history_def)
  show "projected sample_canvas_serde (take 1 sample_history @ drop 1 sample_history) (sample_stroke [chunk0, chunk1] Completed)"
    using projected.more [OF projected.more [OF first sample_step2] sample_step3]
    by (simp add: sample_history_def)
qed


section \<open>Properties\<close>



text \<open>C20. The chunks of every projection are indexed 0, 1, 2, ... without gap, each holds 1 to 256
  points, looking a chunk up by index succeeds exactly below the number of chunks, and the \<open>expect\<close> on
  the last chunk never fires: applying any event to any projection returns.\<close>

theorem stroke_chunks_contiguous:
  assumes "projected S h p"
  shows "sj_chunks p \<noteq> []
    \<and> (\<forall>i < length (sj_chunks p). unat (ck_index (sj_chunks p ! i)) = i
         \<and> length (ck_points (sj_chunks p ! i)) \<in> {1..256})
    \<and> (\<forall>i. projection_chunk p i = (if unat i < length (sj_chunks p) then Some (sj_chunks p ! unat i) else None))
    \<and> (\<forall>e. apply_event S (Some p) e \<noteq> None)"
  using stroke_inv_projected [OF assms] projection_chunk_inv [OF stroke_inv_projected [OF assms]]
    apply_event_no_panic [of "Some p" S]
  by (auto simp: stroke_inv_def)

theorem stroke_chunks_contiguous_witness:
  "projection_chunk (sample_stroke [chunk0, chunk1] Completed) 1 = Some chunk1
   \<and> projection_chunk (sample_stroke [chunk0, chunk1] Completed) 2 = None"
  using stroke_chunks_contiguous [OF sample_projected(2)]
  by (simp add: sample_stroke_def)

text \<open>C34. A stroke only grows: continuing a history keeps the identity, creator, layer, style and every
  recorded chunk, adds chunks only while the stroke is active, and moves the lifecycle along the
  permitted transitions; a cancelled or removed stroke has no continuation.\<close>

theorem stroke_only_grows:
  assumes "projected S h p" "projected S (h @ h') q"
  shows "sj_stroke_id q = sj_stroke_id p \<and> sj_canvas_id q = sj_canvas_id p
    \<and> sj_session_id q = sj_session_id p \<and> sj_creator_actor_id q = sj_creator_actor_id p
    \<and> sj_layer_id q = sj_layer_id p \<and> sj_tool q = sj_tool p \<and> sj_style q = sj_style p
    \<and> (\<exists>cs. sj_chunks q = sj_chunks p @ cs \<and> (sj_lifecycle p \<noteq> Active \<longrightarrow> cs = []))
    \<and> can_transition_to\<^sup>*\<^sup>* (sj_lifecycle p) (sj_lifecycle q)
    \<and> (sj_lifecycle p \<in> {Cancelled, Removed} \<longrightarrow> h' = [])"
proof -
  have "h' = []" if "sj_lifecycle p \<in> {Cancelled, Removed}"
  proof (rule ccontr)
    assume "h' \<noteq> []"
    then obtain xs e where h': "h' = xs @ [e]" by (metis rev_exhaust)
    then obtain r where r: "projected S (h @ xs) r" "apply_event S (Some r) e = Some (Inr q)"
      using projected_snocE [of S "h @ xs" e q] assms(2) projected_not_Nil [OF assms(1)] by auto
    have "can_transition_to\<^sup>*\<^sup>* (sj_lifecycle p) (sj_lifecycle r)"
      using projected_extends [OF assms(1) r(1)] by (simp add: extends_def)
    moreover have "\<not> can_transition_to (sj_lifecycle p) u" for u using that by auto
    ultimately have "sj_lifecycle r = sj_lifecycle p" using stroke.final_state by blast
    with that r(2) terminal_rejects [of r S e q] show False by simp
  qed
  with projected_extends [OF assms] show ?thesis by (auto simp: extends_def)
qed

theorem stroke_only_grows_witness:
  "\<exists>cs. sj_chunks (sample_stroke [chunk0, chunk1] Completed) = sj_chunks (sample_stroke [chunk0] Active) @ cs"
  using stroke_only_grows [OF sample_projected] by blast

end
