(* ===== verification/Runtime_Model.thy ===== *)
theory Runtime_Model
  imports Core_Model
begin

text \<open>
  \<open>orbitrelay-runtime\<close>: the handler registry, execution scopes, the in-memory pipeline and the action
  lifecycle \<open>Runtime::execute\<close>.

  The ports an action passes through (handler, authorizer, clock, identifier source, coordinator,
  pipeline) are trait objects supplied by the embedding application. They are fields of the model's
  records, functions over a world \<open>'w\<close> that each of them may change, so that the order in which the
  lifecycle calls them and the state each call sees are explicit. A lease has type \<open>'l\<close>; dropping it
  is an operation of the coordinator, called wherever Rust drops the value: after a successful
  dispatch and on every early return after the acquisition.
\<close>

section \<open>Registries that never replace\<close>

text \<open>The contract shared by the action and the query registry.\<close>

locale guarded_registry =
  fixes register :: "'k \<Rightarrow> 'v \<Rightarrow> 'r \<Rightarrow> ('e, unit) result \<times> 'r"
    and look :: "'r \<Rightarrow> 'k \<Rightarrow> 'v option"
    and duplicate :: "'k \<Rightarrow> 'e"
  assumes register_new:
      "look r k = None \<Longrightarrow> fst (register k v r) = Inr ()
         \<and> look (snd (register k v r)) = (look r)(k \<mapsto> v)"
    and register_known: "look r k = Some v' \<Longrightarrow> register k v r = (Inl (duplicate k), r)"
begin

lemma register_keeps: "look r k = Some v \<Longrightarrow> look (snd (register k' v' r)) k = Some v"
proof (cases "look r k'")
  case None
  assume "look r k = Some v"
  with register_new [OF None, of v'] None show ?thesis by (cases "k = k'") auto
qed (simp add: register_known)

end

text \<open>Registering a list of entries in order, stopping at the first refusal, as a sequence of calls
  with \<open>?\<close> does.\<close>

primrec register_all ::
  "('k \<Rightarrow> 'v \<Rightarrow> 'r \<Rightarrow> ('e, unit) result \<times> 'r) \<Rightarrow> ('k \<times> 'v) list \<Rightarrow> 'r \<Rightarrow> ('e, unit) result \<times> 'r" where
  "register_all reg [] r = (Inr (), r)"
| "register_all reg (kv # kvs) r =
     (case reg (fst kv) (snd kv) r of
        (Inl e, r') \<Rightarrow> (Inl e, r')
      | (Inr _, r') \<Rightarrow> register_all reg kvs r')"

context guarded_registry
begin

lemma register_all_fresh:
  assumes "distinct (map fst kvs)" "\<forall>k \<in> fst ` set kvs. look r k = None"
  shows "fst (register_all register kvs r) = Inr ()
    \<and> look (snd (register_all register kvs r)) = look r ++ map_of kvs"
  using assms
proof (induction kvs arbitrary: r)
  case (Cons kv kvs)
  obtain r' where reg: "register (fst kv) (snd kv) r = (Inr (), r')"
    "look r' = (look r)(fst kv \<mapsto> snd kv)"
    using register_new [of r "fst kv" "snd kv"] Cons.prems(2) by (metis image_eqI list.set_intros(1) prod.collapse)
  have "\<forall>k \<in> fst ` set kvs. look r' k = None"
  proof
    fix k assume k: "k \<in> fst ` set kvs"
    then have "k \<noteq> fst kv" using Cons.prems(1) by (metis distinct.simps(2) list.map(2) list.set_map)
    with k Cons.prems(2) reg(2) show "look r' k = None" by auto
  qed
  then have IH: "fst (register_all register kvs r') = Inr ()"
    "look (snd (register_all register kvs r')) = look r' ++ map_of kvs"
    using Cons.IH [of r'] Cons.prems(1) by auto
  have "map_of kvs (fst kv) = None"
    using Cons.prems(1) by (simp add: map_of_eq_None_iff)
  then have "look r' ++ map_of kvs = look r ++ map_of (kv # kvs)"
    by (auto simp: reg(2) fun_eq_iff map_add_def split: option.splits)
  moreover have "register_all register (kv # kvs) r = register_all register kvs r'"
    by (simp add: reg(1))
  ultimately show ?case using IH by (simp only:)
qed (simp add: map_add_def)

lemma register_all_keeps:
  "look r k = Some v \<Longrightarrow> look (snd (register_all register kvs r)) k = Some v"
proof (induction kvs arbitrary: r)
  case (Cons kv kvs)
  obtain res r' where step: "register (fst kv) (snd kv) r = (res, r')" by fastforce
  then have "look r' k = Some v" using register_keeps [OF Cons.prems, of "fst kv" "snd kv"] by simp
  with Cons.IH step show ?case by (cases res) auto
qed simp

end


section \<open>Errors\<close>

datatype HandlerError = HandlerError string
datatype AuthorizationError = AuthorizationError string
datatype PipelineError = PipelineError string

record ExecutionScope =
  scope_namespace :: string
  scope_key :: string

datatype ExecutionCoordinationError =
    InvalidScope string
  | Unavailable string
  | AcquisitionFailed string

datatype RegistryError = AlreadyRegistered ActionType

datatype RuntimeError =
    HandlerNotFound ActionType
  | ValidationFailed ActionId HandlerError
  | AuthorizationFailed ActionId AuthorizationError
  | CoordinationUnavailable ActionId ExecutionScope
  | CoordinationFailed ActionId ExecutionScope ExecutionCoordinationError
  | HandlerFailed ActionId HandlerError
  | PipelineFailed ActionId PipelineError

definition ExecutionScope_new :: "string \<Rightarrow> string \<Rightarrow> (ExecutionCoordinationError, ExecutionScope) result" where
  "ExecutionScope_new ns key =
     (if blank ns then Inl (InvalidScope ''namespace'')
      else if blank key then Inl (InvalidScope ''key'')
      else Inr \<lparr>scope_namespace = ns, scope_key = key\<rparr>)"


section \<open>Ports\<close>

record EventDraft =
  draft_event_type :: EventType
  draft_payload :: Payload
  draft_metadata :: Metadata

record 'w ActionHandler =
  h_validate :: "Action \<Rightarrow> 'w \<Rightarrow> (HandlerError, unit) result \<times> 'w"
  h_execution_scope :: "Action \<Rightarrow> (HandlerError, ExecutionScope option) result"
  h_handle :: "Action \<Rightarrow> 'w \<Rightarrow> (HandlerError, EventDraft list) result \<times> 'w"

definition default_execution_scope :: "Action \<Rightarrow> (HandlerError, ExecutionScope option) result" where
  "default_execution_scope a = Inr None"

record ('w, 'l) ExecutionCoordinator =
  c_acquire :: "ExecutionScope \<Rightarrow> 'w \<Rightarrow> (ExecutionCoordinationError, 'l) result \<times> 'w"
  c_release :: "'l \<Rightarrow> 'w \<Rightarrow> 'w"

record ('w, 'l) RuntimeContext =
  ctx_now :: "'w \<Rightarrow> Timestamp \<times> 'w"
  ctx_authorize :: "Action \<Rightarrow> 'w \<Rightarrow> (AuthorizationError, unit) result \<times> 'w"
  ctx_coordinator :: "('w, 'l) ExecutionCoordinator option"

definition RuntimeContext_new ::
  "('w \<Rightarrow> Timestamp \<times> 'w) \<Rightarrow> (Action \<Rightarrow> 'w \<Rightarrow> (AuthorizationError, unit) result \<times> 'w)
     \<Rightarrow> ('w, 'l) RuntimeContext" where
  "RuntimeContext_new clock auth = \<lparr>ctx_now = clock, ctx_authorize = auth, ctx_coordinator = None\<rparr>"

definition with_execution_coordinator ::
  "('w, 'l) ExecutionCoordinator \<Rightarrow> ('w, 'l) RuntimeContext \<Rightarrow> ('w, 'l) RuntimeContext" where
  "with_execution_coordinator c ctx = ctx\<lparr>ctx_coordinator := Some c\<rparr>"


section \<open>Handler registry and memory pipeline\<close>

type_synonym 'w HandlerRegistry = "ActionType \<rightharpoonup> 'w ActionHandler"

definition registry_register ::
  "ActionType \<Rightarrow> 'w ActionHandler \<Rightarrow> 'w HandlerRegistry \<Rightarrow> (RegistryError, unit) result \<times> 'w HandlerRegistry" where
  "registry_register t h r =
     (if r t \<noteq> None then (Inl (AlreadyRegistered t), r) else (Inr (), r(t \<mapsto> h)))"

definition registry_unregister ::
  "ActionType \<Rightarrow> 'w HandlerRegistry \<Rightarrow> 'w ActionHandler option \<times> 'w HandlerRegistry" where
  "registry_unregister t r = (r t, r(t := None))"

definition registry_get :: "'w HandlerRegistry \<Rightarrow> ActionType \<Rightarrow> 'w ActionHandler option" where
  "registry_get r t = r t"

definition registry_contains :: "'w HandlerRegistry \<Rightarrow> ActionType \<Rightarrow> bool" where
  "registry_contains r t \<longleftrightarrow> r t \<noteq> None"

interpretation handler_registry: guarded_registry registry_register registry_get AlreadyRegistered
  by unfold_locales (auto simp: registry_register_def registry_get_def fun_eq_iff)

type_synonym MemoryEventPipeline = "Event list"

definition pipeline_dispatch ::
  "Event list \<Rightarrow> MemoryEventPipeline \<Rightarrow> (PipelineError, unit) result \<times> MemoryEventPipeline" where
  "pipeline_dispatch es p = (Inr (), p @ es)"

definition pipeline_events :: "MemoryEventPipeline \<Rightarrow> Event list" where
  "pipeline_events p = p"

definition pipeline_clear :: "MemoryEventPipeline \<Rightarrow> MemoryEventPipeline" where
  "pipeline_clear p = []"


section \<open>The action lifecycle\<close>

record ('w, 'l) Runtime =
  rt_registry :: "'w HandlerRegistry"
  rt_context :: "('w, 'l) RuntimeContext"
  rt_dispatch :: "Event list \<Rightarrow> 'w \<Rightarrow> (PipelineError, unit) result \<times> 'w"
  rt_new_event_id :: "'w \<Rightarrow> EventId \<times> 'w"

definition acquire_lease ::
  "('w, 'l) Runtime \<Rightarrow> Action \<Rightarrow> ExecutionScope option \<Rightarrow> 'w \<Rightarrow> (RuntimeError, 'l option) result \<times> 'w" where
  "acquire_lease rt a scope w =
     (case scope of
        None \<Rightarrow> (Inr None, w)
      | Some sc \<Rightarrow>
          (case ctx_coordinator (rt_context rt) of
             None \<Rightarrow> (Inl (CoordinationUnavailable (ac_id a) sc), w)
           | Some c \<Rightarrow>
               (case c_acquire c sc w of
                  (Inl e, w') \<Rightarrow> (Inl (CoordinationFailed (ac_id a) sc e), w')
                | (Inr lease, w') \<Rightarrow> (Inr (Some lease), w'))))"

definition drop_lease :: "('w, 'l) Runtime \<Rightarrow> 'l option \<Rightarrow> 'w \<Rightarrow> 'w" where
  "drop_lease rt lease w =
     (case (lease, ctx_coordinator (rt_context rt)) of
        (Some l, Some c) \<Rightarrow> c_release c l w
      | _ \<Rightarrow> w)"

fun materialise :: "('w, 'l) Runtime \<Rightarrow> Action \<Rightarrow> EventDraft list \<Rightarrow> 'w \<Rightarrow> Event list \<times> 'w" where
  "materialise rt a [] w = ([], w)"
| "materialise rt a (d # ds) w =
     (let (i, w1) = rt_new_event_id rt w;
          (t, w2) = ctx_now (rt_context rt) w1;
          (es, w3) = materialise rt a ds w2
      in (Event_new i (ac_session_id a) (ac_actor_id a) (ac_id a) (draft_event_type d) t
            (draft_payload d) (draft_metadata d) # es, w3))"

definition handle_and_dispatch ::
  "('w, 'l) Runtime \<Rightarrow> 'w ActionHandler \<Rightarrow> Action \<Rightarrow> 'w \<Rightarrow> (RuntimeError, Event list) result \<times> 'w" where
  "handle_and_dispatch rt h a w =
     (case h_handle h a w of
        (Inl e, w1) \<Rightarrow> (Inl (HandlerFailed (ac_id a) e), w1)
      | (Inr drafts, w1) \<Rightarrow>
          (case materialise rt a drafts w1 of
             (events, w2) \<Rightarrow>
               (case rt_dispatch rt events w2 of
                  (Inl e, w3) \<Rightarrow> (Inl (PipelineFailed (ac_id a) e), w3)
                | (Inr _, w3) \<Rightarrow> (Inr events, w3))))"

definition execute :: "('w, 'l) Runtime \<Rightarrow> Action \<Rightarrow> 'w \<Rightarrow> (RuntimeError, Event list) result \<times> 'w" where
  "execute rt a w =
     (case registry_get (rt_registry rt) (ac_action_type a) of
        None \<Rightarrow> (Inl (HandlerNotFound (ac_action_type a)), w)
      | Some h \<Rightarrow>
     (case h_validate h a w of
        (Inl e, w1) \<Rightarrow> (Inl (ValidationFailed (ac_id a) e), w1)
      | (Inr _, w1) \<Rightarrow>
     (case ctx_authorize (rt_context rt) a w1 of
        (Inl e, w2) \<Rightarrow> (Inl (AuthorizationFailed (ac_id a) e), w2)
      | (Inr _, w2) \<Rightarrow>
     (case h_execution_scope h a of
        Inl e \<Rightarrow> (Inl (HandlerFailed (ac_id a) e), w2)
      | Inr scope \<Rightarrow>
     (case acquire_lease rt a scope w2 of
        (Inl e, w3) \<Rightarrow> (Inl e, w3)
      | (Inr lease, w3) \<Rightarrow>
     (case handle_and_dispatch rt h a w3 of
        (r, w4) \<Rightarrow> (r, drop_lease rt lease w4)))))))"


section \<open>Lemmas\<close>

lemma materialise_drafts:
  "materialise rt a ds w = (es, w') \<Longrightarrow>
     map (\<lambda>e. \<lparr>draft_event_type = ev_event_type e, draft_payload = ev_payload e,
              draft_metadata = ev_metadata e\<rparr>) es = ds
     \<and> (\<forall>e \<in> set es. ev_session_id e = ac_session_id a \<and> ev_actor_id e = ac_actor_id a
          \<and> ev_action_id e = ac_id a)"
proof (induction ds arbitrary: w es)
  case (Cons d ds)
  then show ?case by (auto simp: split_beta Let_def) (metis prod.collapse)+
qed simp

text \<open>A property of the world that the identifier source and the clock keep is kept by
  materialisation; likewise for every other stage from the ports it calls.\<close>

lemma materialise_keeps:
  assumes "\<And>w. P w \<Longrightarrow> P (snd (rt_new_event_id rt w))" "\<And>w. P w \<Longrightarrow> P (snd (ctx_now (rt_context rt) w))"
  shows "P w \<Longrightarrow> P (snd (materialise rt a ds w))"
proof (induction ds arbitrary: w)
  case (Cons d ds)
  then show ?case using assms by (simp add: split_beta Let_def)
qed simp

lemma execute_cases:
  assumes "execute rt a w = (r, w')"
  obtains (not_found) "registry_get (rt_registry rt) (ac_action_type a) = None"
      "r = Inl (HandlerNotFound (ac_action_type a))" "w' = w"
    | (invalid) h e where "registry_get (rt_registry rt) (ac_action_type a) = Some h"
      "h_validate h a w = (Inl e, w')" "r = Inl (ValidationFailed (ac_id a) e)"
    | (unauthorized) h e w1 where "registry_get (rt_registry rt) (ac_action_type a) = Some h"
      "h_validate h a w = (Inr (), w1)" "ctx_authorize (rt_context rt) a w1 = (Inl e, w')"
      "r = Inl (AuthorizationFailed (ac_id a) e)"
    | (no_scope) h e w1 where "registry_get (rt_registry rt) (ac_action_type a) = Some h"
      "h_validate h a w = (Inr (), w1)" "ctx_authorize (rt_context rt) a w1 = (Inr (), w')"
      "h_execution_scope h a = Inl e" "r = Inl (HandlerFailed (ac_id a) e)"
    | (no_lease) h w1 w2 scope e where "registry_get (rt_registry rt) (ac_action_type a) = Some h"
      "h_validate h a w = (Inr (), w1)" "ctx_authorize (rt_context rt) a w1 = (Inr (), w2)"
      "h_execution_scope h a = Inr scope" "acquire_lease rt a scope w2 = (Inl e, w')" "r = Inl e"
    | (leased) h w1 w2 scope lease w3 w4 where
      "registry_get (rt_registry rt) (ac_action_type a) = Some h"
      "h_validate h a w = (Inr (), w1)" "ctx_authorize (rt_context rt) a w1 = (Inr (), w2)"
      "h_execution_scope h a = Inr scope" "acquire_lease rt a scope w2 = (Inr lease, w3)"
      "handle_and_dispatch rt h a w3 = (r, w4)" "w' = drop_lease rt lease w4"
proof (cases "registry_get (rt_registry rt) (ac_action_type a)")
  case None
  with assms not_found show thesis by (simp add: execute_def)
next
  case h: (Some h)
  obtain v w1 where v: "h_validate h a w = (v, w1)" by fastforce
  obtain u w2 where u: "ctx_authorize (rt_context rt) a w1 = (u, w2)" by fastforce
  show thesis
  proof (cases v)
    case (Inl e)
    with assms h v show thesis by (intro invalid [OF h]) (auto simp: execute_def)
  next
    case valid: (Inr x)
    show thesis
    proof (cases u)
      case (Inl e)
      with assms h v u valid show thesis by (intro unauthorized [OF h]) (auto simp: execute_def)
    next
      case auth: (Inr y)
      show thesis
      proof (cases "h_execution_scope h a")
        case (Inl e)
        with assms h v u valid auth show thesis by (intro no_scope [OF h]) (auto simp: execute_def)
      next
        case scope: (Inr scope)
        obtain l w3 where l: "acquire_lease rt a scope w2 = (l, w3)" by fastforce
        show thesis
        proof (cases l)
          case (Inl e)
          with assms h v u valid auth scope l show thesis
            by (intro no_lease [OF h]) (auto simp: execute_def)
        next
          case lease: (Inr lease)
          obtain d w4 where "handle_and_dispatch rt h a w3 = (d, w4)" by fastforce
          with assms h v u valid auth scope l lease show thesis
            by (intro leased [OF h]) (auto simp: execute_def)
        qed
      qed
    qed
  qed
qed

lemma acquire_lease_error:
  "acquire_lease rt a scope w = (Inl e, w') \<Longrightarrow>
     \<exists>sc. e = CoordinationUnavailable (ac_id a) sc \<or> (\<exists>c. e = CoordinationFailed (ac_id a) sc c)"
  by (auto simp: acquire_lease_def split: option.splits prod.splits sum.splits)

lemma acquire_lease_error_observes:
  assumes "acquire_lease rt a scope w = (Inl e, w')"
    and obs: "\<And>c sc v. ctx_coordinator (rt_context rt) = Some c \<Longrightarrow> obs (snd (c_acquire c sc v)) = obs v"
  shows "obs w' = obs w"
proof (cases scope)
  case (Some sc)
  show ?thesis
  proof (cases "ctx_coordinator (rt_context rt)")
    case None
    with assms(1) Some show ?thesis by (simp add: acquire_lease_def)
  next
    case c: (Some c)
    obtain res v where "c_acquire c sc w = (res, v)" by fastforce
    with assms(1) Some c obs [OF c, of sc w] show ?thesis
      by (simp add: acquire_lease_def split: sum.splits)
  qed
qed (use assms(1) in \<open>simp add: acquire_lease_def\<close>)

lemma handle_and_dispatch_ok:
  "handle_and_dispatch rt h a w = (Inr events, w') \<Longrightarrow>
     \<exists>drafts w1 w2. h_handle h a w = (Inr drafts, w1) \<and> materialise rt a drafts w1 = (events, w2)
       \<and> rt_dispatch rt events w2 = (Inr (), w')"
  by (auto simp: handle_and_dispatch_def split: prod.splits sum.splits)


text \<open>Leases: what each port does to the set of held leases, as the lease and coordinator traits
  document it. Acquisition adds a lease that was not held, release removes it, a failed acquisition
  and every other port leave the set alone.\<close>

definition lease_ports :: "('w, 'l) Runtime \<Rightarrow> ('w \<Rightarrow> 'l set) \<Rightarrow> bool" where
  "lease_ports rt held \<longleftrightarrow>
     (\<forall>t h a w. rt_registry rt t = Some h \<longrightarrow>
        held (snd (h_validate h a w)) = held w \<and> held (snd (h_handle h a w)) = held w)
     \<and> (\<forall>a w. held (snd (ctx_authorize (rt_context rt) a w)) = held w)
     \<and> (\<forall>w. held (snd (ctx_now (rt_context rt) w)) = held w)
     \<and> (\<forall>w. held (snd (rt_new_event_id rt w)) = held w)
     \<and> (\<forall>es w. held (snd (rt_dispatch rt es w)) = held w)
     \<and> (\<forall>c. ctx_coordinator (rt_context rt) = Some c \<longrightarrow>
          (\<forall>sc w e w'. c_acquire c sc w = (Inl e, w') \<longrightarrow> held w' = held w)
          \<and> (\<forall>sc w l w'. c_acquire c sc w = (Inr l, w') \<longrightarrow> l \<notin> held w \<and> held w' = insert l (held w))
          \<and> (\<forall>l w. held (c_release c l w) = held w - {l}))"

lemma lease_portsD:
  assumes "lease_ports rt held"
  shows "registry_get (rt_registry rt) t = Some h \<Longrightarrow> held (snd (h_validate h a w)) = held w"
    and "registry_get (rt_registry rt) t = Some h \<Longrightarrow> held (snd (h_handle h a w)) = held w"
    and "held (snd (ctx_authorize (rt_context rt) a w)) = held w"
    and "held (snd (ctx_now (rt_context rt) w)) = held w"
    and "held (snd (rt_new_event_id rt w)) = held w"
    and "held (snd (rt_dispatch rt es w)) = held w"
    and "ctx_coordinator (rt_context rt) = Some c \<Longrightarrow> c_acquire c sc w = (Inl e, w') \<Longrightarrow> held w' = held w"
    and "ctx_coordinator (rt_context rt) = Some c \<Longrightarrow> c_acquire c sc w = (Inr l, w') \<Longrightarrow>
      l \<notin> held w \<and> held w' = insert l (held w)"
    and "ctx_coordinator (rt_context rt) = Some c \<Longrightarrow> held (c_release c l w) = held w - {l}"
  using assms unfolding lease_ports_def registry_get_def by auto

lemma held_handle_and_dispatch:
  assumes ports: "lease_ports rt held" and h: "registry_get (rt_registry rt) t = Some h"
    and run: "handle_and_dispatch rt h a w = (r, w')"
  shows "held w' = held w"
proof -
  obtain res w1 where step: "h_handle h a w = (res, w1)" by fastforce
  then have w1: "held w1 = held w" using lease_portsD(2) [OF ports h, of a w] by simp
  have mat: "held (snd (materialise rt a ds w1)) = held w1" for ds
    by (rule materialise_keeps [where P = "\<lambda>v. held v = held w1"])
      (simp_all add: lease_portsD(4,5) [OF ports])
  show ?thesis
  proof (cases res)
    case (Inl e)
    with step run w1 show ?thesis by (auto simp: handle_and_dispatch_def)
  next
    case (Inr drafts)
    obtain events w2 where m: "materialise rt a drafts w1 = (events, w2)" by fastforce
    obtain d w3 where disp: "rt_dispatch rt events w2 = (d, w3)" by fastforce
    have "held w3 = held w"
      using mat [of drafts] m lease_portsD(6) [OF ports, of events w2] disp w1 by simp
    with Inr step run m disp show ?thesis
      by (auto simp: handle_and_dispatch_def split: sum.splits)
  qed
qed

lemma held_acquire_drop:
  assumes ports: "lease_ports rt held" and acq: "acquire_lease rt a scope w = (Inr lease, w')"
    and kept: "held w'' = held w'"
  shows "held (drop_lease rt lease w'') = held w"
  using acq kept lease_portsD(8,9) [OF ports]
  by (fastforce simp: acquire_lease_def drop_lease_def split: option.splits prod.splits sum.splits)

lemma held_acquire_error:
  "lease_ports rt held \<Longrightarrow> acquire_lease rt a scope w = (Inl e, w') \<Longrightarrow> held w' = held w"
  using lease_portsD(7)
  by (fastforce simp: acquire_lease_def split: option.splits prod.splits sum.splits)


section \<open>Sample values\<close>

text \<open>A small application: one handler that needs a scope and emits one draft, an authorizer that
  admits actor 2 only, a coordinator that hands out its lease unless it is taken, a pipeline that
  can be made to fail.\<close>

record sample_world =
  sw_held :: "nat set"
  sw_log :: "Event list"
  sw_next :: nat

definition sample_handler :: "sample_world ActionHandler" where
  "sample_handler =
     \<lparr>h_validate = (\<lambda>a w. (Inr (), w)),
      h_execution_scope = (\<lambda>a. Inr (Some \<lparr>scope_namespace = ''canvas.stroke'', scope_key = ''k''\<rparr>)),
      h_handle = (\<lambda>a w. (Inr [\<lparr>draft_event_type = EventType ''done'', draft_payload = payload_new,
                              draft_metadata = metadata_new\<rparr>], w))\<rparr>"

definition sample_coordinator :: "(sample_world, nat) ExecutionCoordinator" where
  "sample_coordinator =
     \<lparr>c_acquire = (\<lambda>sc w. if 0 \<in> sw_held w then (Inl (AcquisitionFailed ''busy''), w)
                         else (Inr 0, w\<lparr>sw_held := insert 0 (sw_held w)\<rparr>)),
      c_release = (\<lambda>l w. w\<lparr>sw_held := sw_held w - {l}\<rparr>)\<rparr>"

definition sample_runtime :: "bool \<Rightarrow> (sample_world, nat) Runtime" where
  "sample_runtime broken =
     \<lparr>rt_registry = [ActionType ''do'' \<mapsto> sample_handler],
      rt_context = with_execution_coordinator sample_coordinator
        (RuntimeContext_new (\<lambda>w. (Timestamp 5, w))
          (\<lambda>a w. (if ac_actor_id a = ActorId (EntityId 2) then Inr () else Inl (AuthorizationError ''no''), w))),
      rt_dispatch = (\<lambda>es w. if broken then (Inl (PipelineError ''down''), w)
                            else (Inr (), w\<lparr>sw_log := sw_log w @ es\<rparr>)),
      rt_new_event_id = (\<lambda>w. (EventId (EntityId (word_of_nat (sw_next w))), w\<lparr>sw_next := Suc (sw_next w)\<rparr>))\<rparr>"

definition sample_action :: "128 word \<Rightarrow> Action" where
  "sample_action actor =
     \<lparr>ac_id = ActionId (EntityId 9), ac_session_id = SessionId (EntityId 1),
      ac_actor_id = ActorId (EntityId actor), ac_action_type = ActionType ''do'',
      ac_requested_at = Timestamp 4, ac_payload = payload_new, ac_metadata = metadata_new\<rparr>"

definition sample_start :: sample_world where
  "sample_start = \<lparr>sw_held = {}, sw_log = [], sw_next = 100\<rparr>"

lemmas sample_runtime_defs = sample_handler_def sample_coordinator_def sample_runtime_def
  sample_action_def sample_start_def RuntimeContext_new_def with_execution_coordinator_def
  registry_get_def

lemmas execute_defs = execute_def acquire_lease_def drop_lease_def handle_and_dispatch_def

lemma sample_lease_ports: "lease_ports (sample_runtime broken) sw_held"
  by (auto simp: lease_ports_def sample_runtime_defs split: if_splits)


section \<open>Properties\<close>

text \<open>C19. A successful execution returns exactly the events it dispatched: the handler was found,
  validated and authorized the action, its drafts became one event each, in order, with the type,
  payload and metadata of the draft and the session, actor and action identifiers of the action, and
  that same list was accepted by the pipeline in a single dispatch.\<close>

theorem execute_returns_dispatched_events:
  assumes "execute rt a w = (Inr events, w')"
  shows "\<exists>h w1 w2 scope lease w3 drafts w4 w5 w6.
    registry_get (rt_registry rt) (ac_action_type a) = Some h
    \<and> h_validate h a w = (Inr (), w1) \<and> ctx_authorize (rt_context rt) a w1 = (Inr (), w2)
    \<and> h_execution_scope h a = Inr scope \<and> acquire_lease rt a scope w2 = (Inr lease, w3)
    \<and> h_handle h a w3 = (Inr drafts, w4) \<and> materialise rt a drafts w4 = (events, w5)
    \<and> rt_dispatch rt events w5 = (Inr (), w6) \<and> w' = drop_lease rt lease w6
    \<and> map (\<lambda>e. \<lparr>draft_event_type = ev_event_type e, draft_payload = ev_payload e,
               draft_metadata = ev_metadata e\<rparr>) events = drafts
    \<and> (\<forall>e \<in> set events. ev_session_id e = ac_session_id a \<and> ev_actor_id e = ac_actor_id a
         \<and> ev_action_id e = ac_id a)"
  using assms
proof (cases rule: execute_cases)
  case (no_lease h w1 w2 scope e)
  then show ?thesis by simp
next
  case (leased h w1 w2 scope lease w3 w4)
  from handle_and_dispatch_ok [OF leased(6)] obtain drafts v1 v2
    where run: "h_handle h a w3 = (Inr drafts, v1)" "materialise rt a drafts v1 = (events, v2)"
      "rt_dispatch rt events v2 = (Inr (), w4)"
    by auto
  with leased(1-5,7) materialise_drafts [OF run(2)] show ?thesis by auto
qed auto

theorem execute_returns_dispatched_events_witness:
  "\<exists>events w'. execute (sample_runtime False) (sample_action 2) sample_start = (Inr events, w')
     \<and> length events = 1 \<and> sw_log w' = events
     \<and> list_all (\<lambda>e. ev_session_id e = SessionId (EntityId 1) \<and> ev_actor_id e = ActorId (EntityId 2)) events"
proof -
  obtain events w' where ex: "execute (sample_runtime False) (sample_action 2) sample_start = (Inr events, w')"
    and len: "length events = 1" "sw_log w' = events"
    by (simp add: execute_defs sample_runtime_defs Let_def)
  from execute_returns_dispatched_events [OF ex] show ?thesis
    using ex len by (auto simp: sample_action_def list_all_iff)
qed

text \<open>C9. Leases are never leaked: if the ports treat the set of held leases as the lease and
  coordinator traits require, then after every execution, successful or failed at any stage, exactly
  the leases held before it are held.\<close>

theorem execute_releases_lease:
  assumes "lease_ports rt held" "execute rt a w = (r, w')"
  shows "held w' = held w"
  using assms(2)
proof (cases rule: execute_cases)
  case (invalid h e)
  then show ?thesis using lease_portsD(1) [OF assms(1) invalid(1), of a w] by simp
next
  case (unauthorized h e w1)
  then show ?thesis
    using lease_portsD(1) [OF assms(1) unauthorized(1), of a w] lease_portsD(3) [OF assms(1), of a w1]
    by simp
next
  case (no_scope h e w1)
  then show ?thesis
    using lease_portsD(1) [OF assms(1) no_scope(1), of a w] lease_portsD(3) [OF assms(1), of a w1]
    by simp
next
  case (no_lease h w1 w2 scope e)
  then show ?thesis
    using lease_portsD(1) [OF assms(1) no_lease(1), of a w] lease_portsD(3) [OF assms(1), of a w1]
      held_acquire_error [OF assms(1) no_lease(5)] by simp
next
  case (leased h w1 w2 scope lease w3 w4)
  then show ?thesis
    using lease_portsD(1) [OF assms(1) leased(1), of a w] lease_portsD(3) [OF assms(1), of a w1]
      held_acquire_drop [OF assms(1) leased(5) held_handle_and_dispatch [OF assms(1) leased(1,6)]]
    by simp
qed simp

theorem execute_releases_lease_witness:
  "\<exists>r w'. execute (sample_runtime True) (sample_action 2) sample_start = (r, w')
     \<and> r = Inl (PipelineFailed (ActionId (EntityId 9)) (PipelineError ''down'')) \<and> sw_held w' = {}"
proof -
  obtain r w' where ex: "execute (sample_runtime True) (sample_action 2) sample_start = (r, w')"
    and r: "r = Inl (PipelineFailed (ActionId (EntityId 9)) (PipelineError ''down''))"
    by (simp add: execute_defs sample_runtime_defs Let_def)
  from execute_releases_lease [OF sample_lease_ports ex] show ?thesis
    using ex r by (simp add: sample_start_def)
qed

text \<open>C33. A rejected action has no effect beyond the checks themselves: if the execution ends
  because no handler exists, validation, authorization or coordination failed, then everything about
  the world that the validator, the authorizer and the coordinator leave unchanged is unchanged; the
  handler did not run and nothing was dispatched.\<close>

theorem rejected_action_has_no_effect:
  assumes "execute rt a w = (Inl err, w')"
    "(\<forall>e. err \<noteq> HandlerFailed (ac_id a) e) \<and> (\<forall>e. err \<noteq> PipelineFailed (ac_id a) e)"
    "\<And>h v. registry_get (rt_registry rt) (ac_action_type a) = Some h \<Longrightarrow> obs (snd (h_validate h a v)) = obs v"
    "\<And>v. obs (snd (ctx_authorize (rt_context rt) a v)) = obs v"
    "\<And>c sc v. ctx_coordinator (rt_context rt) = Some c \<Longrightarrow> obs (snd (c_acquire c sc v)) = obs v"
  shows "obs w' = obs w"
  using assms(1)
proof (cases rule: execute_cases)
  case (invalid h e)
  then show ?thesis using assms(3) [OF invalid(1), of w] by simp
next
  case (unauthorized h e w1)
  then show ?thesis using assms(3) [OF unauthorized(1), of w] assms(4) [of w1] by simp
next
  case (no_lease h w1 w2 scope e)
  moreover have "obs w' = obs w2"
    by (rule acquire_lease_error_observes [OF no_lease(5) assms(5)])
  ultimately show ?thesis using assms(3) [OF no_lease(1), of w] assms(4) [of w1] by simp
next
  case (leased h w1 w2 scope lease w3 w4)
  then show ?thesis
    using assms(2) by (auto simp: handle_and_dispatch_def split: prod.splits sum.splits)
qed (use assms(2) in auto)

theorem rejected_action_has_no_effect_witness:
  "\<exists>err w'. execute (sample_runtime False) (sample_action 3) sample_start = (Inl err, w')
     \<and> err = AuthorizationFailed (ActionId (EntityId 9)) (AuthorizationError ''no'')
     \<and> sw_log w' = [] \<and> sw_next w' = 100"
proof -
  obtain err w' where ex: "execute (sample_runtime False) (sample_action 3) sample_start = (Inl err, w')"
    and err: "err = AuthorizationFailed (ActionId (EntityId 9)) (AuthorizationError ''no'')"
    by (simp add: execute_defs sample_runtime_defs)
  have "(sw_log w', sw_next w') = (sw_log sample_start, sw_next sample_start)"
    by (rule rejected_action_has_no_effect [OF ex])
      (auto simp: err sample_runtime_defs split: if_splits)
  with ex err show ?thesis by (simp add: sample_start_def)
qed

text \<open>Registering never replaces a handler: registering an action type that has one fails with
  \<open>AlreadyRegistered\<close> and changes nothing, registering a free one adds exactly it, and unregistering
  returns the registered handler and frees the type.\<close>

theorem handler_registration:
  "(case registry_get r t of
      Some h' \<Rightarrow> registry_register t h r = (Inl (AlreadyRegistered t), r)
    | None \<Rightarrow> fst (registry_register t h r) = Inr ()
        \<and> registry_get (snd (registry_register t h r)) = (registry_get r)(t \<mapsto> h))
   \<and> fst (registry_unregister t r) = registry_get r t
   \<and> registry_get (snd (registry_unregister t r)) t = None
   \<and> fst (registry_register t h (snd (registry_unregister t r))) = Inr ()"
  using handler_registry.register_new [of r t h] handler_registry.register_known [of r t]
    handler_registry.register_new [of "snd (registry_unregister t r)" t h]
  by (auto simp: registry_unregister_def registry_get_def split: option.splits)

end
