(* ===== verification/Canvas_Service.thy ===== *)
theory Canvas_Service
  imports Canvas_Projection Runtime_Model
begin

text \<open>
  \<open>orbitrelay-canvas-runtime\<close>: the command service behind the five stroke actions, their handlers and
  their registration. The catalog and the state reader are read-only ports of the embedding
  application, functions of the world. The service's operations can panic only through
  \<open>last_chunk_index\<close>; a handler is defined for an arbitrary result \<open>unwind\<close> of a panicking task, and the
  theorems show that it is never used.
\<close>

section \<open>Errors and ports\<close>

datatype CanvasCatalogError = CanvasCatalogError string

datatype CanvasStateReadError =
    StateUnavailable string
  | StateProjectionCorrupted CanvasProjectionError

datatype CanvasRuntimeError =
    CanvasNotFound CanvasId
  | CanvasSessionMismatch CanvasId SessionId SessionId
  | LayerNotFound CanvasId LayerId
  | CatalogFailed CanvasCatalogError
  | StateReadFailed CanvasStateReadError
  | DomainViolation CanvasError
  | ProjectionCorrupted CanvasProjectionError
  | EncodingFailed CanvasError
  | ChunkIndexExhausted StrokeId

definition handler_error_of :: "CanvasRuntimeError \<Rightarrow> HandlerError" where
  "handler_error_of e = HandlerError
     (case e of
        CanvasNotFound _ \<Rightarrow> ''Canvas was not found''
      | CanvasSessionMismatch _ _ _ \<Rightarrow> ''Canvas does not belong to the Action Session''
      | LayerNotFound _ _ \<Rightarrow> ''Canvas layer was not found''
      | CatalogFailed _ \<Rightarrow> ''Canvas catalog is unavailable''
      | StateReadFailed _ \<Rightarrow> ''Canvas state is unavailable''
      | DomainViolation _ \<Rightarrow> ''Canvas command violated a domain rule''
      | ProjectionCorrupted _ \<Rightarrow> ''Canvas projection is corrupted''
      | EncodingFailed _ \<Rightarrow> ''Canvas event encoding failed''
      | ChunkIndexExhausted _ \<Rightarrow> ''Canvas chunk index is exhausted'')"

record 'w CanvasCommandService =
  svc_get_canvas :: "CanvasId \<Rightarrow> 'w \<Rightarrow> (CanvasCatalogError, CanvasDescriptor option) result"
  svc_load_stroke :: "SessionId \<Rightarrow> CanvasId \<Rightarrow> StrokeId \<Rightarrow> 'w
    \<Rightarrow> (CanvasStateReadError, StrokeProjection option) result"
  svc_serde :: canvas_serde

type_synonym command_result = "(CanvasRuntimeError, EventDraft list) result"


section \<open>Shared steps\<close>

definition invalid_state :: "StrokeLifecycle \<Rightarrow> StrokeLifecycle \<Rightarrow> CanvasRuntimeError" where
  "invalid_state s t = DomainViolation (InvalidStrokeState s t)"

primrec map_state_read_error :: "CanvasStateReadError \<Rightarrow> CanvasRuntimeError" where
  "map_state_read_error (StateProjectionCorrupted e) = ProjectionCorrupted e"
| "map_state_read_error (StateUnavailable d) = StateReadFailed (StateUnavailable d)"

definition load_canvas ::
  "'w CanvasCommandService \<Rightarrow> Action \<Rightarrow> CanvasId \<Rightarrow> 'w \<Rightarrow> (CanvasRuntimeError, CanvasDescriptor) result" where
  "load_canvas svc a c w =
     rbind (map_err CatalogFailed (svc_get_canvas svc c w)) (\<lambda>found.
     rbind (ok_or found (CanvasNotFound c)) (\<lambda>d.
     if cd_session_id d \<noteq> ac_session_id a
     then Inl (CanvasSessionMismatch c (cd_session_id d) (ac_session_id a))
     else Inr d))"

definition load_stroke ::
  "'w CanvasCommandService \<Rightarrow> Action \<Rightarrow> CanvasId \<Rightarrow> StrokeId \<Rightarrow> 'w
     \<Rightarrow> (CanvasRuntimeError, StrokeProjection option) result" where
  "load_stroke svc a c s w = map_err map_state_read_error (svc_load_stroke svc (ac_session_id a) c s w)"

definition load_required_stroke ::
  "'w CanvasCommandService \<Rightarrow> Action \<Rightarrow> CanvasId \<Rightarrow> StrokeId \<Rightarrow> 'w
     \<Rightarrow> (CanvasRuntimeError, StrokeProjection) result" where
  "load_required_stroke svc a c s w =
     rbind (load_stroke svc a c s w) (\<lambda>p. ok_or p (DomainViolation (StrokeNotFound s)))"

definition validate_layer :: "CanvasDescriptor \<Rightarrow> LayerId \<Rightarrow> (CanvasRuntimeError, unit) result" where
  "validate_layer d l = (if contains_layer d l then Inr () else Inl (LayerNotFound (cd_canvas_id d) l))"

definition validate_projection_identity ::
  "StrokeProjection \<Rightarrow> Action \<Rightarrow> CanvasId \<Rightarrow> StrokeId \<Rightarrow> (CanvasRuntimeError, unit) result" where
  "validate_projection_identity p a c s =
     (if sj_session_id p \<noteq> ac_session_id a
      then Inl (ProjectionCorrupted (SessionMismatch (ac_session_id a) (sj_session_id p)))
      else if sj_canvas_id p \<noteq> c then Inl (ProjectionCorrupted (CanvasMismatch c (sj_canvas_id p)))
      else if sj_stroke_id p \<noteq> s then Inl (ProjectionCorrupted (StrokeMismatch s (sj_stroke_id p)))
      else Inr ())"

primrec validate_points :: "CanvasDescriptor \<Rightarrow> CanvasPoint list \<Rightarrow> (CanvasRuntimeError, unit) result" where
  "validate_points d [] = Inr ()"
| "validate_points d (p # ps) =
     rbind (map_err DomainViolation (validate_point (cd_space d) p)) (\<lambda>_. validate_points d ps)"

definition validate_final_index ::
  "string \<Rightarrow> StrokeProjection \<Rightarrow> u64 \<Rightarrow> (CanvasRuntimeError, unit) result option" where
  "validate_final_index kind p final =
     (case last_chunk_index p of
        None \<Rightarrow> None
      | Some l \<Rightarrow> Some (if final = l then Inr () else Inl (DomainViolation (InvalidChunkIndex kind final))))"

definition event_draft :: "string \<Rightarrow> (CanvasError, Payload) result \<Rightarrow> command_result" where
  "event_draft t encoded =
     rbind (map_err EncodingFailed encoded) (\<lambda>payload.
     Inr [\<lparr>draft_event_type = EventType t, draft_payload = payload, draft_metadata = metadata_new\<rparr>])"


section \<open>Commands\<close>

definition service_begin ::
  "'w CanvasCommandService \<Rightarrow> Action \<Rightarrow> StrokeBeginPayload \<Rightarrow> 'w \<Rightarrow> command_result" where
  "service_begin svc a p w =
     rbind (load_canvas svc a (sb_canvas_id p) w) (\<lambda>d.
     rbind (validate_layer d (sb_layer_id p)) (\<lambda>_.
     rbind (validate_points d (sb_points p)) (\<lambda>_.
     rbind (load_stroke svc a (sb_canvas_id p) (sb_stroke_id p) w) (\<lambda>existing.
     case existing of
       Some q \<Rightarrow>
         rbind (validate_projection_identity q a (sb_canvas_id p) (sb_stroke_id p)) (\<lambda>_.
         if sj_layer_id q = sb_layer_id p \<and> sj_tool q = sb_tool p \<and> style_eq (sj_style q) (sb_style p)
            \<and> (case projection_chunk q 0 of None \<Rightarrow> False | Some c \<Rightarrow> points_eq (ck_points c) (sb_points p))
            \<and> sj_creator_actor_id q = ac_actor_id a
         then Inr []
         else Inl (DomainViolation (StrokeAlreadyExists (sb_stroke_id p))))
     | None \<Rightarrow> event_draft STROKE_BEGAN_EVENT_TYPE (encode_begin (svc_serde svc) p)))))"

definition service_append ::
  "'w CanvasCommandService \<Rightarrow> Action \<Rightarrow> StrokeAppendPayload \<Rightarrow> 'w \<Rightarrow> command_result option" where
  "service_append svc a p w =
     obind (Some (load_canvas svc a (sa_canvas_id p) w)) (\<lambda>d.
     obind (Some (load_required_stroke svc a (sa_canvas_id p) (sa_stroke_id p) w)) (\<lambda>q.
     obind (Some (validate_projection_identity q a (sa_canvas_id p) (sa_stroke_id p))) (\<lambda>_.
     case last_chunk_index q of
       None \<Rightarrow> None
     | Some final \<Rightarrow>
       if sa_chunk_index p \<le> final then
         Some (rbind (ok_or (projection_chunk q (sa_chunk_index p))
                 (ProjectionCorrupted (InvalidHistoryChunk (sa_stroke_id p) (sa_chunk_index p) final))) (\<lambda>chunk.
               if points_eq (ck_points chunk) (sa_points p) then Inr []
               else Inl (DomainViolation (ChunkConflict (sa_stroke_id p) (sa_chunk_index p)))))
       else
         obind (map_option (\<lambda>n. ok_or n (ChunkIndexExhausted (sa_stroke_id p))) (next_chunk_index q)) (\<lambda>expected.
         if expected < sa_chunk_index p
         then Some (Inl (DomainViolation (MissingChunk (sa_stroke_id p) expected (sa_chunk_index p))))
         else if sj_lifecycle q \<noteq> Active
         then Some (Inl (invalid_state (sj_lifecycle q) Active))
         else Some (rbind (validate_points d (sa_points p)) (\<lambda>_.
                event_draft STROKE_POINTS_APPENDED_EVENT_TYPE (encode_append (svc_serde svc) p)))))))"

definition service_end ::
  "'w CanvasCommandService \<Rightarrow> Action \<Rightarrow> StrokeEndPayload \<Rightarrow> 'w \<Rightarrow> command_result option" where
  "service_end svc a p w =
     obind (Some (load_canvas svc a (se_canvas_id p) w)) (\<lambda>_.
     obind (Some (load_required_stroke svc a (se_canvas_id p) (se_stroke_id p) w)) (\<lambda>q.
     obind (Some (validate_projection_identity q a (se_canvas_id p) (se_stroke_id p))) (\<lambda>_.
     case sj_lifecycle q of
       Active \<Rightarrow>
         obind (validate_final_index ''end'' q (se_final_chunk_index p)) (\<lambda>_.
         Some (event_draft STROKE_COMPLETED_EVENT_TYPE (encode_end (svc_serde svc) p)))
     | Cancelled \<Rightarrow> Some (Inl (invalid_state Cancelled Completed))
     | _ \<Rightarrow> obind (validate_final_index ''end'' q (se_final_chunk_index p)) (\<lambda>_. Some (Inr [])))))"

definition service_cancel ::
  "'w CanvasCommandService \<Rightarrow> Action \<Rightarrow> StrokeCancelPayload \<Rightarrow> 'w \<Rightarrow> command_result option" where
  "service_cancel svc a p w =
     obind (Some (load_canvas svc a (sc_canvas_id p) w)) (\<lambda>_.
     obind (Some (load_required_stroke svc a (sc_canvas_id p) (sc_stroke_id p) w)) (\<lambda>q.
     obind (Some (validate_projection_identity q a (sc_canvas_id p) (sc_stroke_id p))) (\<lambda>_.
     case sj_lifecycle q of
       Active \<Rightarrow>
         obind (validate_final_index ''cancel'' q (sc_final_chunk_index p)) (\<lambda>_.
         Some (event_draft STROKE_CANCELLED_EVENT_TYPE (encode_cancel (svc_serde svc) p)))
     | Cancelled \<Rightarrow> obind (validate_final_index ''cancel'' q (sc_final_chunk_index p)) (\<lambda>_. Some (Inr []))
     | _ \<Rightarrow> Some (Inl (invalid_state (sj_lifecycle q) Cancelled)))))"

definition service_remove ::
  "'w CanvasCommandService \<Rightarrow> Action \<Rightarrow> StrokeRemovePayload \<Rightarrow> 'w \<Rightarrow> command_result" where
  "service_remove svc a p w =
     rbind (load_canvas svc a (sr_canvas_id p) w) (\<lambda>_.
     rbind (load_required_stroke svc a (sr_canvas_id p) (sr_stroke_id p) w) (\<lambda>q.
     rbind (validate_projection_identity q a (sr_canvas_id p) (sr_stroke_id p)) (\<lambda>_.
     case sj_lifecycle q of
       Completed \<Rightarrow> event_draft STROKE_REMOVED_EVENT_TYPE (encode_remove (svc_serde svc) p)
     | Removed \<Rightarrow> Inr []
     | _ \<Rightarrow> Inl (invalid_state (sj_lifecycle q) Removed))))"


section \<open>Handlers\<close>

definition CANVAS_STROKE_EXECUTION_NAMESPACE :: string where
  "CANVAS_STROKE_EXECUTION_NAMESPACE = ''canvas.stroke''"

definition decode_action :: "(Payload \<Rightarrow> (CanvasError, 'p) result) \<Rightarrow> Action \<Rightarrow> (HandlerError, 'p) result" where
  "decode_action decode a =
     map_err (\<lambda>_. HandlerError ''invalid Canvas action payload'') (decode (ac_payload a))"

definition stroke_scope :: "(EntityId \<Rightarrow> string) \<Rightarrow> StrokeId \<Rightarrow> (HandlerError, ExecutionScope) result" where
  "stroke_scope show_id s =
     map_err (\<lambda>_. HandlerError ''invalid Canvas execution scope'')
       (ExecutionScope_new CANVAS_STROKE_EXECUTION_NAMESPACE (show_id (stroke_entity_id s)))"

text \<open>The expansion of \<open>define_handler!\<close> for a payload type and a service method.\<close>

definition stroke_handler ::
  "(EntityId \<Rightarrow> string) \<Rightarrow> (HandlerError, EventDraft list) result \<Rightarrow> (Payload \<Rightarrow> (CanvasError, 'p) result)
     \<Rightarrow> ('p \<Rightarrow> StrokeId) \<Rightarrow> (Action \<Rightarrow> 'p \<Rightarrow> 'w \<Rightarrow> command_result option) \<Rightarrow> 'w ActionHandler" where
  "stroke_handler show_id unwind decode stroke_of run =
     \<lparr>h_validate = (\<lambda>a w. (rbind (decode_action decode a) (\<lambda>_. Inr ()), w)),
      h_execution_scope = (\<lambda>a. rbind (decode_action decode a) (\<lambda>p.
        rbind (stroke_scope show_id (stroke_of p)) (\<lambda>s. Inr (Some s)))),
      h_handle = (\<lambda>a w. (case decode_action decode a of
           Inl e \<Rightarrow> Inl e
         | Inr p \<Rightarrow> (case run a p w of None \<Rightarrow> unwind | Some r \<Rightarrow> map_err handler_error_of r), w))\<rparr>"

definition STROKE_BEGIN_ACTION_TYPE :: string where
  "STROKE_BEGIN_ACTION_TYPE = ''canvas.stroke.begin''"
definition STROKE_APPEND_ACTION_TYPE :: string where
  "STROKE_APPEND_ACTION_TYPE = ''canvas.stroke.append''"
definition STROKE_END_ACTION_TYPE :: string where
  "STROKE_END_ACTION_TYPE = ''canvas.stroke.end''"
definition STROKE_CANCEL_ACTION_TYPE :: string where
  "STROKE_CANCEL_ACTION_TYPE = ''canvas.stroke.cancel''"
definition STROKE_REMOVE_ACTION_TYPE :: string where
  "STROKE_REMOVE_ACTION_TYPE = ''canvas.stroke.remove''"

definition StrokeBeginHandler ::
  "(EntityId \<Rightarrow> string) \<Rightarrow> (HandlerError, EventDraft list) result \<Rightarrow> 'w CanvasCommandService \<Rightarrow> 'w ActionHandler" where
  "StrokeBeginHandler show_id unwind svc =
     stroke_handler show_id unwind (decode_begin (svc_serde svc)) sb_stroke_id
       (\<lambda>a p w. Some (service_begin svc a p w))"

definition StrokeAppendHandler ::
  "(EntityId \<Rightarrow> string) \<Rightarrow> (HandlerError, EventDraft list) result \<Rightarrow> 'w CanvasCommandService \<Rightarrow> 'w ActionHandler" where
  "StrokeAppendHandler show_id unwind svc =
     stroke_handler show_id unwind (decode_append (svc_serde svc)) sa_stroke_id (service_append svc)"

definition StrokeEndHandler ::
  "(EntityId \<Rightarrow> string) \<Rightarrow> (HandlerError, EventDraft list) result \<Rightarrow> 'w CanvasCommandService \<Rightarrow> 'w ActionHandler" where
  "StrokeEndHandler show_id unwind svc =
     stroke_handler show_id unwind (decode_end (svc_serde svc)) se_stroke_id (service_end svc)"

definition StrokeCancelHandler ::
  "(EntityId \<Rightarrow> string) \<Rightarrow> (HandlerError, EventDraft list) result \<Rightarrow> 'w CanvasCommandService \<Rightarrow> 'w ActionHandler" where
  "StrokeCancelHandler show_id unwind svc =
     stroke_handler show_id unwind (decode_cancel (svc_serde svc)) sc_stroke_id (service_cancel svc)"

definition StrokeRemoveHandler ::
  "(EntityId \<Rightarrow> string) \<Rightarrow> (HandlerError, EventDraft list) result \<Rightarrow> 'w CanvasCommandService \<Rightarrow> 'w ActionHandler" where
  "StrokeRemoveHandler show_id unwind svc =
     stroke_handler show_id unwind (decode_remove (svc_serde svc)) sr_stroke_id
       (\<lambda>a p w. Some (service_remove svc a p w))"

definition canvas_handlers ::
  "(EntityId \<Rightarrow> string) \<Rightarrow> (HandlerError, EventDraft list) result \<Rightarrow> 'w CanvasCommandService
     \<Rightarrow> (ActionType \<times> 'w ActionHandler) list" where
  "canvas_handlers show_id unwind svc =
     [(ActionType STROKE_BEGIN_ACTION_TYPE, StrokeBeginHandler show_id unwind svc),
      (ActionType STROKE_APPEND_ACTION_TYPE, StrokeAppendHandler show_id unwind svc),
      (ActionType STROKE_END_ACTION_TYPE, StrokeEndHandler show_id unwind svc),
      (ActionType STROKE_CANCEL_ACTION_TYPE, StrokeCancelHandler show_id unwind svc),
      (ActionType STROKE_REMOVE_ACTION_TYPE, StrokeRemoveHandler show_id unwind svc)]"

definition register_canvas_handlers ::
  "(EntityId \<Rightarrow> string) \<Rightarrow> (HandlerError, EventDraft list) result \<Rightarrow> 'w CanvasCommandService
     \<Rightarrow> 'w HandlerRegistry \<Rightarrow> (RegistryError, unit) result \<times> 'w HandlerRegistry" where
  "register_canvas_handlers show_id unwind svc =
     register_all registry_register (canvas_handlers show_id unwind svc)"

lemmas action_type_names = STROKE_BEGIN_ACTION_TYPE_def STROKE_APPEND_ACTION_TYPE_def
  STROKE_END_ACTION_TYPE_def STROKE_CANCEL_ACTION_TYPE_def STROKE_REMOVE_ACTION_TYPE_def

lemmas handler_defs = StrokeBeginHandler_def StrokeAppendHandler_def StrokeEndHandler_def
  StrokeCancelHandler_def StrokeRemoveHandler_def stroke_handler_def


section \<open>Lemmas\<close>

text \<open>The five commands under one name.\<close>

datatype canvas_command =
    Begin StrokeBeginPayload
  | Append StrokeAppendPayload
  | End StrokeEndPayload
  | Cancel StrokeCancelPayload
  | Remove StrokeRemovePayload

primrec run_command :: "'w CanvasCommandService \<Rightarrow> Action \<Rightarrow> canvas_command \<Rightarrow> 'w \<Rightarrow> command_result option" where
  "run_command svc a (Begin p) w = Some (service_begin svc a p w)"
| "run_command svc a (Append p) w = service_append svc a p w"
| "run_command svc a (End p) w = service_end svc a p w"
| "run_command svc a (Cancel p) w = service_cancel svc a p w"
| "run_command svc a (Remove p) w = Some (service_remove svc a p w)"

primrec command_canvas :: "canvas_command \<Rightarrow> CanvasId" where
  "command_canvas (Begin p) = sb_canvas_id p"
| "command_canvas (Append p) = sa_canvas_id p"
| "command_canvas (End p) = se_canvas_id p"
| "command_canvas (Cancel p) = sc_canvas_id p"
| "command_canvas (Remove p) = sr_canvas_id p"

primrec command_stroke :: "canvas_command \<Rightarrow> StrokeId" where
  "command_stroke (Begin p) = sb_stroke_id p"
| "command_stroke (Append p) = sa_stroke_id p"
| "command_stroke (End p) = se_stroke_id p"
| "command_stroke (Cancel p) = sc_stroke_id p"
| "command_stroke (Remove p) = sr_stroke_id p"

primrec command_survives :: "canvas_serde \<Rightarrow> canvas_command \<Rightarrow> bool" where
  "command_survives S (Begin p) = survives (cs_begin S) (cs_payload S) p"
| "command_survives S (Append p) = survives (cs_append S) (cs_payload S) p"
| "command_survives S (End p) = survives (cs_end S) (cs_payload S) p"
| "command_survives S (Cancel p) = survives (cs_cancel S) (cs_payload S) p"
| "command_survives S (Remove p) = survives (cs_remove S) (cs_payload S) p"

text \<open>The floating-point fields of a command are finite, as the constructors of its parts ensure.\<close>

definition points_finite :: "CanvasPoint list \<Rightarrow> bool" where
  "points_finite ps \<longleftrightarrow> list_all (\<lambda>p. f64_is_finite (pt_x p) \<and> f64_is_finite (pt_y p)) ps"

fun command_finite :: "canvas_command \<Rightarrow> bool" where
  "command_finite (Begin p) \<longleftrightarrow> points_finite (sb_points p) \<and> f64_is_finite (style_width (sb_style p))"
| "command_finite (Append p) \<longleftrightarrow> points_finite (sa_points p)"
| "command_finite _ \<longleftrightarrow> True"

text \<open>An event made from a draft of an action, as \<open>Runtime::execute\<close> makes it.\<close>

definition stamped :: "Action \<Rightarrow> EventDraft \<Rightarrow> Event \<Rightarrow> bool" where
  "stamped a d e \<longleftrightarrow> ev_event_type e = draft_event_type d \<and> ev_payload e = draft_payload d
     \<and> ev_session_id e = ac_session_id a \<and> ev_actor_id e = ac_actor_id a"

lemma event_draft_ok:
  "event_draft t r = Inr ds \<longleftrightarrow> (\<exists>p. r = Inr p
     \<and> ds = [\<lparr>draft_event_type = EventType t, draft_payload = p, draft_metadata = metadata_new\<rparr>])"
  by (auto simp: event_draft_def result_simps)

lemma load_canvas_ok:
  "load_canvas svc a c w = Inr d \<longleftrightarrow> svc_get_canvas svc c w = Inr (Some d) \<and> cd_session_id d = ac_session_id a"
  by (auto simp: load_canvas_def result_simps split: if_splits)

lemma load_stroke_ok: "load_stroke svc a c s w = Inr po \<longleftrightarrow> svc_load_stroke svc (ac_session_id a) c s w = Inr po"
  by (simp add: load_stroke_def)

lemma load_required_stroke_ok:
  "load_required_stroke svc a c s w = Inr p \<longleftrightarrow> svc_load_stroke svc (ac_session_id a) c s w = Inr (Some p)"
  by (auto simp: load_required_stroke_def load_stroke_ok result_simps)

lemma projection_identity_ok:
  "validate_projection_identity p a c s = Inr () \<longleftrightarrow>
     sj_session_id p = ac_session_id a \<and> sj_canvas_id p = c \<and> sj_stroke_id p = s"
  by (auto simp: validate_projection_identity_def)

lemma validate_layer_ok: "validate_layer d l = Inr () \<longleftrightarrow> contains_layer d l"
  by (simp add: validate_layer_def)

lemma validate_points_ok: "validate_points d ps = Inr () \<longleftrightarrow> (\<forall>p \<in> set ps. validate_point (cd_space d) p = Inr ())"
  by (induction ps) (auto simp: result_simps)

lemma validate_final_index_ok:
  "validate_final_index k p i = Some (Inr ()) \<longleftrightarrow> last_chunk_index p = Some i"
  by (auto simp: validate_final_index_def split: option.splits)

lemma lifecycle_case_eq:
  "(case l of Active \<Rightarrow> x1 | Completed \<Rightarrow> x2 | Cancelled \<Rightarrow> x3 | Removed \<Rightarrow> x4) = y \<longleftrightarrow>
     l = Active \<and> x1 = y \<or> l = Completed \<and> x2 = y \<or> l = Cancelled \<and> x3 = y \<or> l = Removed \<and> x4 = y"
  by (cases l) auto

lemmas command_simps = lifecycle_case_eq event_draft_ok load_canvas_ok load_stroke_ok load_required_stroke_ok
  projection_identity_ok validate_layer_ok validate_final_index_ok

lemma kind_names [simp]:
  "kind_from_event_type (EventType STROKE_BEGAN_EVENT_TYPE) = Some StrokeBegan"
  "kind_from_event_type (EventType STROKE_POINTS_APPENDED_EVENT_TYPE) = Some StrokePointsAppended"
  "kind_from_event_type (EventType STROKE_COMPLETED_EVENT_TYPE) = Some StrokeCompleted"
  "kind_from_event_type (EventType STROKE_CANCELLED_EVENT_TYPE) = Some StrokeCancelled"
  "kind_from_event_type (EventType STROKE_REMOVED_EVENT_TYPE) = Some StrokeRemoved"
  by (simp_all add: kind_from_event_type_def event_type_names)

text \<open>The data of an event stamped from an encoded payload.\<close>

lemma stamped_data:
  assumes "stamped a \<lparr>draft_event_type = EventType t, draft_payload = x, draft_metadata = m\<rparr> e"
  shows "ev_event_type e = EventType t" "ev_payload e = x" "ev_session_id e = ac_session_id a"
    "ev_actor_id e = ac_actor_id a"
  using assms by (simp_all add: stamped_def)

lemma data_begin:
  "ev_event_type e = EventType STROKE_BEGAN_EVENT_TYPE \<Longrightarrow> survives (cs_begin S) (cs_payload S) p \<Longrightarrow>
   encode_begin S p = Inr (ev_payload e) \<Longrightarrow> event_data_of S e = Inr (BeganData p)"
  by (simp add: event_data_of_def encode_decode)

lemma data_append:
  "ev_event_type e = EventType STROKE_POINTS_APPENDED_EVENT_TYPE \<Longrightarrow> survives (cs_append S) (cs_payload S) p \<Longrightarrow>
   encode_append S p = Inr (ev_payload e) \<Longrightarrow> event_data_of S e = Inr (PointsAppendedData p)"
  by (simp add: event_data_of_def encode_decode)

lemma data_end:
  "ev_event_type e = EventType STROKE_COMPLETED_EVENT_TYPE \<Longrightarrow> survives (cs_end S) (cs_payload S) p \<Longrightarrow>
   encode_end S p = Inr (ev_payload e) \<Longrightarrow> event_data_of S e = Inr (CompletedData p)"
  by (simp add: event_data_of_def encode_decode)

lemma data_cancel:
  "ev_event_type e = EventType STROKE_CANCELLED_EVENT_TYPE \<Longrightarrow> survives (cs_cancel S) (cs_payload S) p \<Longrightarrow>
   encode_cancel S p = Inr (ev_payload e) \<Longrightarrow> event_data_of S e = Inr (CancelledData p)"
  by (simp add: event_data_of_def encode_decode)

lemma data_remove:
  "ev_event_type e = EventType STROKE_REMOVED_EVENT_TYPE \<Longrightarrow> survives (cs_remove S) (cs_payload S) p \<Longrightarrow>
   encode_remove S p = Inr (ev_payload e) \<Longrightarrow> event_data_of S e = Inr (RemovedData p)"
  by (simp add: event_data_of_def encode_decode)

lemma encode_valid: "encode_payload S P validate x = Inr p \<Longrightarrow> validate x = Inr ()"
  by (auto simp: encode_payload_def result_simps)

lemma service_begin_emits:
  "service_begin svc a p w = Inr (d # ds) \<longleftrightarrow>
     ds = [] \<and> draft_event_type d = EventType STROKE_BEGAN_EVENT_TYPE \<and> draft_metadata d = metadata_new
     \<and> encode_begin (svc_serde svc) p = Inr (draft_payload d)
     \<and> svc_load_stroke svc (ac_session_id a) (sb_canvas_id p) (sb_stroke_id p) w = Inr None
     \<and> (\<exists>c. svc_get_canvas svc (sb_canvas_id p) w = Inr (Some c) \<and> cd_session_id c = ac_session_id a
          \<and> contains_layer c (sb_layer_id p) \<and> validate_points c (sb_points p) = Inr ())"
  by (cases d) (auto simp: service_begin_def command_simps result_simps split: option.splits if_splits)

lemma next_index_unique:
  fixes i l :: u64
  assumes "l < i" "checked_add l 1 = Some n" "\<not> n < i"
  shows "i = n"
proof -
  have "unat n = unat l + 1" using checked_add_unat [OF assms(2)] by simp
  with assms(1,3) show ?thesis by (simp add: word_less_nat_alt word_unat_eq_iff)
qed

lemma service_append_emits:
  "service_append svc a p w = Some (Inr (d # ds)) \<Longrightarrow>
     ds = [] \<and> draft_event_type d = EventType STROKE_POINTS_APPENDED_EVENT_TYPE
     \<and> encode_append (svc_serde svc) p = Inr (draft_payload d)
     \<and> (\<exists>c. svc_get_canvas svc (sa_canvas_id p) w = Inr (Some c) \<and> cd_session_id c = ac_session_id a
          \<and> validate_points c (sa_points p) = Inr ())
     \<and> (\<exists>q. svc_load_stroke svc (ac_session_id a) (sa_canvas_id p) (sa_stroke_id p) w = Inr (Some q)
          \<and> sj_session_id q = ac_session_id a \<and> sj_canvas_id q = sa_canvas_id p
          \<and> sj_stroke_id q = sa_stroke_id p \<and> sj_lifecycle q = Active
          \<and> next_chunk_index q = Some (Some (sa_chunk_index p)))"
  by (cases d)
    (auto simp: service_append_def command_simps result_simps next_chunk_index_def not_le
      dest: next_index_unique split: option.splits if_splits)

lemma service_end_emits:
  "service_end svc a p w = Some (Inr (d # ds)) \<longleftrightarrow>
     ds = [] \<and> draft_event_type d = EventType STROKE_COMPLETED_EVENT_TYPE \<and> draft_metadata d = metadata_new
     \<and> encode_end (svc_serde svc) p = Inr (draft_payload d)
     \<and> (\<exists>c. svc_get_canvas svc (se_canvas_id p) w = Inr (Some c) \<and> cd_session_id c = ac_session_id a)
     \<and> (\<exists>q. svc_load_stroke svc (ac_session_id a) (se_canvas_id p) (se_stroke_id p) w = Inr (Some q)
          \<and> sj_session_id q = ac_session_id a \<and> sj_canvas_id q = se_canvas_id p
          \<and> sj_stroke_id q = se_stroke_id p \<and> sj_lifecycle q = Active
          \<and> last_chunk_index q = Some (se_final_chunk_index p))"
  by (cases d) (auto simp: service_end_def command_simps result_simps)

lemma service_cancel_emits:
  "service_cancel svc a p w = Some (Inr (d # ds)) \<longleftrightarrow>
     ds = [] \<and> draft_event_type d = EventType STROKE_CANCELLED_EVENT_TYPE \<and> draft_metadata d = metadata_new
     \<and> encode_cancel (svc_serde svc) p = Inr (draft_payload d)
     \<and> (\<exists>c. svc_get_canvas svc (sc_canvas_id p) w = Inr (Some c) \<and> cd_session_id c = ac_session_id a)
     \<and> (\<exists>q. svc_load_stroke svc (ac_session_id a) (sc_canvas_id p) (sc_stroke_id p) w = Inr (Some q)
          \<and> sj_session_id q = ac_session_id a \<and> sj_canvas_id q = sc_canvas_id p
          \<and> sj_stroke_id q = sc_stroke_id p \<and> sj_lifecycle q = Active
          \<and> last_chunk_index q = Some (sc_final_chunk_index p))"
  by (cases d) (auto simp: service_cancel_def command_simps result_simps)

lemma service_remove_emits:
  "service_remove svc a p w = Inr (d # ds) \<longleftrightarrow>
     ds = [] \<and> draft_event_type d = EventType STROKE_REMOVED_EVENT_TYPE \<and> draft_metadata d = metadata_new
     \<and> encode_remove (svc_serde svc) p = Inr (draft_payload d)
     \<and> (\<exists>c. svc_get_canvas svc (sr_canvas_id p) w = Inr (Some c) \<and> cd_session_id c = ac_session_id a)
     \<and> (\<exists>q. svc_load_stroke svc (ac_session_id a) (sr_canvas_id p) (sr_stroke_id p) w = Inr (Some q)
          \<and> sj_session_id q = ac_session_id a \<and> sj_canvas_id q = sr_canvas_id p
          \<and> sj_stroke_id q = sr_stroke_id p \<and> sj_lifecycle q = Completed)"
  by (cases d) (auto simp: service_remove_def command_simps result_simps)

lemma apply_began:
  assumes "event_data_of S e = Inr (BeganData b)"
  shows "\<exists>q. apply_event S None e = Some (Inr q) \<and> began S e b q"
  using assms event_data_began_valid [OF assms]
  by (auto simp: apply_event_None began_def begin_validate_ok)

lemma apply_appended:
  assumes "event_data_of S e = Inr (PointsAppendedData p)" "ev_session_id e = sj_session_id q"
    "sa_canvas_id p = sj_canvas_id q" "sa_stroke_id p = sj_stroke_id q" "sj_lifecycle q = Active"
    "next_chunk_index q = Some (Some (sa_chunk_index p))"
  shows "apply_event S (Some q) e = Some (Inr (q\<lparr>sj_chunks := sj_chunks q @
     [\<lparr>ck_index = sa_chunk_index p, ck_points = sa_points p\<rparr>]\<rparr>))"
  using assms event_data_appended_valid [OF assms(1)]
  by (simp add: apply_event_def projector_defs append_validate_ok)

lemma apply_terminal_ok:
  assumes "ev_session_id e = sj_session_id q" "c = sj_canvas_id q" "s = sj_stroke_id q"
    "sj_lifecycle q = Active" "last_chunk_index q = Some i"
  shows "apply_terminal (Some q) e c s i l = Some (Inr (q\<lparr>sj_lifecycle := l\<rparr>))"
  using assms by (simp add: projector_defs)

text \<open>The stroke that results from a command, if it emits an event.\<close>

primrec command_effect :: "canvas_command \<Rightarrow> StrokeProjection option \<Rightarrow> StrokeProjection \<Rightarrow> bool" where
  "command_effect (Begin p) po q \<longleftrightarrow> po = None \<and> sj_chunks q = [\<lparr>ck_index = 0, ck_points = sb_points p\<rparr>]
     \<and> sj_lifecycle q = Active \<and> sj_layer_id q = sb_layer_id p \<and> sj_tool q = sb_tool p \<and> sj_style q = sb_style p"
| "command_effect (Append p) po q \<longleftrightarrow> (\<exists>r. po = Some r \<and> q = r\<lparr>sj_chunks := sj_chunks r @
     [\<lparr>ck_index = sa_chunk_index p, ck_points = sa_points p\<rparr>]\<rparr>)"
| "command_effect (End p) po q \<longleftrightarrow> (\<exists>r. po = Some r \<and> q = r\<lparr>sj_lifecycle := Completed\<rparr>)"
| "command_effect (Cancel p) po q \<longleftrightarrow> (\<exists>r. po = Some r \<and> q = r\<lparr>sj_lifecycle := Cancelled\<rparr>)"
| "command_effect (Remove p) po q \<longleftrightarrow> (\<exists>r. po = Some r \<and> q = r\<lparr>sj_lifecycle := Removed\<rparr>)"

lemma emitted_accepted:
  assumes run: "run_command svc a cmd w = Some (Inr (d # ds))"
    and surv: "command_survives (svc_serde svc) cmd" and e: "stamped a d e"
    and reader: "svc_load_stroke svc (ac_session_id a) (command_canvas cmd) (command_stroke cmd) w = Inr po"
  shows "\<exists>q. apply_event (svc_serde svc) po e = Some (Inr q) \<and> command_effect cmd po q
     \<and> sj_session_id q = ac_session_id a \<and> sj_canvas_id q = command_canvas cmd \<and> sj_stroke_id q = command_stroke cmd
     \<and> (po = None \<longrightarrow> sj_creator_actor_id q = ac_actor_id a)"
proof (cases cmd)
  case (Begin p)
  with run have b: "service_begin svc a p w = Inr (d # ds)" by simp
  from b have enc: "encode_begin (svc_serde svc) p = Inr (ev_payload e)" and po: "po = None"
    using e reader Begin by (simp_all add: service_begin_emits stamped_def)
  have data: "event_data_of (svc_serde svc) e = Inr (BeganData p)"
    using data_begin [OF _ _ enc] b e surv Begin by (simp add: service_begin_emits stamped_def)
  from apply_began [OF data] encode_valid [OF enc] po e Begin show ?thesis
    by (auto simp: began_def stamped_def begin_validate_ok)
next
  case (Append p)
  with run have b: "service_append svc a p w = Some (Inr (d # ds))" by simp
  from service_append_emits [OF b] e reader Append obtain q where
    q: "po = Some q" "sj_session_id q = ac_session_id a" "sj_canvas_id q = sa_canvas_id p"
      "sj_stroke_id q = sa_stroke_id p" "sj_lifecycle q = Active"
      "next_chunk_index q = Some (Some (sa_chunk_index p))"
    and enc: "encode_append (svc_serde svc) p = Inr (ev_payload e)"
      "ev_event_type e = EventType STROKE_POINTS_APPENDED_EVENT_TYPE"
    by (auto simp: stamped_def)
  from apply_appended [OF data_append [OF enc(2) _ enc(1)], of q] q e surv Append show ?thesis
    by (auto simp: stamped_def)
next
  case (End p)
  with run have b: "service_end svc a p w = Some (Inr (d # ds))" by simp
  with e surv End have "event_data_of (svc_serde svc) e = Inr (CompletedData p)"
    by (intro data_end) (auto simp: service_end_emits stamped_def)
  with b e reader End show ?thesis
    by (auto simp: service_end_emits stamped_def apply_event_def apply_terminal_ok)
next
  case (Cancel p)
  with run have b: "service_cancel svc a p w = Some (Inr (d # ds))" by simp
  with e surv Cancel have "event_data_of (svc_serde svc) e = Inr (CancelledData p)"
    by (intro data_cancel) (auto simp: service_cancel_emits stamped_def)
  with b e reader Cancel show ?thesis
    by (auto simp: service_cancel_emits stamped_def apply_event_def apply_terminal_ok)
next
  case (Remove p)
  with run have b: "service_remove svc a p w = Inr (d # ds)" by simp
  with e surv Remove have "event_data_of (svc_serde svc) e = Inr (RemovedData p)"
    by (intro data_remove) (auto simp: service_remove_emits stamped_def)
  with b e reader Remove show ?thesis
    by (auto simp: service_remove_emits stamped_def apply_event_def projector_defs)
qed

lemma emits_at_most_one: "run_command svc a cmd w = Some (Inr ds) \<Longrightarrow> ds = [] \<or> (\<exists>d. ds = [d])"
  by (cases cmd; cases ds)
    (auto simp: service_begin_emits service_end_emits service_cancel_emits service_remove_emits
      dest: service_append_emits)

lemma emitted_canvas:
  "run_command svc a cmd w = Some (Inr (d # ds)) \<Longrightarrow>
     \<exists>c. svc_get_canvas svc (command_canvas cmd) w = Inr (Some c) \<and> cd_session_id c = ac_session_id a"
  by (cases cmd)
    (auto simp: service_begin_emits service_end_emits service_cancel_emits service_remove_emits
      dest: service_append_emits)

lemma retry_empty:
  assumes run: "run_command svc a cmd w = Some (Inr (d # ds))"
    and q: "command_effect cmd po q" "stroke_inv q" "sj_session_id q = ac_session_id a"
      "sj_canvas_id q = command_canvas cmd" "sj_stroke_id q = command_stroke cmd"
      "po = None \<longrightarrow> sj_creator_actor_id q = ac_actor_id a"
    and reader: "svc_load_stroke svc (ac_session_id a) (command_canvas cmd) (command_stroke cmd) w = Inr po"
    and later: "svc_load_stroke svc (ac_session_id a) (command_canvas cmd) (command_stroke cmd) w' = Inr (Some q)"
      "svc_get_canvas svc (command_canvas cmd) w' = svc_get_canvas svc (command_canvas cmd) w"
    and fin: "command_finite cmd"
  shows "run_command svc a cmd w' = Some (Inr [])"
proof (cases cmd)
  case (Begin p)
  have "projection_chunk q 0 = Some \<lparr>ck_index = 0, ck_points = sb_points p\<rparr>"
    using projection_chunk_inv [OF q(2), of 0] q(1) Begin by simp
  moreover have "points_eq (sb_points p) (sb_points p)" "style_eq (sb_style p) (sb_style p)"
    using fin Begin points_eq_refl by (auto simp: points_finite_def list_all_iff style_eq_def)
  ultimately show ?thesis
    using run q later Begin
    by (auto simp: service_begin_def [of _ _ _ w'] service_begin_emits load_canvas_ok validate_layer_ok
        load_stroke_ok projection_identity_ok intro!: rbind_Inr)
      (auto simp: rbind_eq_Inr load_canvas_ok validate_layer_ok load_stroke_ok projection_identity_ok)
next
  case (Append p)
  then obtain r where r: "po = Some r" "q = r\<lparr>sj_chunks := sj_chunks r @
     [\<lparr>ck_index = sa_chunk_index p, ck_points = sa_points p\<rparr>]\<rparr>" using q(1) by auto
  have last: "last_chunk_index q = Some (sa_chunk_index p)" by (simp add: r(2) last_chunk_index_def)
  have "unat (sa_chunk_index p) = length (sj_chunks r)"
    using last_chunk_index_inv [OF q(2)] last by (simp add: r(2))
  then have "projection_chunk q (sa_chunk_index p) = Some \<lparr>ck_index = sa_chunk_index p, ck_points = sa_points p\<rparr>"
    using projection_chunk_inv [OF q(2), of "sa_chunk_index p"] by (simp add: r(2) nth_append)
  moreover have "points_eq (sa_points p) (sa_points p)"
    using fin Append points_eq_refl by (auto simp: points_finite_def list_all_iff)
  ultimately show ?thesis
    using emitted_canvas [OF run] q later last Append
    by (auto simp: service_append_def obind_eq_Inr load_canvas_ok load_required_stroke_ok projection_identity_ok)
next
  case (End p)
  with run reader q(1) have "last_chunk_index q = Some (se_final_chunk_index p)"
    by (auto simp: service_end_emits last_chunk_index_def)
  with emitted_canvas [OF run] q later End show ?thesis
    by (auto simp: service_end_def obind_eq_Inr command_simps)
next
  case (Cancel p)
  with run reader q(1) have "last_chunk_index q = Some (sc_final_chunk_index p)"
    by (auto simp: service_cancel_emits last_chunk_index_def)
  with emitted_canvas [OF run] q later Cancel show ?thesis
    by (auto simp: service_cancel_def obind_eq_Inr command_simps)
next
  case (Remove p)
  with emitted_canvas [OF run] q later show ?thesis
    by (auto simp: service_remove_def rbind_eq_Inr command_simps)
qed

lemma run_command_no_panic:
  assumes "\<And>q. svc_load_stroke svc (ac_session_id a) (command_canvas cmd) (command_stroke cmd) w = Inr (Some q)
    \<Longrightarrow> stroke_inv q"
  shows "run_command svc a cmd w \<noteq> None"
proof -
  have total: "\<exists>l n. last_chunk_index q = Some l \<and> next_chunk_index q = Some n"
    if "svc_load_stroke svc (ac_session_id a) (command_canvas cmd) (command_stroke cmd) w = Inr (Some q)" for q
    using assms [OF that] last_chunk_index_inv next_chunk_index_inv by blast
  have final: "validate_final_index k q i \<noteq> None"
    if "svc_load_stroke svc (ac_session_id a) (command_canvas cmd) (command_stroke cmd) w = Inr (Some q)" for k q i
    using total [OF that] by (auto simp: validate_final_index_def)
  show ?thesis
  proof (cases cmd)
    case (Append p)
    show ?thesis
    proof (cases "svc_load_stroke svc (ac_session_id a) (sa_canvas_id p) (sa_stroke_id p) w = Inr None
        \<or> (\<exists>e. svc_load_stroke svc (ac_session_id a) (sa_canvas_id p) (sa_stroke_id p) w = Inl e)")
      case True
      with Append show ?thesis by (auto simp: service_append_def obind_eq_None load_required_stroke_ok)
    next
      case False
      then obtain q where q: "svc_load_stroke svc (ac_session_id a) (sa_canvas_id p) (sa_stroke_id p) w = Inr (Some q)"
        by (metis not_None_eq obj_sumE)
      with total Append obtain l n where "last_chunk_index q = Some l" "next_chunk_index q = Some n" by fastforce
      with Append q show ?thesis
        by (cases n) (auto simp: service_append_def obind_eq_None load_required_stroke_ok split: if_splits)
    qed
  qed (use final in \<open>auto simp: service_end_def service_cancel_def obind_eq_None load_required_stroke_ok
      lifecycle_case_eq\<close>)
qed


section \<open>Sample values\<close>

definition sample_descriptor :: CanvasDescriptor where
  "sample_descriptor = \<lparr>cd_canvas_id = CanvasId (EntityId 1), cd_session_id = SessionId (EntityId 1),
     cd_space = \<lparr>sp_width = 0x4059000000000000, sp_height = 0x4059000000000000\<rparr>,
     cd_layer_ids = [LayerId (EntityId 2)], cd_default_layer_id = LayerId (EntityId 2)\<rparr>"

text \<open>The world of the sample service is the current stroke.\<close>

definition sample_service :: "StrokeProjection option CanvasCommandService" where
  "sample_service =
     \<lparr>svc_get_canvas = (\<lambda>c w. Inr (if c = CanvasId (EntityId 1) then Some sample_descriptor else None)),
      svc_load_stroke = (\<lambda>s c k w. Inr w), svc_serde = sample_canvas_serde\<rparr>"

definition append_draft :: EventDraft where
  "append_draft = \<lparr>draft_event_type = EventType STROKE_POINTS_APPENDED_EVENT_TYPE,
     draft_payload = Payload (tagged ''a''), draft_metadata = metadata_new\<rparr>"

lemma sample_validate_points: "validate_points sample_descriptor (sa_points sample_append) = Inr ()"
  by (simp add: sample_append_def sample_descriptor_def validate_point_def f64_lt_def f64_key_def)

lemma sample_encode_append: "encode_append sample_canvas_serde sample_append = Inr (Payload (tagged ''a''))"
  by (simp add: encode_payload_def sample_canvas_serde_def table_serde_def)

lemma sample_survives: "command_survives sample_canvas_serde (Append sample_append)"
  by (simp add: survives_def sample_canvas_serde_def table_serde_def)

lemma sample_append_ids: "sa_canvas_id sample_append = CanvasId (EntityId 1)"
  "sa_stroke_id sample_append = StrokeId (EntityId 3)" "sa_chunk_index sample_append = 1"
  by (simp_all add: sample_append_def)

lemma sample_run_append:
  "run_command sample_service (sample_action 2) (Append sample_append) (Some (sample_stroke [chunk0] Active))
     = Some (Inr [append_draft])"
  using sample_validate_points sample_encode_append
  by (simp add: service_append_def load_canvas_def load_required_stroke_def load_stroke_def
      validate_projection_identity_def sample_service_def sample_append_ids sample_stroke_def
      sample_action_def last_chunk_index_def next_chunk_index_def chunk0_def checked_add_def
      event_draft_def append_draft_def sample_descriptor_def)

lemma sample_stamped:
  "stamped (sample_action 2) append_draft (canvas_event STROKE_POINTS_APPENDED_EVENT_TYPE ''a'')"
  by (simp add: stamped_def append_draft_def canvas_event_def sample_action_def)


section \<open>Properties\<close>

text \<open>C12. Commands and projector agree: whatever a command emits, once stamped with its action, the
  projector accepts on top of the stroke the command was decided on, and the result is the stroke the
  command asks for, in the action's session; a command emits at most one event.\<close>

theorem emitted_event_is_accepted:
  assumes "run_command svc a cmd w = Some (Inr drafts)"
    "svc_load_stroke svc (ac_session_id a) (command_canvas cmd) (command_stroke cmd) w = Inr po"
    "command_survives (svc_serde svc) cmd"
  shows "length drafts \<le> 1
    \<and> (\<forall>d \<in> set drafts. \<forall>e. stamped a d e \<longrightarrow>
        (\<exists>q. apply_event (svc_serde svc) po e = Some (Inr q) \<and> command_effect cmd po q
           \<and> sj_session_id q = ac_session_id a \<and> sj_canvas_id q = command_canvas cmd
           \<and> sj_stroke_id q = command_stroke cmd))"
proof (cases drafts)
  case (Cons d ds)
  with emits_at_most_one [OF assms(1)] have drafts: "drafts = [d]" by auto
  show ?thesis
    using emitted_accepted [OF assms(1) [unfolded drafts] assms(3) _ assms(2)] drafts by auto
qed simp

theorem emitted_event_is_accepted_witness:
  "\<exists>q. apply_event sample_canvas_serde (Some (sample_stroke [chunk0] Active))
      (canvas_event STROKE_POINTS_APPENDED_EVENT_TYPE ''a'') = Some (Inr q)
    \<and> sj_chunks q = [chunk0, \<lparr>ck_index = 1, ck_points = sa_points sample_append\<rparr>]"
proof -
  have "svc_load_stroke sample_service (ac_session_id (sample_action 2)) (command_canvas (Append sample_append))
      (command_stroke (Append sample_append)) (Some (sample_stroke [chunk0] Active))
      = Inr (Some (sample_stroke [chunk0] Active))"
    "command_survives (svc_serde sample_service) (Append sample_append)"
    using sample_survives by (simp_all add: sample_service_def)
  from emitted_event_is_accepted [OF sample_run_append this] sample_stamped show ?thesis
    by (fastforce simp: sample_service_def sample_stroke_def sample_append_ids)
qed

text \<open>C21. Retrying is idempotent: once the event a command emitted is part of the stroke's history, the
  same command for the same action succeeds again and emits nothing.\<close>

theorem retried_command_emits_nothing:
  assumes "run_command svc a cmd w = Some (Inr [d])"
    "svc_load_stroke svc (ac_session_id a) (command_canvas cmd) (command_stroke cmd) w = Inr po"
    "\<And>p. po = Some p \<Longrightarrow> projected (svc_serde svc) h p"
    "command_survives (svc_serde svc) cmd" "command_finite cmd" "stamped a d e"
    "apply_event (svc_serde svc) po e = Some (Inr q)"
    "svc_load_stroke svc (ac_session_id a) (command_canvas cmd) (command_stroke cmd) w' = Inr (Some q)"
    "svc_get_canvas svc (command_canvas cmd) w' = svc_get_canvas svc (command_canvas cmd) w"
  shows "run_command svc a cmd w' = Some (Inr [])"
proof -
  have "stroke_inv q"
    using assms(3,7) stroke_inv_first stroke_inv_more stroke_inv_projected by (cases po) blast+
  with emitted_accepted [OF assms(1,4,6,2)] assms(7) show ?thesis
    by (auto intro: retry_empty [OF assms(1) _ _ _ _ _ _ assms(2,8,9,5)])
qed

theorem retried_command_emits_nothing_witness:
  "run_command sample_service (sample_action 2) (Append sample_append)
     (Some (sample_stroke [chunk0, chunk1] Active)) = Some (Inr [])"
  by (rule retried_command_emits_nothing [OF sample_run_append, where h = "take 1 sample_history"
        and e = "canvas_event STROKE_POINTS_APPENDED_EVENT_TYPE ''a''" and po = "Some (sample_stroke [chunk0] Active)"
        and q = "sample_stroke [chunk0, chunk1] Active"])
    (use sample_projected(1) sample_survives sample_stamped sample_step2 in
      \<open>simp_all add: sample_service_def points_finite_def sample_append_def f64_is_finite_def f64_exponent_def\<close>)

text \<open>Events that add points keep them on the canvas: if a begin or append command emits an event,
  the canvas exists, belongs to the action's session and contains every point of the command.\<close>

theorem emitted_points_lie_on_canvas:
  assumes "run_command svc a cmd w = Some (Inr [d])"
    "cmd = Begin b \<and> ps = sb_points b \<or> cmd = Append p \<and> ps = sa_points p" "command_finite cmd"
    "\<And>c. svc_get_canvas svc (command_canvas cmd) w = Inr (Some c) \<Longrightarrow>
       f64_is_finite (sp_width (cd_space c)) \<and> f64_is_finite (sp_height (cd_space c))"
  shows "\<exists>c. svc_get_canvas svc (command_canvas cmd) w = Inr (Some c) \<and> cd_session_id c = ac_session_id a
    \<and> (\<forall>pt \<in> set ps. space_contains (cd_space c) pt)"
proof -
  have "\<exists>c. svc_get_canvas svc (command_canvas cmd) w = Inr (Some c) \<and> cd_session_id c = ac_session_id a
      \<and> validate_points c ps = Inr ()"
    using assms(1,2) service_append_emits [of svc a p w d "[]"] by (auto simp: service_begin_emits)
  with assms(2-4) show ?thesis
    by (auto simp: validate_points_ok validate_point_contains points_finite_def list_all_iff)
qed

theorem emitted_points_lie_on_canvas_witness:
  "\<exists>c. svc_get_canvas sample_service (CanvasId (EntityId 1)) (Some (sample_stroke [chunk0] Active)) = Inr (Some c)
    \<and> list_all (space_contains (cd_space c)) (sa_points sample_append)"
  using emitted_points_lie_on_canvas [OF sample_run_append, of undefined "sa_points sample_append" sample_append]
  by (auto simp: sample_service_def sample_append_def sample_descriptor_def points_finite_def
      f64_is_finite_def f64_exponent_def)

text \<open>Chunk ordering: on an existing stroke of \<open>n\<close> chunks, an append for an index below \<open>n\<close> is a
  no-op if its points equal the recorded ones and a conflict otherwise, one beyond \<open>n\<close> is refused as
  missing \<open>n\<close>, and one for exactly \<open>n\<close> is refused if the stroke is no longer active and otherwise
  decided by the canvas bounds alone.\<close>

theorem append_by_chunk_index:
  assumes "projected (svc_serde svc) h q" "svc_get_canvas svc (sa_canvas_id p) w = Inr (Some d)"
    "cd_session_id d = ac_session_id a" "length (sj_chunks q) < 2 ^ 64"
    "svc_load_stroke svc (ac_session_id a) (sa_canvas_id p) (sa_stroke_id p) w = Inr (Some q)"
    "sj_session_id q = ac_session_id a" "sj_canvas_id q = sa_canvas_id p" "sj_stroke_id q = sa_stroke_id p"
  shows "service_append svc a p w = Some (
    if unat (sa_chunk_index p) < length (sj_chunks q) then
      (if points_eq (ck_points (sj_chunks q ! unat (sa_chunk_index p))) (sa_points p) then Inr []
       else Inl (DomainViolation (ChunkConflict (sa_stroke_id p) (sa_chunk_index p))))
    else if length (sj_chunks q) < unat (sa_chunk_index p) then
      Inl (DomainViolation (MissingChunk (sa_stroke_id p) (word_of_nat (length (sj_chunks q))) (sa_chunk_index p)))
    else if sj_lifecycle q \<noteq> Active then Inl (DomainViolation (InvalidStrokeState (sj_lifecycle q) Active))
    else rbind (validate_points d (sa_points p)) (\<lambda>_.
           event_draft STROKE_POINTS_APPENDED_EVENT_TYPE (encode_append (svc_serde svc) p)))"
proof -
  have inv: "stroke_inv q" by (rule stroke_inv_projected [OF assms(1)])
  then have ne: "sj_chunks q \<noteq> []" by (simp add: stroke_inv_def)
  obtain l where l: "last_chunk_index q = Some l" "unat l = length (sj_chunks q) - 1"
    using last_chunk_index_inv [OF inv] by blast
  have len: "length (sj_chunks q) = unat l + 1" using l(2) ne by (cases "sj_chunks q") auto
  then have succ: "checked_add l 1 = Some (word_of_nat (length (sj_chunks q)))"
    using assms(4) by (simp add: checked_add_def)
  have le: "sa_chunk_index p \<le> l \<longleftrightarrow> unat (sa_chunk_index p) < length (sj_chunks q)"
    using l(2) ne by (cases "sj_chunks q") (auto simp: word_le_nat_alt)
  have gt: "word_of_nat (length (sj_chunks q)) < sa_chunk_index p \<longleftrightarrow> length (sj_chunks q) < unat (sa_chunk_index p)"
    using assms(4) by (simp add: word_less_nat_alt unat_of_nat)
  show ?thesis
    using assms(2,3,5-8) l(1) succ projection_chunk_inv [OF inv, of "sa_chunk_index p"]
    by (simp add: service_append_def load_canvas_def load_required_stroke_def load_stroke_def
        validate_projection_identity_def next_chunk_index_def invalid_state_def le gt)
qed

theorem append_by_chunk_index_witness:
  "service_append sample_service (sample_action 2) sample_append (Some (sample_stroke [chunk0] Active))
     = Some (Inr [append_draft])"
  using append_by_chunk_index [of sample_service "take 1 sample_history" "sample_stroke [chunk0] Active"
      sample_append "Some (sample_stroke [chunk0] Active)" sample_descriptor "sample_action 2"]
    sample_projected(1) sample_validate_points sample_encode_append
  by (simp add: sample_service_def sample_append_ids sample_stroke_def sample_action_def
      sample_descriptor_def event_draft_def append_draft_def)

text \<open>C35. No command panics as long as the state reader returns projections of histories, so a
  handler's answer never depends on what a panicking task would leave behind.\<close>

theorem canvas_handlers_never_panic:
  assumes "\<And>s c k w q. svc_load_stroke svc s c k w = Inr (Some q) \<Longrightarrow> \<exists>h. projected (svc_serde svc) h q"
  shows "run_command svc a cmd w \<noteq> None
    \<and> canvas_handlers show_id unwind svc = canvas_handlers show_id unwind' svc"
proof -
  have inv: "stroke_inv q" if "svc_load_stroke svc s c k w = Inr (Some q)" for s c k w q
    using assms [OF that] stroke_inv_projected by blast
  have run: "run_command svc a cmd w \<noteq> None" for a cmd w
    by (rule run_command_no_panic) (rule inv)
  have never: "(service_append svc a x w = None) = False" "(service_end svc a y w = None) = False"
    "(service_cancel svc a z w = None) = False" for a x y z w
    using run [of a "Append x" w] run [of a "End y" w] run [of a "Cancel z" w] by auto
  have "canvas_handlers show_id unwind svc = canvas_handlers show_id unwind' svc"
    by (auto simp: canvas_handlers_def handler_defs fun_eq_iff never split: sum.splits option.splits)
  with run show ?thesis by blast
qed

theorem canvas_handlers_never_panic_witness:
  "run_command (sample_service\<lparr>svc_load_stroke := \<lambda>s c k w. Inr (Some (sample_stroke [chunk0] Active))\<rparr>)
     (sample_action 2) (Append sample_append) None \<noteq> None"
proof -
  have "\<exists>h. projected (svc_serde (sample_service\<lparr>svc_load_stroke := \<lambda>s c k w. Inr (Some (sample_stroke [chunk0] Active))\<rparr>)) h q"
    if "svc_load_stroke (sample_service\<lparr>svc_load_stroke := \<lambda>s c k w. Inr (Some (sample_stroke [chunk0] Active))\<rparr>) s c k w = Inr (Some q)"
    for s c k w q
    using that sample_projected(1) by (auto simp: sample_service_def)
  then show ?thesis
    by (rule canvas_handlers_never_panic [THEN conjunct1])
qed

text \<open>Registering the canvas handlers on a registry that has none of the five action types succeeds
  and adds exactly these five; a registered handler of any other type is kept.\<close>

theorem canvas_registration:
  assumes "\<forall>t \<in> fst ` set (canvas_handlers show_id unwind svc). registry_get r t = None"
  shows "fst (register_canvas_handlers show_id unwind svc r) = Inr ()
    \<and> registry_get (snd (register_canvas_handlers show_id unwind svc r))
      = registry_get r ++ map_of (canvas_handlers show_id unwind svc)"
  unfolding register_canvas_handlers_def
  by (rule handler_registry.register_all_fresh [OF _ assms])
    (simp add: canvas_handlers_def action_type_names)

theorem canvas_registration_witness:
  "fst (register_canvas_handlers (\<lambda>i. ''id'') (Inr []) sample_service Map.empty) = Inr ()"
  using canvas_registration [of "\<lambda>i. ''id''" "Inr []" sample_service Map.empty]
  by (simp add: registry_get_def)

end
