(* ===== verification/Canvas_Actions.thy ===== *)
theory Canvas_Actions
  imports Canvas_Service
begin

text \<open>
  Canvas actions end to end: the runtime's lifecycle, the canvas handlers and the stroke projector
  together. The theory has no definitions of the program; it relates those of the three components.
\<close>

section \<open>The command of an action\<close>

definition right :: "('e, 'a) result \<Rightarrow> 'a option" where
  "right r = (case r of Inl _ \<Rightarrow> None | Inr x \<Rightarrow> Some x)"

definition action_command :: "canvas_serde \<Rightarrow> Action \<Rightarrow> canvas_command option" where
  "action_command S a =
     (let t = action_type_str (ac_action_type a); p = ac_payload a in
      if t = STROKE_BEGIN_ACTION_TYPE then map_option Begin (right (decode_begin S p))
      else if t = STROKE_APPEND_ACTION_TYPE then map_option Append (right (decode_append S p))
      else if t = STROKE_END_ACTION_TYPE then map_option End (right (decode_end S p))
      else if t = STROKE_CANCEL_ACTION_TYPE then map_option Cancel (right (decode_cancel S p))
      else if t = STROKE_REMOVE_ACTION_TYPE then map_option Remove (right (decode_remove S p))
      else None)"

lemma right_Some [simp]: "right r = Some x \<longleftrightarrow> r = Inr x"
  by (cases r) (auto simp: right_def)

lemma stroke_handler_handle:
  assumes "h_handle (stroke_handler show_id unwind decode stroke_of run) a w = (Inr drafts, w1)"
  shows "\<exists>p. decode (ac_payload a) = Inr p \<and> w1 = w
    \<and> (run a p w = Some (Inr drafts) \<or> run a p w = None)"
  using assms
  by (auto simp: stroke_handler_def decode_action_def split: sum.splits option.splits)

lemma stroke_handler_scope:
  assumes "h_execution_scope (stroke_handler show_id unwind decode stroke_of run) a = Inr scope"
  shows "\<exists>p. decode (ac_payload a) = Inr p
    \<and> scope = Some \<lparr>scope_namespace = CANVAS_STROKE_EXECUTION_NAMESPACE,
                    scope_key = show_id (stroke_entity_id (stroke_of p))\<rparr>"
  using assms
  by (auto simp: stroke_handler_def decode_action_def stroke_scope_def ExecutionScope_new_def result_simps
      split: if_splits)

lemma canvas_handler_handle:
  assumes "(ac_action_type a, h) \<in> set (canvas_handlers show_id unwind svc)"
    "h_handle h a w = (Inr drafts, w1)"
  shows "\<exists>cmd. action_command (svc_serde svc) a = Some cmd \<and> w1 = w
    \<and> (run_command svc a cmd w = Some (Inr drafts) \<or> run_command svc a cmd w = None)"
  using assms
  by (auto simp: canvas_handlers_def StrokeBeginHandler_def StrokeAppendHandler_def StrokeEndHandler_def
      StrokeCancelHandler_def StrokeRemoveHandler_def action_command_def action_type_names
      dest!: stroke_handler_handle)

lemma canvas_handler_scope:
  assumes "(ac_action_type a, h) \<in> set (canvas_handlers show_id unwind svc)"
    "h_execution_scope h a = Inr scope"
  shows "\<exists>cmd. action_command (svc_serde svc) a = Some cmd
    \<and> scope = Some \<lparr>scope_namespace = CANVAS_STROKE_EXECUTION_NAMESPACE,
                    scope_key = show_id (stroke_entity_id (command_stroke cmd))\<rparr>"
  using assms
  by (auto simp: canvas_handlers_def StrokeBeginHandler_def StrokeAppendHandler_def StrokeEndHandler_def
      StrokeCancelHandler_def StrokeRemoveHandler_def action_command_def action_type_names
      dest!: stroke_handler_scope)

lemma run_command_loads:
  "run_command svc a cmd w = Some (Inr ds) \<Longrightarrow>
     \<exists>po. svc_load_stroke svc (ac_session_id a) (command_canvas cmd) (command_stroke cmd) w = Inr po"
  by (cases cmd)
    (auto simp: service_begin_def service_append_def service_end_def service_cancel_def service_remove_def
      obind_eq_Inr rbind_eq_Inr load_stroke_ok load_required_stroke_ok)

lemma acquire_lease_scoped:
  "acquire_lease rt a (Some sc) w = (Inr lease, w') \<Longrightarrow>
     \<exists>c l. ctx_coordinator (rt_context rt) = Some c \<and> c_acquire c sc w = (Inr l, w') \<and> lease = Some l"
  by (auto simp: acquire_lease_def split: option.splits prod.splits sum.splits)


section \<open>Sample values\<close>

text \<open>A runtime over a canvas with one stroke.\<close>

definition fixed_service :: "unit CanvasCommandService" where
  "fixed_service =
     \<lparr>svc_get_canvas = (\<lambda>c w. Inr (Some sample_descriptor)),
      svc_load_stroke = (\<lambda>s c k w. Inr (Some (sample_stroke [chunk0] Active))),
      svc_serde = sample_canvas_serde\<rparr>"

definition canvas_runtime :: "(unit, unit) Runtime" where
  "canvas_runtime =
     \<lparr>rt_registry = [ActionType STROKE_APPEND_ACTION_TYPE \<mapsto> StrokeAppendHandler (\<lambda>i. ''s'') (Inr []) fixed_service],
      rt_context = with_execution_coordinator
        \<lparr>c_acquire = (\<lambda>sc w. (Inr (), w)), c_release = (\<lambda>l w. w)\<rparr>
        (RuntimeContext_new (\<lambda>w. (Timestamp 5, w)) (\<lambda>a w. (Inr (), w))),
      rt_dispatch = (\<lambda>es w. (Inr (), w)),
      rt_new_event_id = (\<lambda>w. (EventId (EntityId 7), w))\<rparr>"

definition append_action :: Action where
  "append_action = (sample_action 2)\<lparr>ac_action_type := ActionType STROKE_APPEND_ACTION_TYPE,
     ac_payload := Payload (tagged ''a'')\<rparr>"

lemma append_action_command: "action_command sample_canvas_serde append_action = Some (Append sample_append)"
  by (simp add: action_command_def append_action_def action_type_names sample_canvas_serde_def
      table_serde_def decode_payload_def)

lemma append_action_decodes: "decode_append sample_canvas_serde (ac_payload append_action) = Inr sample_append"
  by (simp add: append_action_def sample_canvas_serde_def table_serde_def decode_payload_def)

lemma fixed_run_append: "service_append fixed_service append_action sample_append () = Some (Inr [append_draft])"
  using sample_validate_points sample_encode_append
  by (simp add: service_append_def load_canvas_def load_required_stroke_def load_stroke_def
      validate_projection_identity_def fixed_service_def sample_append_ids sample_stroke_def append_action_def
      sample_action_def last_chunk_index_def next_chunk_index_def chunk0_def checked_add_def
      event_draft_def append_draft_def sample_descriptor_def)

lemma scope_s: "\<not> blank ''s''" "\<not> blank CANVAS_STROKE_EXECUTION_NAMESPACE"
proof -
  have "trim s = s" if "s \<in> {''s'', CANVAS_STROKE_EXECUTION_NAMESPACE}" for s
    using that by (auto intro!: trim_plain simp: white_space_def CANVAS_STROKE_EXECUTION_NAMESPACE_def)
  then show "\<not> blank ''s''" "\<not> blank CANVAS_STROKE_EXECUTION_NAMESPACE"
    by (auto simp: blank_def CANVAS_STROKE_EXECUTION_NAMESPACE_def)
qed

lemma canvas_runtime_executes:
  "\<exists>events. execute canvas_runtime append_action () = (Inr events, ()) \<and> length events = 1"
  using append_action_decodes fixed_run_append scope_s
  by (simp add: execute_defs canvas_runtime_def with_execution_coordinator_def RuntimeContext_new_def
      registry_get_def StrokeAppendHandler_def stroke_handler_def decode_action_def stroke_scope_def
      ExecutionScope_new_def Let_def fixed_service_def [THEN arg_cong [where f = svc_serde]])
    (simp add: append_action_def)


section \<open>Properties\<close>

text \<open>C1. A canvas action that the runtime executes successfully extends the history of its stroke: its
  payload decoded to a command, a lease on that stroke was acquired before the handler ran and released
  at the end, and every dispatched event (there is at most one) is accepted by the projector on the
  stroke the handler read under that lease, with the effect the command asks for.\<close>

theorem canvas_action_extends_stroke:
  assumes run: "execute rt a w = (Inr events, w')"
    and handler: "(ac_action_type a, h) \<in> set (canvas_handlers show_id unwind svc)"
      "registry_get (rt_registry rt) (ac_action_type a) = Some h"
    and reader: "\<And>s c k v q. svc_load_stroke svc s c k v = Inr (Some q) \<Longrightarrow> \<exists>hist. projected (svc_serde svc) hist q"
    and codec: "\<And>cmd. action_command (svc_serde svc) a = Some cmd \<Longrightarrow> command_survives (svc_serde svc) cmd"
  shows "\<exists>cmd c lease w2 w3 w4 po.
    action_command (svc_serde svc) a = Some cmd \<and> ctx_coordinator (rt_context rt) = Some c
    \<and> c_acquire c \<lparr>scope_namespace = CANVAS_STROKE_EXECUTION_NAMESPACE,
                   scope_key = show_id (stroke_entity_id (command_stroke cmd))\<rparr> w2 = (Inr lease, w3)
    \<and> svc_load_stroke svc (ac_session_id a) (command_canvas cmd) (command_stroke cmd) w3 = Inr po
    \<and> length events \<le> 1
    \<and> (\<forall>e \<in> set events. \<exists>q. apply_event (svc_serde svc) po e = Some (Inr q) \<and> command_effect cmd po q)
    \<and> w' = c_release c lease w4"
  using run
proof (cases rule: execute_cases)
  case (leased h' w1 w2 scope lease w3 w4)
  with handler(2) have h: "h' = h" by simp
  from leased(4) canvas_handler_scope [OF handler(1)] h obtain cmd where cmd:
    "action_command (svc_serde svc) a = Some cmd"
    "scope = Some \<lparr>scope_namespace = CANVAS_STROKE_EXECUTION_NAMESPACE,
       scope_key = show_id (stroke_entity_id (command_stroke cmd))\<rparr>" by blast
  obtain c l where c: "ctx_coordinator (rt_context rt) = Some c"
    "c_acquire c \<lparr>scope_namespace = CANVAS_STROKE_EXECUTION_NAMESPACE,
       scope_key = show_id (stroke_entity_id (command_stroke cmd))\<rparr> w2 = (Inr l, w3)" "lease = Some l"
    using acquire_lease_scoped [OF leased(5) [unfolded cmd(2)]] by auto
  from handle_and_dispatch_ok [OF leased(6)] h obtain drafts v1 v2 where
    v: "h_handle h a w3 = (Inr drafts, v1)" "materialise rt a drafts v1 = (events, v2)" by auto
  have "run_command svc a cmd w3 \<noteq> None"
  proof (rule run_command_no_panic)
    fix q
    assume "svc_load_stroke svc (ac_session_id a) (command_canvas cmd) (command_stroke cmd) w3 = Inr (Some q)"
    from reader [OF this] show "stroke_inv q" using stroke_inv_projected by auto
  qed
  with canvas_handler_handle [OF handler(1) v(1)] cmd(1) have ran: "run_command svc a cmd w3 = Some (Inr drafts)"
    by auto
  obtain po where po: "svc_load_stroke svc (ac_session_id a) (command_canvas cmd) (command_stroke cmd) w3 = Inr po"
    using run_command_loads [OF ran] by blast
  have "\<exists>q. apply_event (svc_serde svc) po e = Some (Inr q) \<and> command_effect cmd po q" if "e \<in> set events" for e
  proof -
    from that materialise_drafts [OF v(2)] emits_at_most_one [OF ran] obtain d where
      d: "drafts = [d]" "stamped a d e" by (auto simp: stamped_def)
    from emitted_accepted [OF ran [unfolded d(1)] codec [OF cmd(1)] d(2) po] show ?thesis by blast
  qed
  moreover have "length events \<le> 1"
    using materialise_drafts [OF v(2)] emits_at_most_one [OF ran] by auto
  moreover have "w' = c_release c l w4" using leased(7) c by (simp add: drop_lease_def)
  ultimately show ?thesis using cmd(1) c(1,2) po by fastforce
qed auto

theorem canvas_action_extends_stroke_witness:
  "\<exists>events. execute canvas_runtime append_action () = (Inr events, ()) \<and> length events = 1
     \<and> list_all (\<lambda>e. \<exists>q. apply_event sample_canvas_serde (Some (sample_stroke [chunk0] Active)) e = Some (Inr q)
          \<and> command_effect (Append sample_append) (Some (sample_stroke [chunk0] Active)) q) events"
proof -
  let ?h = "StrokeAppendHandler (\<lambda>i. ''s'') (Inr []) fixed_service"
  obtain events where ex: "execute canvas_runtime append_action () = (Inr events, ())" "length events = 1"
    using canvas_runtime_executes by blast
  have h: "(ac_action_type append_action, ?h) \<in> set (canvas_handlers (\<lambda>i. ''s'') (Inr []) fixed_service)"
    "registry_get (rt_registry canvas_runtime) (ac_action_type append_action) = Some ?h"
    by (simp_all add: canvas_handlers_def append_action_def canvas_runtime_def registry_get_def)
  have reader: "\<exists>hist. projected (svc_serde fixed_service) hist q"
    if "svc_load_stroke fixed_service s c k v = Inr (Some q)" for s c k v q
    using that sample_projected(1) by (auto simp: fixed_service_def)
  have codec: "command_survives (svc_serde fixed_service) cmd"
    if "action_command (svc_serde fixed_service) append_action = Some cmd" for cmd
    using that append_action_command sample_survives by (simp add: fixed_service_def)
  from canvas_action_extends_stroke [OF ex(1) h reader codec] append_action_command ex show ?thesis
    by (auto simp: fixed_service_def list_all_iff)
qed

end
