(* ===== verification/Node_Model.thy ===== *)
theory Node_Model
  imports Core_Model
begin

text \<open>
  \<open>orbitrelay-node\<close>: node descriptions, their validation and the in-memory registry. The registry's
  \<open>RwLock\<close> is poisoned when a thread panics while it holds the write guard; the flag is part of the
  state, so the error branch of both lock helpers is in the model.
\<close>

section \<open>Nodes\<close>

datatype NodeId = NodeId EntityId

primrec as_entity_id :: "NodeId \<Rightarrow> EntityId" where
  "as_entity_id (NodeId i) = i"

instantiation NodeId :: linorder
begin

definition less_eq_NodeId :: "NodeId \<Rightarrow> NodeId \<Rightarrow> bool" where
  "less_eq_NodeId a b \<longleftrightarrow> as_entity_id a \<le> as_entity_id b"

definition less_NodeId :: "NodeId \<Rightarrow> NodeId \<Rightarrow> bool" where
  "less_NodeId a b \<longleftrightarrow> as_entity_id a < as_entity_id b"

instance
proof
  fix a b :: NodeId
  show "a \<le> b \<Longrightarrow> b \<le> a \<Longrightarrow> a = b"
    by (cases a; cases b) (simp add: less_eq_NodeId_def)
qed (auto simp: less_eq_NodeId_def less_NodeId_def)

end

datatype Capability = Capability string

primrec capability_str :: "Capability \<Rightarrow> string" where
  "capability_str (Capability s) = s"

instantiation Capability :: linorder
begin

definition less_eq_Capability :: "Capability \<Rightarrow> Capability \<Rightarrow> bool" where
  "less_eq_Capability a b \<longleftrightarrow> capability_str a \<le> capability_str b"

definition less_Capability :: "Capability \<Rightarrow> Capability \<Rightarrow> bool" where
  "less_Capability a b \<longleftrightarrow> capability_str a < capability_str b"

instance
proof
  fix a b :: Capability
  show "a \<le> b \<Longrightarrow> b \<le> a \<Longrightarrow> a = b"
    by (cases a; cases b) (simp add: less_eq_Capability_def)
qed (auto simp: less_eq_Capability_def less_Capability_def)

end

datatype NodeState = Starting | Ready | Draining | Offline

datatype NodeError =
    InvalidNode string
  | RegistryUnavailable string
  | RegistryFailure string

record Node =
  node_id :: NodeId
  node_metadata :: Metadata
  node_state :: NodeState
  node_capabilities :: "Capability btree_set"

definition Node_new :: "NodeId \<Rightarrow> Metadata \<Rightarrow> NodeState \<Rightarrow> Capability list \<Rightarrow> Node" where
  "Node_new i m s cs =
     \<lparr>node_id = i, node_metadata = m, node_state = s, node_capabilities = btree_set_of cs\<rparr>"

definition bad_capability :: "Capability \<Rightarrow> bool" where
  "bad_capability c \<longleftrightarrow> blank (capability_str c) \<or> trim (capability_str c) \<noteq> capability_str c"

definition Node_validate :: "Node \<Rightarrow> (NodeError, unit) result" where
  "Node_validate n =
     (case find bad_capability (node_capabilities n) of
        Some c \<Rightarrow> Inl (InvalidNode (''capability `'' @ capability_str c @
          ''` must be non-empty and contain no surrounding whitespace''))
      | None \<Rightarrow> Inr ())"


section \<open>The in-memory registry\<close>

record MemoryNodeRegistry =
  nr_nodes :: "(NodeId, Node) btree_map"
  nr_poisoned :: bool

definition MemoryNodeRegistry_new :: MemoryNodeRegistry where
  "MemoryNodeRegistry_new = \<lparr>nr_nodes = [], nr_poisoned = False\<rparr>"

definition read_nodes :: "MemoryNodeRegistry \<Rightarrow> (NodeError, (NodeId, Node) btree_map) result" where
  "read_nodes r =
     (if nr_poisoned r then Inl (RegistryFailure ''memory registry read lock is poisoned'')
      else Inr (nr_nodes r))"

definition write_nodes ::
  "((NodeId, Node) btree_map \<Rightarrow> (NodeId, Node) btree_map) \<Rightarrow> MemoryNodeRegistry
     \<Rightarrow> (NodeError, unit) result \<times> MemoryNodeRegistry" where
  "write_nodes f r =
     (if nr_poisoned r then (Inl (RegistryFailure ''memory registry write lock is poisoned''), r)
      else (Inr (), r\<lparr>nr_nodes := f (nr_nodes r)\<rparr>))"

definition node_register :: "Node \<Rightarrow> MemoryNodeRegistry \<Rightarrow> (NodeError, unit) result \<times> MemoryNodeRegistry" where
  "node_register n r =
     (case Node_validate n of
        Inl e \<Rightarrow> (Inl e, r)
      | Inr _ \<Rightarrow> write_nodes (btree_insert (node_id n) n) r)"

definition node_unregister :: "NodeId \<Rightarrow> MemoryNodeRegistry \<Rightarrow> (NodeError, unit) result \<times> MemoryNodeRegistry" where
  "node_unregister i r = write_nodes (btree_remove i) r"

definition node_get :: "NodeId \<Rightarrow> MemoryNodeRegistry \<Rightarrow> (NodeError, Node option) result" where
  "node_get i r = rbind (read_nodes r) (\<lambda>m. Inr (btree_get m i))"

definition node_list :: "MemoryNodeRegistry \<Rightarrow> (NodeError, Node list) result" where
  "node_list r = rbind (read_nodes r) (\<lambda>m. Inr (map snd m))"

lemmas node_defs = read_nodes_def write_nodes_def node_register_def node_unregister_def
  node_get_def node_list_def


section \<open>Specification: a finite map of valid nodes\<close>

datatype node_op = Register Node | Unregister NodeId

primrec run_node_op :: "node_op \<Rightarrow> MemoryNodeRegistry \<Rightarrow> (NodeError, unit) result \<times> MemoryNodeRegistry" where
  "run_node_op (Register n) = node_register n"
| "run_node_op (Unregister i) = node_unregister i"

primrec spec_node_op :: "node_op \<Rightarrow> (NodeId \<rightharpoonup> Node) \<Rightarrow> (NodeId \<rightharpoonup> Node)" where
  "spec_node_op (Register n) m = (if list_all (\<lambda>c. \<not> bad_capability c) (node_capabilities n) then m(node_id n \<mapsto> n) else m)"
| "spec_node_op (Unregister i) m = m(i := None)"

definition run_node_ops :: "node_op list \<Rightarrow> MemoryNodeRegistry \<Rightarrow> MemoryNodeRegistry" where
  "run_node_ops ops r = fold (\<lambda>op. snd \<circ> run_node_op op) ops r"

definition registry_abs :: "MemoryNodeRegistry \<Rightarrow> NodeId \<rightharpoonup> Node" where
  "registry_abs r = btree_get (nr_nodes r)"

definition node_inv :: "MemoryNodeRegistry \<Rightarrow> bool" where
  "node_inv r \<longleftrightarrow> \<not> nr_poisoned r \<and> btree_ok (nr_nodes r)
     \<and> (\<forall>(i, n) \<in> set (nr_nodes r). node_id n = i \<and> Node_validate n = Inr ())"

lemma Node_validate_ok: "Node_validate n = Inr () \<longleftrightarrow> list_all (\<lambda>c. \<not> bad_capability c) (node_capabilities n)"
  by (auto simp: Node_validate_def list_all_iff find_None_iff split: option.splits)
    (metis find_Some_iff nth_mem)

lemma set_btree_insert: "set (btree_insert k v m) \<subseteq> insert (k, v) (set m)"
  by (induction m) auto

lemma set_btree_remove: "set (btree_remove k m) \<subseteq> set m"
  by (auto simp: btree_remove_def)

lemma node_inv_new [model_inv]: "node_inv MemoryNodeRegistry_new"
  by (simp add: node_inv_def MemoryNodeRegistry_new_def)

lemma node_inv_op [model_inv]: "node_inv r \<Longrightarrow> node_inv (snd (run_node_op op r))"
proof (cases op)
  case (Register n)
  assume "node_inv r"
  with Register set_btree_insert [of "node_id n" n "nr_nodes r"] show ?thesis
    by (cases "Node_validate n") (auto simp: node_inv_def node_defs btree_ok_insert)
next
  case (Unregister i)
  assume "node_inv r"
  with Unregister set_btree_remove [of i "nr_nodes r"] show ?thesis
    by (auto simp: node_inv_def node_defs btree_ok_remove)
qed

lemma registry_abs_op: "node_inv r \<Longrightarrow> registry_abs (snd (run_node_op op r)) = spec_node_op op (registry_abs r)"
  by (cases op) (auto simp: registry_abs_def node_inv_def node_defs btree_get_insert btree_get_remove
      fun_eq_iff Node_validate_ok [symmetric] split: sum.splits)

lemma run_node_ops_refine:
  "node_inv r \<Longrightarrow> node_inv (run_node_ops ops r)
     \<and> registry_abs (run_node_ops ops r) = fold spec_node_op ops (registry_abs r)"
  by (induction ops arbitrary: r) (auto simp: run_node_ops_def node_inv_op registry_abs_op)


section \<open>Properties\<close>

text \<open>C26. The registry implements a finite map of valid nodes: after any sequence of registrations and
  removals, \<open>get\<close> answers from the map in which each valid registration replaced the entry of its
  identifier and each removal deleted one, and \<open>list\<close> returns every node of that map once, ordered by
  identifier.\<close>

theorem node_registry_refines:
  "let r = run_node_ops ops MemoryNodeRegistry_new; m = fold spec_node_op ops Map.empty in
     (\<forall>i. node_get i r = Inr (m i))
     \<and> (\<exists>ns. node_list r = Inr ns \<and> set ns = ran m \<and> sorted_wrt (<) (map node_id ns))"
proof -
  define r where "r = run_node_ops ops MemoryNodeRegistry_new"
  define m where "m = fold spec_node_op ops Map.empty"
  have abs: "node_inv r" "registry_abs r = m"
    using run_node_ops_refine [OF node_inv_new, of ops]
    by (simp_all add: r_def m_def registry_abs_def MemoryNodeRegistry_new_def)
  have get: "node_get i r = Inr (m i)" for i
    using abs by (auto simp: node_inv_def node_defs registry_abs_def)
  have ids: "map node_id (map snd (nr_nodes r)) = map fst (nr_nodes r)"
    using abs(1) by (auto simp: node_inv_def)
  have "btree_ok (nr_nodes r)" using abs(1) by (simp add: node_inv_def)
  then have "set (map snd (nr_nodes r)) = ran m" "sorted_wrt (<) (map fst (nr_nodes r))"
    using abs(2) btree.entries_look [of "nr_nodes r"]
    by (force simp: registry_abs_def ran_def, simp add: btree_ok_def)
  then have "\<exists>ns. node_list r = Inr ns \<and> set ns = ran m \<and> sorted_wrt (<) (map node_id ns)"
    using abs(1) ids by (auto simp: node_inv_def node_defs simp del: map_map)
  with get show ?thesis by (simp add: r_def m_def Let_def)
qed

text \<open>A description is refused exactly for a capability that is blank or has surrounding white
  space: for a node built from any list of capabilities, registering it with a working registry
  succeeds if all of them are well formed; otherwise the registry is unchanged and the error names the
  least offending capability.\<close>

theorem node_register_outcome:
  assumes "\<not> nr_poisoned r"
  shows "if (\<forall>c \<in> set cs. \<not> bad_capability c)
    then fst (node_register (Node_new i m s cs) r) = Inr ()
      \<and> node_get i (snd (node_register (Node_new i m s cs) r)) = Inr (Some (Node_new i m s cs))
    else (\<exists>c \<in> set cs. bad_capability c \<and> (\<forall>c' \<in> set cs. bad_capability c' \<longrightarrow> c \<le> c')
      \<and> node_register (Node_new i m s cs) r =
          (Inl (InvalidNode (''capability `'' @ capability_str c @
             ''` must be non-empty and contain no surrounding whitespace'')), r))"
proof (cases "\<forall>c \<in> set cs. \<not> bad_capability c")
  case True
  then show ?thesis
    using assms Node_validate_ok [of "Node_new i m s cs"]
    by (auto simp: node_defs Node_new_def list_all_iff btree_get_insert)
next
  case False
  define c where "c = Min {c \<in> set cs. bad_capability c}"
  have "c \<in> {c \<in> set cs. bad_capability c}" unfolding c_def using False by (intro Min_in) auto
  then have c: "c \<in> set cs" "bad_capability c" by auto
  have least: "\<And>c'. c' \<in> set cs \<Longrightarrow> bad_capability c' \<Longrightarrow> c \<le> c'" unfolding c_def by simp
  have "find bad_capability (btree_set_of cs) = Some c"
    by (rule find_least_sorted) (use c least in \<open>simp_all add: btree_set_of_sorted\<close>)
  with c least show ?thesis
    by (auto simp: node_register_def Node_validate_def Node_new_def intro!: bexI [of _ c])
qed

theorem node_register_outcome_witness:
  "fst (node_register (Node_new (NodeId (EntityId 1)) metadata_new Ready
      [Capability '''']) MemoryNodeRegistry_new)
    = Inl (InvalidNode ''capability `` must be non-empty and contain no surrounding whitespace'')
   \<and> fst (node_register (Node_new (NodeId (EntityId 1)) metadata_new Ready []) MemoryNodeRegistry_new) = Inr ()"
proof -
  have np: "\<not> nr_poisoned MemoryNodeRegistry_new" by (simp add: MemoryNodeRegistry_new_def)
  have bad: "bad_capability (Capability '''')" by (simp add: bad_capability_def blank_def)
  show ?thesis
    using node_register_outcome [OF np, of "[Capability '''']"] node_register_outcome [OF np, of "[]"] bad
    by simp
qed

end
