(* ===== verification/Sync_Model.thy ===== *)
theory Sync_Model
  imports Core_Model "HOL-Library.Sublist"
begin

text \<open>
  \<open>orbitrelay-sync\<close>: event filters and the in-memory event bus with one bounded queue per
  subscription.

  Tokio's bounded \<open>mpsc\<close> channel is a parameter: the operations the bus calls are the fields of
  \<open>mpsc\<close>, and \<open>mpsc_ok\<close> states their documented behaviour through a view of a channel as a queue, a
  capacity and a closed flag. The sender half of a channel is owned by the subscriber entry of the
  bus and the receiver half by the subscription; both are the channel stored under the
  subscription's identifier, as is the shared lag counter. A call of \<open>next_event\<close> that has to wait
  is \<open>Pending\<close>.

  \<open>sub_run\<close> follows one subscription through any interleaving of publications, of its own calls and
  of operations on other subscriptions, recording what was published to it, what it received and
  what losses it was told about.
\<close>

section \<open>Filters\<close>

record EventFilter =
  f_session_id :: "SessionId option"
  f_event_types :: "EventType btree_set"
  f_actor_id :: "ActorId option"

datatype SubscriptionId = SubscriptionId EntityId

datatype SyncError =
    SubscriberLagged SubscriptionId u64
  | SubscriptionClosed SubscriptionId
  | InvalidFilter string
  | InvalidQueueCapacity

definition EventFilter_all :: EventFilter where
  "EventFilter_all = \<lparr>f_session_id = None, f_event_types = [], f_actor_id = None\<rparr>"

definition EventFilter_for_session :: "SessionId \<Rightarrow> EventFilter" where
  "EventFilter_for_session s = EventFilter_all\<lparr>f_session_id := Some s\<rparr>"

definition filter_with_event_type :: "EventType \<Rightarrow> EventFilter \<Rightarrow> EventFilter" where
  "filter_with_event_type t f = f\<lparr>f_event_types := insort_insert t (f_event_types f)\<rparr>"

definition filter_with_actor_id :: "ActorId \<Rightarrow> EventFilter \<Rightarrow> EventFilter" where
  "filter_with_actor_id a f = f\<lparr>f_actor_id := Some a\<rparr>"

definition EventFilter_matches :: "EventFilter \<Rightarrow> Event \<Rightarrow> bool" where
  "EventFilter_matches f e \<longleftrightarrow>
     is_none_or (f_session_id f) (\<lambda>s. s = ev_session_id e)
     \<and> (f_event_types f = [] \<or> List.member (f_event_types f) (ev_event_type e))
     \<and> is_none_or (f_actor_id f) (\<lambda>a. a = ev_actor_id e)"

definition EventFilter_validate :: "EventFilter \<Rightarrow> (SyncError, unit) result" where
  "EventFilter_validate f =
     (if list_ex (\<lambda>t. blank (event_type_str t)) (f_event_types f)
      then Inl (InvalidFilter ''event type cannot be empty'')
      else Inr ())"


section \<open>Channels\<close>

datatype TrySendError = Full | Closed
datatype 'a poll = Ready 'a | Pending

record 'ch mpsc =
  mk_channel :: "nat \<Rightarrow> 'ch"
  try_send :: "Event \<Rightarrow> 'ch \<Rightarrow> (TrySendError, unit) result \<times> 'ch"
  poll_recv :: "bool \<Rightarrow> 'ch \<Rightarrow> Event option poll \<times> 'ch"
  close_receiver :: "'ch \<Rightarrow> 'ch"

record chan_view =
  cv_queue :: "Event list"
  cv_capacity :: nat
  cv_closed :: bool

definition try_send_result :: "chan_view \<Rightarrow> (TrySendError, unit) result" where
  "try_send_result v =
     (if cv_closed v then Inl Closed
      else if length (cv_queue v) < cv_capacity v then Inr () else Inl Full)"

definition mpsc_ok :: "'ch mpsc \<Rightarrow> ('ch \<Rightarrow> chan_view) \<Rightarrow> bool" where
  "mpsc_ok M view \<longleftrightarrow>
     (\<forall>n. view (mk_channel M n) = \<lparr>cv_queue = [], cv_capacity = n, cv_closed = False\<rparr>)
     \<and> (\<forall>e c. fst (try_send M e c) = try_send_result (view c)
          \<and> view (snd (try_send M e c)) =
              (if try_send_result (view c) = Inr () then (view c)\<lparr>cv_queue := cv_queue (view c) @ [e]\<rparr>
               else view c))
     \<and> (\<forall>alive c. fst (poll_recv M alive c) =
              (case cv_queue (view c) of
                 x # _ \<Rightarrow> Ready (Some x)
               | [] \<Rightarrow> if alive \<and> \<not> cv_closed (view c) then Pending else Ready None)
          \<and> view (snd (poll_recv M alive c)) = (view c)\<lparr>cv_queue := tl (cv_queue (view c))\<rparr>)
     \<and> (\<forall>c. view (close_receiver M c) = (view c)\<lparr>cv_closed := True\<rparr>)"


section \<open>The bus and its subscriptions\<close>

record 'ch BusState =
  subscribers :: "SubscriptionId \<rightharpoonup> EventFilter"
  channels :: "SubscriptionId \<Rightarrow> 'ch"
  lagged :: "SubscriptionId \<Rightarrow> u64"
  queue_capacity :: nat

record MemorySubscription =
  ms_id :: SubscriptionId
  ms_filter :: EventFilter
  ms_closed :: bool
  ms_receive_after_lag :: bool

definition DEFAULT_QUEUE_CAPACITY :: nat where
  "DEFAULT_QUEUE_CAPACITY = 64"

definition bus_with :: "'ch mpsc \<Rightarrow> nat \<Rightarrow> 'ch BusState" where
  "bus_with M n = \<lparr>subscribers = Map.empty, channels = (\<lambda>_. mk_channel M n), lagged = (\<lambda>_. 0),
                   queue_capacity = n\<rparr>"

definition MemoryEventBus_new :: "'ch mpsc \<Rightarrow> 'ch BusState" where
  "MemoryEventBus_new M = bus_with M DEFAULT_QUEUE_CAPACITY"

definition with_queue_capacity :: "'ch mpsc \<Rightarrow> nat \<Rightarrow> (SyncError, 'ch BusState) result" where
  "with_queue_capacity M n = (if n = 0 then Inl InvalidQueueCapacity else Inr (bus_with M n))"

definition selects :: "'ch BusState \<Rightarrow> SubscriptionId \<Rightarrow> Event \<Rightarrow> bool" where
  "selects b i e = (case subscribers b i of None \<Rightarrow> False | Some f \<Rightarrow> EventFilter_matches f e)"

definition publish :: "'ch mpsc \<Rightarrow> Event \<Rightarrow> 'ch BusState \<Rightarrow> (SyncError, unit) result \<times> 'ch BusState" where
  "publish M e b =
     (let sent = (\<lambda>i. try_send M e (channels b i))
      in (Inr (),
          b\<lparr>channels := (\<lambda>i. if selects b i e then snd (sent i) else channels b i),
            lagged := (\<lambda>i. if selects b i e \<and> fst (sent i) = Inl Full
                           then saturating_add (lagged b i) 1 else lagged b i),
            subscribers := (\<lambda>i. if selects b i e \<and> fst (sent i) = Inl Closed
                                then None else subscribers b i)\<rparr>))"

definition subscribe ::
  "'ch mpsc \<Rightarrow> EventFilter \<Rightarrow> SubscriptionId \<Rightarrow> 'ch BusState
     \<Rightarrow> (SyncError, MemorySubscription) result \<times> 'ch BusState" where
  "subscribe M f fresh b =
     (case EventFilter_validate f of
        Inl e \<Rightarrow> (Inl e, b)
      | Inr _ \<Rightarrow>
          (Inr \<lparr>ms_id = fresh, ms_filter = f, ms_closed = False, ms_receive_after_lag = False\<rparr>,
           b\<lparr>channels := (channels b)(fresh := mk_channel M (queue_capacity b)),
             lagged := (lagged b)(fresh := 0),
             subscribers := (subscribers b)(fresh \<mapsto> f)\<rparr>))"

definition detach :: "MemorySubscription \<Rightarrow> 'ch BusState \<Rightarrow> 'ch BusState" where
  "detach self b = b\<lparr>subscribers := (subscribers b)(ms_id self := None)\<rparr>"

definition await_recv ::
  "'ch mpsc \<Rightarrow> MemorySubscription \<Rightarrow> 'ch BusState
     \<Rightarrow> (SyncError, Event option) result poll \<times> MemorySubscription \<times> 'ch BusState" where
  "await_recv M self b =
     (case poll_recv M (subscribers b (ms_id self) \<noteq> None) (channels b (ms_id self)) of
        (p, ch) \<Rightarrow>
          ((case p of Pending \<Rightarrow> Pending | Ready x \<Rightarrow> Ready (Inr x)),
           self, b\<lparr>channels := (channels b)(ms_id self := ch)\<rparr>))"

definition next_event ::
  "'ch mpsc \<Rightarrow> MemorySubscription \<Rightarrow> 'ch BusState
     \<Rightarrow> (SyncError, Event option) result poll \<times> MemorySubscription \<times> 'ch BusState" where
  "next_event M self b =
     (if ms_closed self then (Ready (Inl (SubscriptionClosed (ms_id self))), self, b)
      else
        let missed = lagged b (ms_id self);
            b1 = (if ms_receive_after_lag self then b
                  else b\<lparr>lagged := (lagged b)(ms_id self := 0)\<rparr>)
        in if \<not> ms_receive_after_lag self \<and> missed > 0
           then (Ready (Inl (SubscriberLagged (ms_id self) missed)),
                 self\<lparr>ms_receive_after_lag := True\<rparr>, b1)
           else await_recv M (self\<lparr>ms_receive_after_lag := False\<rparr>) b1)"

definition close_subscription ::
  "'ch mpsc \<Rightarrow> MemorySubscription \<Rightarrow> 'ch BusState
     \<Rightarrow> (SyncError, unit) result \<times> MemorySubscription \<times> 'ch BusState" where
  "close_subscription M self b =
     (if ms_closed self then (Inr (), self, b)
      else (Inr (), self\<lparr>ms_closed := True\<rparr>,
            detach self (b\<lparr>channels := (channels b)(ms_id self := close_receiver M (channels b (ms_id self)))\<rparr>)))"

definition drop_subscription :: "'ch mpsc \<Rightarrow> MemorySubscription \<Rightarrow> 'ch BusState \<Rightarrow> 'ch BusState" where
  "drop_subscription M self b =
     detach self (b\<lparr>channels := (channels b)(ms_id self := close_receiver M (channels b (ms_id self)))\<rparr>)"


section \<open>The life of one subscription\<close>

text \<open>\<open>sub_run M i f cap b self published delivered reported\<close>: starting from the successful
  subscription \<open>i\<close> with filter \<open>f\<close>, some interleaving of operations led to bus \<open>b\<close> and subscription
  \<open>self\<close>; \<open>published\<close> are the matching events published since, \<open>delivered\<close> the events \<open>next_event\<close>
  returned, \<open>reported\<close> the sum of the losses it announced. Other subscriptions come with their own
  identifiers, as random UUIDs do.\<close>

inductive sub_run ::
  "'ch mpsc \<Rightarrow> SubscriptionId \<Rightarrow> EventFilter \<Rightarrow> 'ch BusState \<Rightarrow> MemorySubscription
     \<Rightarrow> Event list \<Rightarrow> Event list \<Rightarrow> nat \<Rightarrow> bool"
  for M i f where
  sub_start: "subscribe M f i b = (Inr self, b') \<Longrightarrow> 0 < queue_capacity b \<Longrightarrow> sub_run M i f b' self [] [] 0"
| sub_publish: "sub_run M i f b self p d n \<Longrightarrow> publish M e b = (r, b') \<Longrightarrow>
    sub_run M i f b' self (if EventFilter_matches f e then p @ [e] else p) d n"
| sub_event: "sub_run M i f b self p d n \<Longrightarrow>
    next_event M self b = (Ready (Inr (Some e)), self', b') \<Longrightarrow> sub_run M i f b' self' p (d @ [e]) n"
| sub_lag: "sub_run M i f b self p d n \<Longrightarrow>
    next_event M self b = (Ready (Inl (SubscriberLagged i missed)), self', b') \<Longrightarrow>
    sub_run M i f b' self' p d (n + unat missed)"
| sub_pending: "sub_run M i f b self p d n \<Longrightarrow> next_event M self b = (Pending, self', b') \<Longrightarrow>
    sub_run M i f b' self' p d n"
| sub_wake: "sub_run M i f b self p d n \<Longrightarrow>
    await_recv M self b = (Ready (Inr (Some e)), self', b') \<Longrightarrow> sub_run M i f b' self' p (d @ [e]) n"
| other_subscribe: "sub_run M i f b self p d n \<Longrightarrow> j \<noteq> i \<Longrightarrow> subscribe M g j b = (r, b') \<Longrightarrow>
    sub_run M i f b' self p d n"
| other_next: "sub_run M i f b self p d n \<Longrightarrow> ms_id other \<noteq> i \<Longrightarrow>
    next_event M other b = (r, other', b') \<Longrightarrow> sub_run M i f b' self p d n"
| other_close: "sub_run M i f b self p d n \<Longrightarrow> ms_id other \<noteq> i \<Longrightarrow>
    close_subscription M other b = (r, other', b') \<Longrightarrow> sub_run M i f b' self p d n"
| other_drop: "sub_run M i f b self p d n \<Longrightarrow> ms_id other \<noteq> i \<Longrightarrow>
    drop_subscription M other b = b' \<Longrightarrow> sub_run M i f b' self p d n"

inductive_cases sub_runE: "sub_run M i f b self p d n"


section \<open>What the channel contract gives\<close>

lemma mpsc_okD:
  assumes "mpsc_ok M view"
  shows "view (mk_channel M k) = \<lparr>cv_queue = [], cv_capacity = k, cv_closed = False\<rparr>"
    and "fst (try_send M e c) = try_send_result (view c)"
    and "view (snd (try_send M e c)) =
      (if try_send_result (view c) = Inr () then (view c)\<lparr>cv_queue := cv_queue (view c) @ [e]\<rparr> else view c)"
    and "fst (poll_recv M alive c) =
      (case cv_queue (view c) of x # _ \<Rightarrow> Ready (Some x)
       | [] \<Rightarrow> if alive \<and> \<not> cv_closed (view c) then Pending else Ready None)"
    and "view (snd (poll_recv M alive c)) = (view c)\<lparr>cv_queue := tl (cv_queue (view c))\<rparr>"
    and "view (close_receiver M c) = (view c)\<lparr>cv_closed := True\<rparr>"
  using assms unfolding mpsc_ok_def by auto

text \<open>Each operation of one subscription leaves the registration, the channel and the lag counter of
  every other subscription alone.\<close>

definition same_sub :: "SubscriptionId \<Rightarrow> 'ch BusState \<Rightarrow> 'ch BusState \<Rightarrow> bool" where
  "same_sub i b b' \<longleftrightarrow> subscribers b' i = subscribers b i \<and> channels b' i = channels b i
     \<and> lagged b' i = lagged b i"

lemma subscribe_frame: "subscribe M g j b = (r, b') \<Longrightarrow> j \<noteq> i \<Longrightarrow> same_sub i b b'"
  by (auto simp: subscribe_def same_sub_def split: sum.splits)

lemma next_event_frame: "next_event M other b = (r, other', b') \<Longrightarrow> ms_id other \<noteq> i \<Longrightarrow> same_sub i b b'"
  by (auto simp: next_event_def await_recv_def same_sub_def Let_def split: if_splits prod.splits)

lemma close_subscription_frame:
  "close_subscription M other b = (r, other', b') \<Longrightarrow> ms_id other \<noteq> i \<Longrightarrow> same_sub i b b'"
  by (auto simp: close_subscription_def detach_def same_sub_def split: if_splits)

lemma drop_subscription_frame: "ms_id other \<noteq> i \<Longrightarrow> same_sub i b (drop_subscription M other b)"
  by (simp add: drop_subscription_def detach_def same_sub_def)


section \<open>Accounting\<close>

definition sub_inv ::
  "('ch \<Rightarrow> chan_view) \<Rightarrow> SubscriptionId \<Rightarrow> EventFilter \<Rightarrow> 'ch BusState \<Rightarrow> MemorySubscription
     \<Rightarrow> Event list \<Rightarrow> Event list \<Rightarrow> nat \<Rightarrow> bool" where
  "sub_inv view i f b self p d n \<longleftrightarrow>
     ms_id self = i \<and> \<not> ms_closed self \<and> subscribers b i = Some f
     \<and> \<not> cv_closed (view (channels b i))
     \<and> length (cv_queue (view (channels b i))) \<le> cv_capacity (view (channels b i))
     \<and> subseq (d @ cv_queue (view (channels b i))) p
     \<and> (length p < 2 ^ 64 \<longrightarrow>
          length p = length d + length (cv_queue (view (channels b i))) + n + unat (lagged b i))"

lemma sub_inv_same: "sub_inv view i f b self p d n \<Longrightarrow> same_sub i b b' \<Longrightarrow> sub_inv view i f b' self p d n"
  by (simp add: sub_inv_def same_sub_def)

lemma sub_inv_start:
  assumes "mpsc_ok M view" "subscribe M f i b = (Inr self, b')"
  shows "sub_inv view i f b' self [] [] 0"
  using assms(2) mpsc_okD(1) [OF assms(1)]
  by (auto simp: sub_inv_def subscribe_def split: sum.splits)

lemma sub_inv_publish:
  assumes M: "mpsc_ok M view" and inv: "sub_inv view i f b self p d n" and pub: "publish M e b = (r, b')"
  shows "sub_inv view i f b' self (if EventFilter_matches f e then p @ [e] else p) d n"
proof (cases "EventFilter_matches f e")
  case False
  then have "same_sub i b b'"
    using inv pub by (auto simp: sub_inv_def publish_def selects_def same_sub_def Let_def)
  with False inv show ?thesis by (simp add: sub_inv_same)
next
  case True
  then have sel: "selects b i e" using inv by (simp add: sub_inv_def selects_def)
  have open_chan: "\<not> cv_closed (view (channels b i))" using inv by (simp add: sub_inv_def)
  show ?thesis
  proof (cases "try_send_result (view (channels b i)) = Inr ()")
    case sent: True
    have "subseq ((d @ cv_queue (view (channels b i))) @ [e]) (p @ [e])"
      using inv by (intro list_emb_append_mono) (simp_all add: sub_inv_def)
    then show ?thesis
      using True sel inv pub sent mpsc_okD(2,3) [OF M]
      by (auto simp: sub_inv_def publish_def Let_def try_send_result_def split: if_splits)
  next
    case full: False
    then have res: "try_send_result (view (channels b i)) = Inl Full"
      using open_chan by (auto simp: try_send_result_def split: if_splits)
    have "unat (saturating_add (lagged b i) 1) = Suc (unat (lagged b i))" if "length p + 1 < 2 ^ 64"
      using that inv by (auto simp: saturating_add_unat sub_inv_def)
    then show ?thesis
      using True sel inv pub res mpsc_okD(2,3) [OF M]
      by (auto simp: sub_inv_def publish_def Let_def intro: list_emb_prefix)
  qed
qed

lemma sub_inv_await:
  assumes M: "mpsc_ok M view" and inv: "sub_inv view i f b self p d n"
    and recv: "await_recv M self b = (r, self', b')"
  shows "r = Pending \<Longrightarrow> sub_inv view i f b' self' p d n"
    and "r = Ready (Inr (Some e)) \<Longrightarrow> sub_inv view i f b' self' p (d @ [e]) n"
    and "r \<noteq> Ready (Inr None) \<and> r \<noteq> Ready (Inl err)"
proof -
  let ?c = "channels b i"
  obtain pl ch where pc: "poll_recv M True ?c = (pl, ch)" by fastforce
  have pl: "pl = (case cv_queue (view ?c) of x # _ \<Rightarrow> Ready (Some x) | [] \<Rightarrow> Pending)"
    using mpsc_okD(4) [OF M, of True ?c] pc inv by (simp add: sub_inv_def)
  have ch: "view ch = (view ?c)\<lparr>cv_queue := tl (cv_queue (view ?c))\<rparr>"
    using mpsc_okD(5) [OF M, of True ?c] pc by simp
  have eqs: "r = (case pl of Pending \<Rightarrow> Pending | Ready x \<Rightarrow> Ready (Inr x))" "self' = self"
    "b' = b\<lparr>channels := (channels b)(i := ch)\<rparr>"
    using recv pc inv by (auto simp: await_recv_def sub_inv_def)
  show "r = Pending \<Longrightarrow> sub_inv view i f b' self' p d n"
    and "r = Ready (Inr (Some e)) \<Longrightarrow> sub_inv view i f b' self' p (d @ [e]) n"
    and "r \<noteq> Ready (Inr None) \<and> r \<noteq> Ready (Inl err)"
    using inv by (cases "cv_queue (view ?c)"; auto simp: eqs pl ch sub_inv_def)+
qed

text \<open>A call of \<open>next_event\<close> on an open subscription either announces the pending losses, clearing
  the counter, or goes on to receive.\<close>

lemma next_event_cases:
  assumes "next_event M self b = (r, self', b')" "\<not> ms_closed self"
  obtains (lag) "\<not> ms_receive_after_lag self" "lagged b (ms_id self) > 0"
      "r = Ready (Inl (SubscriberLagged (ms_id self) (lagged b (ms_id self))))"
      "self' = self\<lparr>ms_receive_after_lag := True\<rparr>" "b' = b\<lparr>lagged := (lagged b)(ms_id self := 0)\<rparr>"
    | (recv) b1 where "b1 = b \<or> lagged b (ms_id self) = 0 \<and> b1 = b\<lparr>lagged := (lagged b)(ms_id self := 0)\<rparr>"
      "await_recv M (self\<lparr>ms_receive_after_lag := False\<rparr>) b1 = (r, self', b')"
proof (cases "\<not> ms_receive_after_lag self \<and> lagged b (ms_id self) > 0")
  case True
  with assms show thesis by (intro lag) (simp_all add: next_event_def)
next
  case False
  let ?b1 = "if ms_receive_after_lag self then b else b\<lparr>lagged := (lagged b)(ms_id self := 0)\<rparr>"
  show thesis
  proof (rule recv)
    show "?b1 = b \<or> lagged b (ms_id self) = 0 \<and> ?b1 = b\<lparr>lagged := (lagged b)(ms_id self := 0)\<rparr>"
      using False by (auto simp: word_gt_0)
    show "await_recv M (self\<lparr>ms_receive_after_lag := False\<rparr>) ?b1 = (r, self', b')"
      using False assms by (auto simp: next_event_def Let_def split: if_splits)
  qed
qed

lemma sub_inv_next:
  assumes M: "mpsc_ok M view" and inv: "sub_inv view i f b self p d n"
    and step: "next_event M self b = (r, self', b')"
  shows "r = Pending \<Longrightarrow> sub_inv view i f b' self' p d n"
    and "r = Ready (Inr (Some e)) \<Longrightarrow> sub_inv view i f b' self' p (d @ [e]) n"
    and "r = Ready (Inl (SubscriberLagged i missed)) \<Longrightarrow> sub_inv view i f b' self' p d (n + unat missed)"
    and "r \<noteq> Ready (Inr None)"
proof -
  have self: "ms_id self = i" "\<not> ms_closed self" using inv by (simp_all add: sub_inv_def)
  have "(r = Pending \<longrightarrow> sub_inv view i f b' self' p d n)
      \<and> (r = Ready (Inr (Some e)) \<longrightarrow> sub_inv view i f b' self' p (d @ [e]) n)
      \<and> (r = Ready (Inl (SubscriberLagged i missed)) \<longrightarrow> sub_inv view i f b' self' p d (n + unat missed))
      \<and> r \<noteq> Ready (Inr None)"
    using step self(2)
  proof (cases rule: next_event_cases)
    case lag
    with inv self show ?thesis by (auto simp: sub_inv_def)
  next
    case (recv b1)
    have "sub_inv view i f b1 (self\<lparr>ms_receive_after_lag := False\<rparr>) p d n"
      using recv(1) inv by (auto simp: sub_inv_def)
    from sub_inv_await [OF M this recv(2)] show ?thesis by blast
  qed
  then show "r = Pending \<Longrightarrow> sub_inv view i f b' self' p d n"
    and "r = Ready (Inr (Some e)) \<Longrightarrow> sub_inv view i f b' self' p (d @ [e]) n"
    and "r = Ready (Inl (SubscriberLagged i missed)) \<Longrightarrow> sub_inv view i f b' self' p d (n + unat missed)"
    and "r \<noteq> Ready (Inr None)" by auto
qed

lemma sub_run_inv:
  assumes "mpsc_ok M view" "sub_run M i f b self p d n"
  shows "sub_inv view i f b self p d n"
  using assms(2)
proof (induction rule: sub_run.induct)
  case (sub_start b self b')
  show ?case by (rule sub_inv_start [OF assms(1) sub_start(1)])
next
  case (sub_publish b self p d n e r b')
  show ?case by (rule sub_inv_publish [OF assms(1) sub_publish.IH sub_publish.hyps(2)])
next
  case (sub_wake b self p d n e self' b')
  show ?case by (rule sub_inv_await(2) [OF assms(1) sub_wake.IH sub_wake.hyps(2) refl])
qed (auto dest: sub_inv_next [OF assms(1)]
      intro: sub_inv_same subscribe_frame next_event_frame close_subscription_frame drop_subscription_frame)


section \<open>Sample values\<close>

text \<open>A concrete bounded queue in the place of tokio's channel.\<close>

definition list_mpsc :: "chan_view mpsc" where
  "list_mpsc =
     \<lparr>mk_channel = (\<lambda>n. \<lparr>cv_queue = [], cv_capacity = n, cv_closed = False\<rparr>),
      try_send = (\<lambda>e c. (try_send_result c,
        if try_send_result c = Inr () then c\<lparr>cv_queue := cv_queue c @ [e]\<rparr> else c)),
      poll_recv = (\<lambda>alive c.
        (case cv_queue c of x # _ \<Rightarrow> Ready (Some x)
         | [] \<Rightarrow> if alive \<and> \<not> cv_closed c then Pending else Ready None,
         c\<lparr>cv_queue := tl (cv_queue c)\<rparr>)),
      close_receiver = (\<lambda>c. c\<lparr>cv_closed := True\<rparr>)\<rparr>"

lemma list_mpsc_ok [simp]: "mpsc_ok list_mpsc (\<lambda>c. c)"
  by (simp add: mpsc_ok_def list_mpsc_def)

definition sample_note :: "128 word \<Rightarrow> Event" where
  "sample_note n = Event_new (EventId (EntityId n)) (SessionId (EntityId 1)) (ActorId (EntityId 2))
     (ActionId (EntityId 3)) (EventType ''note'') (Timestamp 0) payload_new metadata_new"

definition sub_id :: SubscriptionId where
  "sub_id = SubscriptionId (EntityId 40)"

definition one_slot_bus :: "chan_view BusState" where
  "one_slot_bus = snd (subscribe list_mpsc EventFilter_all sub_id (bus_with list_mpsc 1))"

definition one_slot_sub :: MemorySubscription where
  "one_slot_sub = \<lparr>ms_id = sub_id, ms_filter = EventFilter_all, ms_closed = False,
     ms_receive_after_lag = False\<rparr>"

definition overrun_bus :: "chan_view BusState" where
  "overrun_bus = snd (publish list_mpsc (sample_note 2) (snd (publish list_mpsc (sample_note 1) one_slot_bus)))"

lemmas sample_bus_defs = list_mpsc_def one_slot_bus_def one_slot_sub_def overrun_bus_def sub_id_def
  bus_with_def subscribe_def publish_def selects_def EventFilter_all_def EventFilter_validate_def
  EventFilter_matches_def try_send_result_def

lemma overrun_facts:
  "subscribers overrun_bus sub_id = Some EventFilter_all" "lagged overrun_bus sub_id = 1"
  "channels overrun_bus sub_id = \<lparr>cv_queue = [sample_note 1], cv_capacity = 1, cv_closed = False\<rparr>"
  by (simp_all add: sample_bus_defs saturating_add_def Let_def)

lemma overrun_run:
  "sub_run list_mpsc sub_id EventFilter_all overrun_bus one_slot_sub [sample_note 1, sample_note 2] [] 0"
proof -
  have "subscribe list_mpsc EventFilter_all sub_id (bus_with list_mpsc 1) = (Inr one_slot_sub, one_slot_bus)"
    by (simp add: sample_bus_defs)
  then have "sub_run list_mpsc sub_id EventFilter_all one_slot_bus one_slot_sub [] [] 0"
    by (rule sub_run.sub_start) (simp add: bus_with_def)
  from sub_run.sub_publish [OF sub_run.sub_publish [OF this surjective_pairing] surjective_pairing,
      of "sample_note 2" "sample_note 1"]
  show ?thesis by (simp add: overrun_bus_def EventFilter_matches_def EventFilter_all_def)
qed


section \<open>Properties\<close>

text \<open>C11. No silent loss: through any interleaving of publications, of its own receive calls and of
  operations on other subscriptions, what a subscription has received followed by what is queued for
  it is a subsequence of what was published to it (nothing invented, duplicated or reordered), its
  queue stays within its capacity, and the events missing are exactly those announced as lag or
  still held in the lag counter; with no loss announced or pending nothing is missing at all.\<close>

theorem subscription_accounts_for_every_event:
  assumes "mpsc_ok M view" "sub_run M i f b self published delivered reported"
  defines "queued \<equiv> cv_queue (view (channels b i))"
  shows "subseq (delivered @ queued) published
    \<and> length queued \<le> cv_capacity (view (channels b i))
    \<and> (length published < 2 ^ 64 \<longrightarrow>
        length published = length delivered + length queued + reported + unat (lagged b i))
    \<and> (length published < 2 ^ 64 \<and> reported = 0 \<and> lagged b i = 0 \<longrightarrow> delivered @ queued = published)"
proof -
  have inv: "sub_inv view i f b self published delivered reported" by (rule sub_run_inv [OF assms(1,2)])
  then have len: "length published < 2 ^ 64 \<longrightarrow>
      length published = length (delivered @ queued) + reported + unat (lagged b i)"
    and sub: "subseq (delivered @ queued) published"
    by (simp_all add: sub_inv_def queued_def)
  moreover have "delivered @ queued = published"
    if "length published < 2 ^ 64" "reported = 0" "lagged b i = 0"
    using that len sub by (intro subseq_same_length) simp_all
  ultimately show ?thesis using inv by (auto simp: sub_inv_def queued_def)
qed

theorem subscription_accounts_for_every_event_witness:
  "sub_run list_mpsc sub_id EventFilter_all overrun_bus one_slot_sub [sample_note 1, sample_note 2] [] 0
     \<and> subseq [sample_note 1] [sample_note 1, sample_note 2] \<and> (2::nat) = 0 + 1 + 0 + 1"
  using subscription_accounts_for_every_event [OF list_mpsc_ok overrun_run] overrun_run
  by (simp add: overrun_facts)

text \<open>Publication reaches each subscriber independently: a subscriber whose filter rejects the
  event is untouched; one with room gets the event at the end of its queue; one with a full queue
  keeps its queue and counts one more lost event, saturating at the largest 64-bit value; one whose
  receiver is closed is unregistered. Publishing itself always succeeds.\<close>

theorem publish_per_subscriber:
  assumes "mpsc_ok M view" "publish M e b = (r, b')"
  shows "r = Inr () \<and>
    (if \<not> selects b i e then same_sub i b b'
     else case try_send_result (view (channels b i)) of
       Inr _ \<Rightarrow> cv_queue (view (channels b' i)) = cv_queue (view (channels b i)) @ [e]
              \<and> subscribers b' i = subscribers b i \<and> lagged b' i = lagged b i
     | Inl Full \<Rightarrow> view (channels b' i) = view (channels b i) \<and> subscribers b' i = subscribers b i
              \<and> unat (lagged b' i) = min (unat (lagged b i) + 1) (2 ^ 64 - 1)
     | Inl Closed \<Rightarrow> view (channels b' i) = view (channels b i) \<and> subscribers b' i = None
              \<and> lagged b' i = lagged b i)"
proof -
  have b': "r = Inr ()" "b' = snd (publish M e b)" using assms(2) by (auto simp: publish_def Let_def)
  show ?thesis
    unfolding b' using mpsc_okD(2,3) [OF assms(1), of e "channels b i"]
    by (auto simp: publish_def Let_def same_sub_def saturating_add_unat
        split: sum.splits TrySendError.splits)
qed

theorem publish_per_subscriber_witness:
  "fst (publish list_mpsc (sample_note 3) overrun_bus) = Inr ()
     \<and> unat (lagged (snd (publish list_mpsc (sample_note 3) overrun_bus)) sub_id) = 2"
proof -
  have "selects overrun_bus sub_id (sample_note 3)" "try_send_result (channels overrun_bus sub_id) = Inl Full"
    by (simp_all add: selects_def overrun_facts try_send_result_def EventFilter_all_def EventFilter_matches_def)
  then show ?thesis
    using publish_per_subscriber [OF list_mpsc_ok surjective_pairing, of "sample_note 3" overrun_bus sub_id]
    by (simp add: overrun_facts)
qed

text \<open>Lag is announced before delivery resumes, once: when losses are pending the next call
  reports exactly their number and clears the counter, and the call after it returns the oldest
  queued event even if more events were lost in between.\<close>

theorem lag_reported_then_delivery_resumes:
  assumes "mpsc_ok M view" "\<not> ms_closed self" "\<not> ms_receive_after_lag self"
    "lagged b (ms_id self) > 0" "cv_queue (view (channels b (ms_id self))) = x # xs"
  shows "\<exists>self1 b1. next_event M self b
      = (Ready (Inl (SubscriberLagged (ms_id self) (lagged b (ms_id self)))), self1, b1)
    \<and> lagged b1 (ms_id self) = 0
    \<and> (\<forall>n. fst (next_event M self1 (b1\<lparr>lagged := (lagged b1)(ms_id self := n)\<rparr>)) = Ready (Inr (Some x)))"
proof -
  let ?i = "ms_id self"
  let ?self1 = "self\<lparr>ms_receive_after_lag := True\<rparr>" and ?b1 = "b\<lparr>lagged := (lagged b)(?i := 0)\<rparr>"
  have "next_event M self b = (Ready (Inl (SubscriberLagged ?i (lagged b ?i))), ?self1, ?b1)"
    using assms by (simp add: next_event_def)
  moreover have "fst (next_event M ?self1 (?b1\<lparr>lagged := (lagged ?b1)(?i := n)\<rparr>)) = Ready (Inr (Some x))" for n
    using assms(2,5) mpsc_okD(4) [OF assms(1)]
    by (simp add: next_event_def await_recv_def split_beta)
  ultimately show ?thesis by auto
qed

theorem lag_reported_then_delivery_resumes_witness:
  "\<exists>self1 b1. next_event list_mpsc one_slot_sub overrun_bus
      = (Ready (Inl (SubscriberLagged sub_id 1)), self1, b1)
    \<and> fst (next_event list_mpsc self1 (b1\<lparr>lagged := (lagged b1)(sub_id := 0)\<rparr>)) = Ready (Inr (Some (sample_note 1)))"
  using lag_reported_then_delivery_resumes [OF list_mpsc_ok, of one_slot_sub overrun_bus "sample_note 1" "[]"]
  by (auto simp: overrun_facts one_slot_sub_def)

text \<open>Closing a subscription is final and idempotent: it succeeds, unregisters the subscriber,
  closes its channel; closing again changes nothing; every later receive call fails with
  \<open>SubscriptionClosed\<close>; and no later publication touches its queue.\<close>

theorem close_is_final:
  assumes "mpsc_ok M view" "\<not> ms_closed self" "close_subscription M self b = (r, self', b')"
  shows "r = Inr () \<and> subscribers b' (ms_id self) = None \<and> cv_closed (view (channels b' (ms_id self)))
    \<and> close_subscription M self' b' = (Inr (), self', b')
    \<and> next_event M self' b' = (Ready (Inl (SubscriptionClosed (ms_id self))), self', b')
    \<and> channels (snd (publish M e b')) (ms_id self) = channels b' (ms_id self)"
  using assms(2,3) mpsc_okD(6) [OF assms(1)]
  by (auto simp: close_subscription_def detach_def next_event_def publish_def selects_def Let_def)

theorem close_is_final_witness:
  "\<exists>self' b'. close_subscription list_mpsc one_slot_sub overrun_bus = (Inr (), self', b')
     \<and> subscribers b' sub_id = None
     \<and> next_event list_mpsc self' b' = (Ready (Inl (SubscriptionClosed sub_id)), self', b')"
proof -
  obtain r self' b' where eq: "close_subscription list_mpsc one_slot_sub overrun_bus = (r, self', b')"
    by (metis surj_pair)
  from close_is_final [OF list_mpsc_ok _ eq] eq show ?thesis by (auto simp: one_slot_sub_def)
qed

end
