(* ===== verification/Query_Model.thy ===== *)
theory Query_Model
  imports Runtime_Model
begin

text \<open>
  \<open>orbitrelay-query\<close>: query types and their syntax, requests, responses, the handler registry and
  \<open>RegisteredQueryExecutor::execute\<close>. A handler is a port over the world \<open>'w\<close>; the selectors of the
  records are the accessors of the structs.
\<close>

section \<open>Query types\<close>

datatype QueryType = QueryType string

primrec query_type_str :: "QueryType \<Rightarrow> string" where
  "query_type_str (QueryType s) = s"

datatype QueryTypeError = InvalidFormat

definition query_type_byte :: "char \<Rightarrow> bool" where
  "query_type_byte c \<longleftrightarrow>
     CHR ''a'' \<le> c \<and> c \<le> CHR ''z'' \<or> CHR ''0'' \<le> c \<and> c \<le> CHR ''9'' \<or> c = CHR ''_''"

definition validate_query_type :: "string \<Rightarrow> (QueryTypeError, unit) result" where
  "validate_query_type s =
     (if trim s \<noteq> s \<or> s = [] then Inl InvalidFormat
      else let parts = split_on (CHR ''.'') s in
        if length parts < 2 \<or> (\<exists>p \<in> set parts. p = [] \<or> \<not> list_all query_type_byte p)
        then Inl InvalidFormat
        else Inr ())"

definition QueryType_new :: "string \<Rightarrow> (QueryTypeError, QueryType) result" where
  "QueryType_new s = rbind (validate_query_type s) (\<lambda>_. Inr (QueryType s))"


section \<open>Requests and responses\<close>

record QueryActorContext =
  qa_actor_id :: ActorId
  qa_actor_type :: "ActorType option"

definition QueryActorContext_new :: "ActorId \<Rightarrow> QueryActorContext" where
  "QueryActorContext_new a = \<lparr>qa_actor_id = a, qa_actor_type = None\<rparr>"

definition QueryActorContext_with_type :: "ActorId \<Rightarrow> ActorType \<Rightarrow> QueryActorContext" where
  "QueryActorContext_with_type a t = \<lparr>qa_actor_id = a, qa_actor_type = Some t\<rparr>"

record QueryRequest =
  qr_request_id :: MessageId
  qr_query_type :: QueryType
  qr_payload :: Payload

datatype QueryFailureCode =
    QF_UnsupportedQuery | QF_InvalidQuery | QF_Unauthorized | QF_NotFound | QF_Internal
  | QF_Unavailable | QF_NotReady

record QueryFailure =
  qf_code :: QueryFailureCode
  qf_message :: string
  qf_retryable :: bool

datatype QueryResult = QuerySuccess Payload | QueryError QueryFailure

record QueryResponse =
  qp_request_id :: MessageId
  qp_query_type :: QueryType
  qp_result :: QueryResult

definition QueryResponse_success :: "MessageId \<Rightarrow> QueryType \<Rightarrow> Payload \<Rightarrow> QueryResponse" where
  "QueryResponse_success i t p = \<lparr>qp_request_id = i, qp_query_type = t, qp_result = QuerySuccess p\<rparr>"

definition QueryResponse_error :: "MessageId \<Rightarrow> QueryType \<Rightarrow> QueryFailure \<Rightarrow> QueryResponse" where
  "QueryResponse_error i t f = \<lparr>qp_request_id = i, qp_query_type = t, qp_result = QueryError f\<rparr>"


section \<open>Handlers, registry and executor\<close>

datatype QueryHandlerError =
  QH_InvalidQuery | QH_Unauthorized | QH_NotFound | QH_Unavailable | QH_Internal

record 'w QueryHandler =
  qh_query_type :: QueryType
  qh_execute :: "QueryActorContext \<Rightarrow> QueryRequest \<Rightarrow> 'w \<Rightarrow> (QueryHandlerError, Payload) result \<times> 'w"

datatype QueryRegistryError = DuplicateQueryType QueryType

type_synonym 'w QueryRegistry = "QueryType \<rightharpoonup> 'w QueryHandler"

definition query_register ::
  "'w QueryHandler \<Rightarrow> 'w QueryRegistry \<Rightarrow> (QueryRegistryError, unit) result \<times> 'w QueryRegistry" where
  "query_register h r =
     (if r (qh_query_type h) \<noteq> None then (Inl (DuplicateQueryType (qh_query_type h)), r)
      else (Inr (), r(qh_query_type h \<mapsto> h)))"

definition query_get :: "'w QueryRegistry \<Rightarrow> QueryType \<Rightarrow> 'w QueryHandler option" where
  "query_get r t = r t"

primrec map_handler_error :: "QueryHandlerError \<Rightarrow> QueryFailureCode \<times> bool \<times> string" where
  "map_handler_error QH_InvalidQuery = (QF_InvalidQuery, False, ''The query is invalid.'')"
| "map_handler_error QH_Unauthorized =
     (QF_Unauthorized, False, ''The actor is not authorized to read this resource.'')"
| "map_handler_error QH_NotFound = (QF_NotFound, False, ''The requested resource was not found.'')"
| "map_handler_error QH_Unavailable =
     (QF_Unavailable, True, ''The query service is temporarily unavailable.'')"
| "map_handler_error QH_Internal = (QF_Internal, False, ''The query could not be completed.'')"

definition query_execute ::
  "'w QueryRegistry \<Rightarrow> QueryActorContext \<Rightarrow> QueryRequest \<Rightarrow> 'w \<Rightarrow> QueryResponse \<times> 'w" where
  "query_execute r actor req w =
     (case query_get r (qr_query_type req) of
        None \<Rightarrow>
          (QueryResponse_error (qr_request_id req) (qr_query_type req)
             \<lparr>qf_code = QF_UnsupportedQuery, qf_message = ''The query type is not supported.'',
              qf_retryable = False\<rparr>, w)
      | Some h \<Rightarrow>
          (case qh_execute h actor req w of
             (Inr p, w') \<Rightarrow> (QueryResponse_success (qr_request_id req) (qr_query_type req) p, w')
           | (Inl e, w') \<Rightarrow>
               (case map_handler_error e of
                  (code, retryable, message) \<Rightarrow>
                    (QueryResponse_error (qr_request_id req) (qr_query_type req)
                       \<lparr>qf_code = code, qf_message = message, qf_retryable = retryable\<rparr>, w'))))"

lemmas query_response_defs = QueryResponse_success_def QueryResponse_error_def


section \<open>Lemmas\<close>

text \<open>The query registry is a registry that never replaces, keyed by the handler's own type.\<close>

interpretation query_registry: guarded_registry
  "\<lambda>t f. query_register \<lparr>qh_query_type = t, qh_execute = f\<rparr>"
  "\<lambda>r t. map_option qh_execute (query_get r t)" DuplicateQueryType
  by unfold_locales (auto simp: query_register_def query_get_def fun_eq_iff)

lemma query_type_byte_plain: "query_type_byte c \<Longrightarrow> c \<notin> \<Union>(set ` set white_space)"
proof
  assume "query_type_byte c" "c \<in> \<Union>(set ` set white_space)"
  then have "\<exists>c \<in> \<Union>(set ` set white_space). query_type_byte c" by (rule_tac bexI)
  then show False by (simp add: white_space_def query_type_byte_def less_eq_char_def)
qed

lemma trim_query_type:
  assumes "\<forall>p \<in> set parts. list_all query_type_byte p"
  shows "trim (join_with (CHR ''.'') parts) = join_with (CHR ''.'') parts"
proof (rule trim_plain, rule ballI)
  fix c assume "c \<in> set (join_with (CHR ''.'') parts)"
  then have "c = CHR ''.'' \<or> query_type_byte c"
    using set_join_with [of "CHR ''.''" parts] assms by (auto simp: list_all_iff)
  moreover have "CHR ''.'' \<notin> \<Union>(set ` set white_space)" by (simp add: white_space_def)
  ultimately show "c \<notin> \<Union>(set ` set white_space)" using query_type_byte_plain by blast
qed


section \<open>Properties\<close>

text \<open>C37. Query type syntax: \<open>QueryType::new\<close> accepts a string exactly if it is two or more non-empty
  segments of lower-case letters, digits and underscores joined by dots, and then the value prints as
  the string it was built from.\<close>

theorem query_type_syntax:
  "QueryType_new s = Inr t \<longleftrightarrow>
     query_type_str t = s
     \<and> (\<exists>parts. s = join_with (CHR ''.'') parts \<and> 2 \<le> length parts
          \<and> list_all (\<lambda>p. p \<noteq> [] \<and> list_all query_type_byte p) parts)"
  (is "?accepts \<longleftrightarrow> ?prints \<and> ?syntax")
proof
  assume ?accepts
  then have "validate_query_type s = Inr ()" "t = QueryType s"
    by (auto simp: QueryType_new_def result_simps)
  then show "?prints \<and> ?syntax"
    using join_split [of "CHR ''.''" s]
    by (auto simp: validate_query_type_def Let_def list_all_iff split: if_splits
        intro!: exI [of _ "split_on (CHR ''.'') s"])
next
  assume "?prints \<and> ?syntax"
  then obtain parts where parts: "s = join_with (CHR ''.'') parts" "2 \<le> length parts"
      "\<forall>p \<in> set parts. p \<noteq> [] \<and> list_all query_type_byte p" and t: "t = QueryType s"
    by (cases t) (auto simp: list_all_iff)
  have "\<not> query_type_byte (CHR ''.'')" by (simp add: query_type_byte_def less_eq_char_def)
  then have "\<forall>p \<in> set parts. CHR ''.'' \<notin> set p" using parts(3) by (auto simp: list_all_iff)
  then have split: "split_on (CHR ''.'') s = parts" using parts(1,2) by (auto intro!: split_join)
  then have "s \<noteq> []" using parts(2) by auto
  with split parts t show ?accepts
    using trim_query_type [of parts]
    by (auto simp: QueryType_new_def validate_query_type_def Let_def)
qed


text \<open>Registering a handler for a free query type makes the executor answer requests of that type
  with it and leaves the answers to every other type unchanged; a second handler for the type is
  refused and changes nothing.\<close>

theorem registered_handler_answers:
  "(case query_get r (qh_query_type h) of
      None \<Rightarrow> fst (query_register h r) = Inr ()
        \<and> (\<forall>actor req w. query_execute (snd (query_register h r)) actor req w =
             (if qr_query_type req = qh_query_type h
              then query_execute [qh_query_type h \<mapsto> h] actor req w
              else query_execute r actor req w))
    | Some h' \<Rightarrow> query_register h r = (Inl (DuplicateQueryType (qh_query_type h)), r))"
  by (auto simp: query_register_def query_get_def query_execute_def split: option.splits)

end
