(* ===== verification/Transport_Model.thy ===== *)
theory Transport_Model
  imports Query_Model
begin

text \<open>
  The transport-independent part of \<open>orbitrelay-transport\<close>: the connection state machine, identity
  binding, version policies, configuration, errors with their client-facing form, and the messages of
  the two planes. Constructor names that several enumerations of the source share carry a prefix.
\<close>

section \<open>Connection state\<close>

datatype ConnectionId = ConnectionId EntityId

datatype ConnectionState = Negotiating | Authenticating | Ready | Closing | Closed

datatype ConnectionStateError =
    InvalidTransition ConnectionState ConnectionState
  | OperationNotAllowed string ConnectionState

fun conn_can_transition_to :: "ConnectionState \<Rightarrow> ConnectionState \<Rightarrow> bool" where
  "conn_can_transition_to Negotiating Authenticating = True"
| "conn_can_transition_to Authenticating Ready = True"
| "conn_can_transition_to Ready Closing = True"
| "conn_can_transition_to Negotiating Closing = True"
| "conn_can_transition_to Authenticating Closing = True"
| "conn_can_transition_to Closing Closed = True"
| "conn_can_transition_to _ _ = False"

definition conn_transition_to ::
  "ConnectionState \<Rightarrow> ConnectionState \<Rightarrow> (ConnectionStateError, unit) result \<times> ConnectionState" where
  "conn_transition_to s t =
     (if \<not> conn_can_transition_to s t then (Inl (InvalidTransition s t), s) else (Inr (), t))"

datatype IdentitySource = IdentitySource string

record ActorBinding =
  ab_actor_id :: ActorId
  ab_source :: IdentitySource

record InboundCredentials =
  ic_scheme :: string
  ic_credential :: string

record TransportConnection =
  tc_id :: ConnectionId
  tc_metadata :: Metadata
  tc_state :: ConnectionState
  tc_identity :: "ActorBinding option"

definition TransportConnection_new :: "ConnectionId \<Rightarrow> Metadata \<Rightarrow> TransportConnection" where
  "TransportConnection_new i m = \<lparr>tc_id = i, tc_metadata = m, tc_state = Negotiating, tc_identity = None\<rparr>"


section \<open>Errors\<close>

datatype TransportErrorCode =
    TC_InvalidMessage | TC_UnsupportedVersion | TC_ConnectionNotReady | TC_AuthenticationRequired
  | TC_IdentityMismatch | TC_ExecutionRejected | TC_SubscriptionRejected | TC_SubscriptionLagged
  | TC_SlowConsumer | TC_CodecError | TC_InternalError

datatype CodecError =
    InvalidJson
  | InvalidMessageShape
  | MissingField string
  | UnknownField string
  | UnsupportedMessageType string
  | UnexpectedEnvelopeType string string
  | DecodeFailed
  | EncodeFailed

datatype IdentityError =
    AuthenticationRequired
  | IdentityMismatch ActorId ActorId
  | CredentialsRejected string
  | ResolverUnavailable string
  | ResolutionFailed string

datatype TransportExecutionError = TE_Rejected string | TE_Unavailable string | TE_Failed string

datatype EventSourceError =
  ES_SubscriptionLagged | ES_SubscriptionClosed | ES_Unavailable string | ES_Failed string

datatype SubscriptionAuthorizationError = SA_Rejected string | SA_Unavailable string | SA_Failed string

datatype VersionNegotiationError = UnsupportedVersion "Version list"

datatype TransportConfigError = NonZeroRequired string

datatype TransportError =
    CodecFailure CodecError
  | VersionFailure VersionNegotiationError
  | StateFailure ConnectionStateError
  | IdentityFailure IdentityError
  | ExecutionFailure TransportExecutionError
  | SubscriptionAuthorizationFailure SubscriptionAuthorizationError
  | EventSourceFailure EventSourceError
  | SlowConsumer
  | InternalFailure string

fun error_code :: "TransportError \<Rightarrow> TransportErrorCode" where
  "error_code (CodecFailure EncodeFailed) = TC_CodecError"
| "error_code (CodecFailure _) = TC_InvalidMessage"
| "error_code (VersionFailure _) = TC_UnsupportedVersion"
| "error_code (StateFailure _) = TC_ConnectionNotReady"
| "error_code (IdentityFailure (IdentityMismatch _ _)) = TC_IdentityMismatch"
| "error_code (IdentityFailure AuthenticationRequired) = TC_AuthenticationRequired"
| "error_code (IdentityFailure (CredentialsRejected _)) = TC_AuthenticationRequired"
| "error_code (IdentityFailure (ResolverUnavailable _)) = TC_AuthenticationRequired"
| "error_code (IdentityFailure (ResolutionFailed _)) = TC_InternalError"
| "error_code (ExecutionFailure (TE_Rejected _)) = TC_ExecutionRejected"
| "error_code (ExecutionFailure _) = TC_InternalError"
| "error_code (SubscriptionAuthorizationFailure (SA_Rejected _)) = TC_SubscriptionRejected"
| "error_code (SubscriptionAuthorizationFailure _) = TC_InternalError"
| "error_code (EventSourceFailure ES_SubscriptionLagged) = TC_SubscriptionLagged"
| "error_code (EventSourceFailure _) = TC_InternalError"
| "error_code (InternalFailure _) = TC_InternalError"
| "error_code SlowConsumer = TC_SlowConsumer"

fun is_retryable :: "TransportError \<Rightarrow> bool" where
  "is_retryable (IdentityFailure AuthenticationRequired) = True"
| "is_retryable (IdentityFailure (ResolverUnavailable _)) = True"
| "is_retryable (ExecutionFailure (TE_Unavailable _)) = True"
| "is_retryable (SubscriptionAuthorizationFailure (SA_Unavailable _)) = True"
| "is_retryable (EventSourceFailure ES_SubscriptionLagged) = True"
| "is_retryable (EventSourceFailure (ES_Unavailable _)) = True"
| "is_retryable SlowConsumer = True"
| "is_retryable _ = False"

primrec safe_message :: "TransportErrorCode \<Rightarrow> string" where
  "safe_message TC_InvalidMessage = ''The message is invalid.''"
| "safe_message TC_UnsupportedVersion = ''No compatible protocol version is available.''"
| "safe_message TC_ConnectionNotReady = ''The connection is not ready for this operation.''"
| "safe_message TC_AuthenticationRequired = ''Authentication is required.''"
| "safe_message TC_IdentityMismatch = ''The action identity does not match the connection identity.''"
| "safe_message TC_ExecutionRejected = ''The action was rejected.''"
| "safe_message TC_SubscriptionRejected = ''The subscription was rejected.''"
| "safe_message TC_SubscriptionLagged = ''The subscription fell behind.''"
| "safe_message TC_SlowConsumer = ''The connection cannot keep up with events.''"
| "safe_message TC_CodecError = ''The server could not encode the message.''"
| "safe_message TC_InternalError = ''An internal transport error occurred.''"

record ErrorMessage =
  em_request_id :: "MessageId option"
  em_code :: TransportErrorCode
  em_message :: string
  em_retryable :: bool

definition from_transport_error :: "MessageId option \<Rightarrow> TransportError \<Rightarrow> ErrorMessage" where
  "from_transport_error r e =
     \<lparr>em_request_id = r, em_code = error_code e, em_message = safe_message (error_code e),
      em_retryable = is_retryable e\<rparr>"


section \<open>Connection operations\<close>

definition conn_move ::
  "ConnectionState \<Rightarrow> TransportConnection \<Rightarrow> (ConnectionStateError, unit) result \<times> TransportConnection" where
  "conn_move t c = (case conn_transition_to (tc_state c) t of (r, s) \<Rightarrow> (r, c\<lparr>tc_state := s\<rparr>))"

definition begin_authentication ::
  "TransportConnection \<Rightarrow> (ConnectionStateError, unit) result \<times> TransportConnection" where
  "begin_authentication = conn_move Authenticating"

definition bind_identity ::
  "ActorBinding \<Rightarrow> TransportConnection \<Rightarrow> (ConnectionStateError, unit) result \<times> TransportConnection" where
  "bind_identity b c =
     (if tc_state c \<noteq> Authenticating then (Inl (OperationNotAllowed ''bind_identity'' (tc_state c)), c)
      else (Inr (), c\<lparr>tc_identity := Some b\<rparr>))"

definition mark_ready :: "TransportConnection \<Rightarrow> (TransportError, unit) result \<times> TransportConnection" where
  "mark_ready c =
     (if tc_identity c = None then (Inl (IdentityFailure AuthenticationRequired), c)
      else (case conn_move Ready c of (r, c') \<Rightarrow> (map_err StateFailure r, c')))"

definition begin_close :: "TransportConnection \<Rightarrow> (ConnectionStateError, unit) result \<times> TransportConnection" where
  "begin_close = conn_move Closing"

definition close_connection :: "TransportConnection \<Rightarrow> (ConnectionStateError, unit) result \<times> TransportConnection" where
  "close_connection = conn_move Closed"

definition validate_action_binding :: "ActorBinding option \<Rightarrow> Action \<Rightarrow> (IdentityError, unit) result" where
  "validate_action_binding b a =
     rbind (ok_or b AuthenticationRequired) (\<lambda>b.
     if ab_actor_id b \<noteq> ac_actor_id a then Inl (IdentityMismatch (ab_actor_id b) (ac_actor_id a)) else Inr ())"


section \<open>Versions and configuration\<close>

definition CURRENT_PROTOCOL_VERSION :: Version where
  "CURRENT_PROTOCOL_VERSION = Version_new 0 1 0"

definition QUERY_PROTOCOL_VERSION :: Version where
  "QUERY_PROTOCOL_VERSION = Version_new 0 2 0"

type_synonym version_policy = "Version list \<Rightarrow> (VersionNegotiationError, Version) result"

definition ExactVersionPolicy :: version_policy where
  "ExactVersionPolicy vs =
     (if CURRENT_PROTOCOL_VERSION \<in> set vs then Inr CURRENT_PROTOCOL_VERSION else Inl (UnsupportedVersion vs))"

definition ExactQueryVersionPolicy :: version_policy where
  "ExactQueryVersionPolicy vs =
     (if QUERY_PROTOCOL_VERSION \<in> set vs then Inr QUERY_PROTOCOL_VERSION else Inl (UnsupportedVersion vs))"

definition CompatibleVersionPolicy :: version_policy where
  "CompatibleVersionPolicy vs =
     (if QUERY_PROTOCOL_VERSION \<in> set vs then Inr QUERY_PROTOCOL_VERSION
      else if CURRENT_PROTOCOL_VERSION \<in> set vs then Inr CURRENT_PROTOCOL_VERSION
      else Inl (UnsupportedVersion vs))"

record TransportConfig =
  outbound_capacity :: nat
  max_message_bytes :: nat
  heartbeat_interval_milliseconds :: u64
  negotiation_timeout_milliseconds :: u64

definition TransportConfig_default :: TransportConfig where
  "TransportConfig_default = \<lparr>outbound_capacity = 256, max_message_bytes = 1024 * 1024,
     heartbeat_interval_milliseconds = 30000, negotiation_timeout_milliseconds = 10000\<rparr>"

definition require_non_zero :: "'a::zero \<Rightarrow> string \<Rightarrow> (TransportConfigError, unit) result" where
  "require_non_zero v field = (if v = 0 then Inl (NonZeroRequired field) else Inr ())"

definition TransportConfig_validate :: "TransportConfig \<Rightarrow> (TransportConfigError, unit) result" where
  "TransportConfig_validate c =
     rbind (require_non_zero (outbound_capacity c) ''outbound_capacity'') (\<lambda>_.
     rbind (require_non_zero (max_message_bytes c) ''max_message_bytes'') (\<lambda>_.
     rbind (require_non_zero (heartbeat_interval_milliseconds c) ''heartbeat_interval_milliseconds'') (\<lambda>_.
     rbind (require_non_zero (negotiation_timeout_milliseconds c) ''negotiation_timeout_milliseconds'') (\<lambda>_.
     Inr ()))))"


section \<open>Messages\<close>

datatype TransportSubscriptionId = TransportSubscriptionId EntityId

record SubscriptionRequest =
  subreq_request_id :: MessageId
  subreq_session_id :: SessionId
  subreq_event_types :: "EventType btree_set"

definition selects_all_event_types :: "SubscriptionRequest \<Rightarrow> bool" where
  "selects_all_event_types r \<longleftrightarrow> subreq_event_types r = []"

record Hello =
  hello_supported_versions :: "Version list"
  hello_codecs :: "string list"

record HelloAccepted =
  accepted_version :: Version
  accepted_codec :: string

record Authenticate =
  auth_request_id :: MessageId
  auth_credentials :: InboundCredentials

record Unsubscribe =
  unsub_request_id :: MessageId
  unsub_subscription_id :: TransportSubscriptionId

record QueryMessage =
  qm_version :: Version
  qm_message_id :: MessageId
  qm_message_type :: QueryType
  qm_payload :: Payload

definition into_request :: "QueryMessage \<Rightarrow> QueryRequest" where
  "into_request m =
     \<lparr>qr_request_id = qm_message_id m, qr_query_type = qm_message_type m, qr_payload = qm_payload m\<rparr>"

record QueryResponseMessage =
  qrm_version :: Version
  qrm_request_id :: MessageId
  qrm_query_type :: QueryType
  qrm_result :: QueryResult

definition from_response :: "Version \<Rightarrow> QueryResponse \<Rightarrow> QueryResponseMessage" where
  "from_response v r = \<lparr>qrm_version = v, qrm_request_id = qp_request_id r, qrm_query_type = qp_query_type r,
     qrm_result = qp_result r\<rparr>"

record ActionAcknowledgement =
  ack_request_id :: MessageId
  ack_action_id :: ActionId
  ack_generated_event_ids :: "EventId list"

record SubscriptionAccepted =
  sacc_request_id :: MessageId
  sacc_subscription_id :: TransportSubscriptionId

record SubscriptionClosedMessage =
  sclo_request_id :: "MessageId option"
  sclo_subscription_id :: TransportSubscriptionId

datatype InboundMessage =
    InHello Hello
  | InAuthenticate Authenticate
  | InSubscribe SubscriptionRequest
  | InUnsubscribe Unsubscribe
  | InAction "Action MessageEnvelope"
  | InQuery QueryMessage
  | InPing u64
  | InClose "string option"

datatype OutboundMessage =
    OutHelloAccepted HelloAccepted
  | OutActionAcknowledgement ActionAcknowledgement
  | OutQueryResponse QueryResponseMessage
  | OutSubscriptionAccepted SubscriptionAccepted
  | OutSubscriptionClosed SubscriptionClosedMessage
  | OutEvent "Event MessageEnvelope"
  | OutError ErrorMessage
  | OutPong u64
  | OutClose "string option"


section \<open>Reachable connections\<close>

text \<open>The operations a connection's owner may call, in any order and with any outcome.\<close>

datatype conn_op = BeginAuthentication | BindIdentity ActorBinding | MarkReady | BeginClose | Close

primrec run_conn_op :: "conn_op \<Rightarrow> TransportConnection \<Rightarrow> TransportConnection" where
  "run_conn_op BeginAuthentication c = snd (begin_authentication c)"
| "run_conn_op (BindIdentity b) c = snd (bind_identity b c)"
| "run_conn_op MarkReady c = snd (mark_ready c)"
| "run_conn_op BeginClose c = snd (begin_close c)"
| "run_conn_op Close c = snd (close_connection c)"

inductive conn_step :: "TransportConnection \<Rightarrow> TransportConnection \<Rightarrow> bool" where
  op: "conn_step c (run_conn_op op c)"

inductive_cases conn_stepE: "conn_step c c'"

lemmas conn_defs = conn_move_def conn_transition_to_def begin_authentication_def bind_identity_def
  mark_ready_def begin_close_def close_connection_def

fun conn_rank :: "ConnectionState \<Rightarrow> nat" where
  "conn_rank Negotiating = 0"
| "conn_rank Authenticating = 1"
| "conn_rank Ready = 2"
| "conn_rank Closing = 3"
| "conn_rank Closed = 4"

interpretation conn: lifecycle conn_can_transition_to conn_rank
proof
  fix s t
  show "conn_can_transition_to s t \<Longrightarrow> conn_rank s < conn_rank t"
    by (cases s; cases t) simp_all
qed

lemma conn_op_state:
  "tc_state (run_conn_op op c) = tc_state c \<or> conn_can_transition_to (tc_state c) (tc_state (run_conn_op op c))"
  by (cases op) (auto simp: conn_defs split: prod.splits)

lemma conn_op_frame: "tc_id (run_conn_op op c) = tc_id c \<and> tc_metadata (run_conn_op op c) = tc_metadata c"
  by (cases op) (auto simp: conn_defs split: prod.splits)

definition conn_inv :: "TransportConnection \<Rightarrow> bool" where
  "conn_inv c \<longleftrightarrow> (tc_state c = Ready \<longrightarrow> tc_identity c \<noteq> None) \<and> (tc_state c = Negotiating \<longrightarrow> tc_identity c = None)"

lemma conn_inv_op [model_inv]: "conn_inv c \<Longrightarrow> conn_inv (run_conn_op op c)"
  by (cases op; cases "tc_state c") (auto simp: conn_defs conn_inv_def split: prod.splits)

lemma conn_op_identity: "tc_state c \<noteq> Authenticating \<Longrightarrow> tc_identity (run_conn_op op c) = tc_identity c"
  by (cases op) (auto simp: conn_defs split: prod.splits)

lemma conn_steps_snoc: "conn_step\<^sup>*\<^sup>* c d \<Longrightarrow> conn_step\<^sup>*\<^sup>* c (run_conn_op op d)"
  by (erule rtranclp.rtrancl_into_rtrancl) (rule conn_step.op)

lemma conn_inv_steps: "conn_step\<^sup>*\<^sup>* c c' \<Longrightarrow> conn_inv c \<Longrightarrow> conn_inv c'"
  by (induction rule: rtranclp_induct) (auto elim!: conn_stepE intro: conn_inv_op)

lemma conn_steps_state: "conn_step\<^sup>*\<^sup>* c c' \<Longrightarrow> conn_can_transition_to\<^sup>*\<^sup>* (tc_state c) (tc_state c')"
proof (induction rule: rtranclp_induct)
  case (step d e)
  from step(2) obtain op where "e = run_conn_op op d" by (rule conn_stepE)
  with conn_op_state [of op d] step(3) show ?case by (auto intro: rtranclp.rtrancl_into_rtrancl)
qed simp

lemma identity_frozen:
  "conn_step\<^sup>*\<^sup>* c c' \<Longrightarrow> conn_rank (tc_state c) \<ge> 2 \<Longrightarrow> tc_identity c' = tc_identity c"
proof (induction rule: rtranclp_induct)
  case (step d e)
  have "conn_rank (tc_state d) \<ge> 2"
    using conn.steps_rank [OF conn_steps_state [OF step(1)]] step(4) by linarith
  then have "tc_state d \<noteq> Authenticating" by auto
  moreover from step(2) obtain op where "e = run_conn_op op d" by (rule conn_stepE)
  ultimately show ?case using conn_op_identity [of d op] step by simp
qed simp


section \<open>Properties\<close>

text \<open>No connection is ready without an identity, and the identity of a ready connection is final:
  whatever operations are called on a fresh connection, in whatever order and including refused ones,
  a connection that is ready has a bound actor, later operations keep that actor, and the state only
  moves forward, so that a closed connection stays closed.\<close>

theorem ready_connection_is_authenticated:
  assumes "conn_step\<^sup>*\<^sup>* (TransportConnection_new i m) c" "conn_step\<^sup>*\<^sup>* c c'"
  shows "(tc_state c = Ready \<longrightarrow> (\<exists>b. tc_identity c = Some b \<and> tc_identity c' = Some b))
    \<and> conn_can_transition_to\<^sup>*\<^sup>* (tc_state c) (tc_state c')
    \<and> (tc_state c = Closed \<longrightarrow> c' = c)"
proof -
  have "conn_inv c"
    by (rule conn_inv_steps [OF assms(1)]) (simp add: conn_inv_def TransportConnection_new_def)
  then have "\<exists>b. tc_identity c = Some b \<and> tc_identity c' = Some b" if "tc_state c = Ready"
    using identity_frozen [OF assms(2)] that by (auto simp: conn_inv_def)
  moreover have "c' = c" if "tc_state c = Closed"
    using assms(2) that
  proof (induction rule: rtranclp_induct)
    case (step d e)
    then have "d = c" "tc_state d = Closed" by simp_all
    moreover from step(2) obtain op where "e = run_conn_op op d" by (rule conn_stepE)
    ultimately show ?case by (cases op) (auto simp: conn_defs)
  qed simp
  ultimately show ?thesis using conn_steps_state [OF assms(2)] by blast
qed

theorem ready_connection_is_authenticated_witness:
  "tc_identity (run_conn_op Close (run_conn_op BeginClose (run_conn_op MarkReady
     (run_conn_op (BindIdentity \<lparr>ab_actor_id = ActorId (EntityId 2), ab_source = IdentitySource ''t''\<rparr>)
       (run_conn_op BeginAuthentication (TransportConnection_new (ConnectionId (EntityId 1)) metadata_new))))))
   = Some \<lparr>ab_actor_id = ActorId (EntityId 2), ab_source = IdentitySource ''t''\<rparr>"
proof -
  let ?b = "\<lparr>ab_actor_id = ActorId (EntityId 2), ab_source = IdentitySource ''t''\<rparr>"
  let ?n = "TransportConnection_new (ConnectionId (EntityId 1)) metadata_new"
  let ?c = "run_conn_op MarkReady (run_conn_op (BindIdentity ?b) (run_conn_op BeginAuthentication ?n))"
  have "conn_step\<^sup>*\<^sup>* ?n ?c" "conn_step\<^sup>*\<^sup>* ?c (run_conn_op Close (run_conn_op BeginClose ?c))"
    by (rule rtranclp.rtrancl_refl | rule conn_steps_snoc)+
  from ready_connection_is_authenticated [OF this] show ?thesis
    by (simp add: conn_defs TransportConnection_new_def)
qed

end
