(* ===== verification/Transport_Codec.thy ===== *)
theory Transport_Codec
  imports Transport_Model
begin

text \<open>
  The strict JSON codec of \<open>orbitrelay-transport\<close>. \<open>serde_json\<close> itself is a parameter: \<open>jc_parse\<close> is
  \<open>from_slice\<close> into a JSON value, \<open>jc_from_value\<close> the derived reader of inbound messages and
  \<open>jc_to_vec\<close> the derived writer. The structural checks that run between the two are modelled on JSON
  values.
\<close>

section \<open>Structural checks\<close>

fun require_object :: "json \<Rightarrow> (CodecError, (string, json) btree_map) result" where
  "require_object (JObject m) = Inr m"
| "require_object _ = Inl InvalidMessageShape"

fun as_str :: "json \<Rightarrow> string option" where
  "as_str (JString s) = Some s"
| "as_str _ = None"

definition validate_exact_fields :: "(string, json) btree_map \<Rightarrow> string list \<Rightarrow> (CodecError, unit) result" where
  "validate_exact_fields m expected =
     (case find (\<lambda>f. btree_get m f = None) expected of
        Some f \<Rightarrow> Inl (MissingField f)
      | None \<Rightarrow>
          (case find (\<lambda>f. f \<notin> set expected) (map fst m) of
             Some f \<Rightarrow> Inl (UnknownField f)
           | None \<Rightarrow> Inr ()))"

definition ENVELOPE_FIELDS :: "string list" where
  "ENVELOPE_FIELDS = [''version'', ''message_id'', ''message_type'', ''payload'']"

definition VERSION_FIELDS :: "string list" where
  "VERSION_FIELDS = [''major'', ''minor'', ''patch'']"

definition ACTION_FIELDS :: "string list" where
  "ACTION_FIELDS =
     [''id'', ''session_id'', ''actor_id'', ''action_type'', ''requested_at'', ''payload'', ''metadata'']"

definition validate_query_message :: "json \<Rightarrow> (CodecError, unit) result" where
  "validate_query_message v =
     rbind (require_object v) (\<lambda>message.
     rbind (validate_exact_fields message ENVELOPE_FIELDS) (\<lambda>_.
     rbind (ok_or (btree_get message ''version'') (MissingField ''version'')) (\<lambda>version.
     rbind (require_object version) (\<lambda>version.
     rbind (validate_exact_fields version VERSION_FIELDS) (\<lambda>_.
     rbind (ok_or (Option.bind (btree_get message ''message_type'') as_str) InvalidMessageShape) (\<lambda>query_type.
     rbind (map_err (\<lambda>_. InvalidMessageShape) (QueryType_new query_type)) (\<lambda>_.
     rbind (ok_or (btree_get message ''payload'') (MissingField ''payload'')) (\<lambda>payload.
     rbind (require_object payload) (\<lambda>_. Inr ())))))))))"

definition validate_action_envelope :: "json \<Rightarrow> (CodecError, unit) result" where
  "validate_action_envelope v =
     rbind (require_object v) (\<lambda>envelope.
     rbind (validate_exact_fields envelope ENVELOPE_FIELDS) (\<lambda>_.
     rbind (ok_or (btree_get envelope ''version'') (MissingField ''version'')) (\<lambda>version.
     rbind (require_object version) (\<lambda>version.
     rbind (validate_exact_fields version VERSION_FIELDS) (\<lambda>_.
     rbind (ok_or (Option.bind (btree_get envelope ''message_type'') as_str) InvalidMessageShape) (\<lambda>message_type.
     if message_type \<noteq> ''action'' then Inl (UnexpectedEnvelopeType ''action'' message_type)
     else
       rbind (ok_or (btree_get envelope ''payload'') (MissingField ''payload'')) (\<lambda>action.
       rbind (require_object action) (\<lambda>action.
       rbind (validate_exact_fields action ACTION_FIELDS) (\<lambda>_.
       rbind (ok_or (btree_get action ''payload'') (MissingField ''payload'')) (\<lambda>payload.
       rbind (require_object payload) (\<lambda>_.
       rbind (ok_or (btree_get action ''metadata'') (MissingField ''metadata'')) (\<lambda>metadata.
       rbind (require_object metadata) (\<lambda>_. Inr ())))))))))))))"

definition CONTROL_KINDS :: "string list" where
  "CONTROL_KINDS = [''hello'', ''authenticate'', ''subscribe'', ''unsubscribe'', ''ping'', ''close'']"

definition validate_inbound :: "json \<Rightarrow> (CodecError, unit) result" where
  "validate_inbound v =
     rbind (require_object v) (\<lambda>object.
     rbind (validate_exact_fields object [''kind'', ''payload'']) (\<lambda>_.
     rbind (ok_or (Option.bind (btree_get object ''kind'') as_str) InvalidMessageShape) (\<lambda>kind.
     rbind (ok_or (btree_get object ''payload'') (MissingField ''payload'')) (\<lambda>payload.
     if kind \<in> set CONTROL_KINDS then Inr ()
     else if kind = ''action'' then validate_action_envelope payload
     else if kind = ''query'' then validate_query_message payload
     else Inl (UnsupportedMessageType kind)))))"


section \<open>The codec\<close>

record json_crate =
  jc_parse :: "bytes \<Rightarrow> json option"
  jc_from_value :: "json \<Rightarrow> InboundMessage option"
  jc_to_vec :: "OutboundMessage \<Rightarrow> bytes option"

record MessageCodec =
  codec_name :: string
  decode_inbound :: "bytes \<Rightarrow> (CodecError, InboundMessage) result"
  encode_outbound :: "OutboundMessage \<Rightarrow> (CodecError, bytes) result"

definition json_decode_inbound :: "json_crate \<Rightarrow> bytes \<Rightarrow> (CodecError, InboundMessage) result" where
  "json_decode_inbound J bs =
     rbind (ok_or (jc_parse J bs) InvalidJson) (\<lambda>v.
     rbind (validate_inbound v) (\<lambda>_.
     ok_or (jc_from_value J v) DecodeFailed))"

definition json_encode_outbound :: "json_crate \<Rightarrow> OutboundMessage \<Rightarrow> (CodecError, bytes) result" where
  "json_encode_outbound J m = ok_or (jc_to_vec J m) EncodeFailed"

definition JsonCodec :: "json_crate \<Rightarrow> MessageCodec" where
  "JsonCodec J = \<lparr>codec_name = ''json'', decode_inbound = json_decode_inbound J,
     encode_outbound = json_encode_outbound J\<rparr>"


section \<open>Specification and lemmas\<close>

text \<open>The accepted shapes, by the key set of each object.\<close>

definition has_fields :: "json \<Rightarrow> string set \<Rightarrow> (string \<rightharpoonup> json) \<Rightarrow> bool" where
  "has_fields v fs m \<longleftrightarrow> (\<exists>entries. v = JObject entries \<and> m = map_of entries) \<and> dom m = fs"

definition is_object :: "json option \<Rightarrow> bool" where
  "is_object v \<longleftrightarrow> (\<exists>m. v = Some (JObject m))"

definition version_shape :: "json option \<Rightarrow> bool" where
  "version_shape v \<longleftrightarrow> (\<exists>w m. v = Some w \<and> has_fields w {''major'', ''minor'', ''patch''} m)"

definition action_shape :: "json \<Rightarrow> bool" where
  "action_shape v \<longleftrightarrow>
     (\<exists>m a am. has_fields v {''version'', ''message_id'', ''message_type'', ''payload''} m
        \<and> version_shape (m ''version'') \<and> m ''message_type'' = Some (JString ''action'')
        \<and> m ''payload'' = Some a
        \<and> has_fields a {''id'', ''session_id'', ''actor_id'', ''action_type'', ''requested_at'', ''payload'', ''metadata''} am
        \<and> is_object (am ''payload'') \<and> is_object (am ''metadata''))"

definition query_shape :: "json \<Rightarrow> bool" where
  "query_shape v \<longleftrightarrow>
     (\<exists>m t. has_fields v {''version'', ''message_id'', ''message_type'', ''payload''} m
        \<and> version_shape (m ''version'') \<and> m ''message_type'' = Some (JString t)
        \<and> (\<exists>q. QueryType_new t = Inr q) \<and> is_object (m ''payload''))"

definition inbound_shape :: "json \<Rightarrow> bool" where
  "inbound_shape v \<longleftrightarrow>
     (\<exists>m k p. has_fields v {''kind'', ''payload''} m \<and> m ''kind'' = Some (JString k) \<and> m ''payload'' = Some p
        \<and> (k \<in> {''hello'', ''authenticate'', ''subscribe'', ''unsubscribe'', ''ping'', ''close''}
           \<or> k = ''action'' \<and> action_shape p \<or> k = ''query'' \<and> query_shape p))"

lemma require_object_ok: "require_object v = Inr m \<longleftrightarrow> v = JObject m"
  by (cases v) auto

lemma as_str_ok: "as_str v = Some s \<longleftrightarrow> v = JString s"
  by (cases v) auto

lemma exact_fields_ok: "validate_exact_fields m fs = Inr u \<longleftrightarrow> dom (btree_get m) = set fs"
proof -
  have "validate_exact_fields m fs = Inr u \<longleftrightarrow>
      find (\<lambda>f. btree_get m f = None) fs = None \<and> find (\<lambda>f. f \<notin> set fs) (map fst m) = None"
    by (simp add: validate_exact_fields_def split: option.splits)
  also have "\<dots> \<longleftrightarrow> set fs \<subseteq> dom (btree_get m) \<and> dom (btree_get m) \<subseteq> set fs"
    by (auto simp: find_None_iff dom_map_of_conv_image_fst map_of_eq_None_iff)
  finally show ?thesis by blast
qed

lemma bind_as_str: "Option.bind x as_str = Some s \<longleftrightarrow> x = Some (JString s)"
  by (cases x) (auto simp: as_str_ok)

lemma if_error_ok: "(if b then Inl e else r) = Inr x \<longleftrightarrow> \<not> b \<and> r = Inr x"
  by simp

lemmas codec_simps = require_object_ok exact_fields_ok bind_as_str if_error_ok rbind_eq_Inr ok_or_eq_Inr
  map_err_eq_Inr

lemma field_sets:
  "{''version'', ''message_id'', ''message_type'', ''payload''} = set ENVELOPE_FIELDS"
  "{''major'', ''minor'', ''patch''} = set VERSION_FIELDS"
  "{''id'', ''session_id'', ''actor_id'', ''action_type'', ''requested_at'', ''payload'', ''metadata''} = set ACTION_FIELDS"
  "{''hello'', ''authenticate'', ''subscribe'', ''unsubscribe'', ''ping'', ''close''} = set CONTROL_KINDS"
  by (simp_all add: ENVELOPE_FIELDS_def VERSION_FIELDS_def ACTION_FIELDS_def CONTROL_KINDS_def)

lemma validate_action_ok: "validate_action_envelope v = Inr () \<longleftrightarrow> action_shape v"
  unfolding validate_action_envelope_def action_shape_def version_shape_def is_object_def has_fields_def
    field_sets codec_simps
  by auto

lemma validate_query_ok: "validate_query_message v = Inr () \<longleftrightarrow> query_shape v"
  unfolding validate_query_message_def query_shape_def version_shape_def is_object_def has_fields_def
    field_sets codec_simps
  by auto

lemma kinds_ok:
  "(if k \<in> set CONTROL_KINDS then Inr () else if k = ''action'' then validate_action_envelope p
    else if k = ''query'' then validate_query_message p else Inl (UnsupportedMessageType k)) = Inr ()
   \<longleftrightarrow> k \<in> set CONTROL_KINDS \<or> k = ''action'' \<and> action_shape p \<or> k = ''query'' \<and> query_shape p"
proof -
  have "''action'' \<notin> set CONTROL_KINDS" "''query'' \<notin> set CONTROL_KINDS" by (simp_all add: CONTROL_KINDS_def)
  then show ?thesis by (auto simp: validate_action_ok validate_query_ok)
qed

lemma validate_inbound_ok: "validate_inbound v = Inr () \<longleftrightarrow> inbound_shape v"
proof -
  have pair: "{''kind'', ''payload''} = set [''kind'', ''payload'']" by simp
  show ?thesis
    unfolding validate_inbound_def inbound_shape_def has_fields_def pair field_sets codec_simps kinds_ok
    by (simp only: ex_simps simp_thms) blast
qed


section \<open>Properties\<close>

text \<open>C25. The inbound codec is strict: a frame decodes exactly if it is JSON, has the shape of one of
  the eight inbound kinds (exactly the fields \<open>kind\<close> and \<open>payload\<close>; for actions and queries exactly the
  fields of the envelope, of its version and, for actions, of the action, with the message type
  \<open>action\<close> or a well-formed query type) and the typed reader accepts it.\<close>

theorem inbound_codec_is_strict:
  "decode_inbound (JsonCodec J) bs = Inr msg \<longleftrightarrow>
     (\<exists>v. jc_parse J bs = Some v \<and> inbound_shape v \<and> jc_from_value J v = Some msg)"
  by (auto simp: JsonCodec_def json_decode_inbound_def validate_inbound_ok result_simps)

end
