(* ===== verification/Transport_Session.thy ===== *)
theory Transport_Session
  imports Transport_Codec
begin

text \<open>
  The session coordinator of the WebSocket adapter (\<open>websocket/coordinator.rs\<close>): the handling of every
  inbound message, of every event its worker tasks report and of heartbeats, the shutdown sequence,
  and the adapter configuration.

  The coordinator is the only owner of the connection state; everything else it touches is reached
  through channels and tasks. These, and the ports supplied by the application, are the fields of
  \<open>SessionPorts\<close>, functions on a world \<open>'w\<close>: \<open>sp_write\<close>, \<open>sp_action\<close> and \<open>sp_query\<close> are \<open>try_send(..).is_ok()\<close>
  on the bounded queues, \<open>sp_spawn_pump\<close> and \<open>sp_stop_pump\<close> start and cancel-and-join the task of a
  subscription. The loop's \<open>select!\<close> is a sequence of inputs in an arbitrary order, each with the time at
  which it is taken, in nanoseconds.
\<close>

section \<open>Types\<close>

datatype WebSocketAdapterError =
    WS_Configuration TransportConfigError
  | WS_Transport TransportError
  | WS_ConnectionState ConnectionStateError
  | WS_Frame string
  | WS_Codec CodecError
  | WS_WriteTimeout string u64
  | WS_Task string

record WebSocketAdapterConfig =
  wc_transport :: TransportConfig
  inbound_capacity :: nat
  action_queue_capacity :: nat
  query_queue_capacity :: nat
  max_in_flight_queries :: nat
  heartbeat_timeout_milliseconds :: u64
  write_timeout_milliseconds :: u64

definition WebSocketAdapterConfig_new :: "TransportConfig \<Rightarrow> nat \<Rightarrow> nat \<Rightarrow> u64 \<Rightarrow> WebSocketAdapterConfig" where
  "WebSocketAdapterConfig_new t inbound actions heartbeat =
     \<lparr>wc_transport = t, inbound_capacity = inbound, action_queue_capacity = actions,
      query_queue_capacity = actions, max_in_flight_queries = 8,
      heartbeat_timeout_milliseconds = heartbeat, write_timeout_milliseconds = 5000\<rparr>"

definition WebSocketAdapterConfig_validate :: "WebSocketAdapterConfig \<Rightarrow> (WebSocketAdapterError, unit) result" where
  "WebSocketAdapterConfig_validate c =
     rbind (map_err WS_Configuration (TransportConfig_validate (wc_transport c))) (\<lambda>_.
     if inbound_capacity c = 0 then Inl (WS_Configuration (NonZeroRequired ''inbound_capacity''))
     else if action_queue_capacity c = 0 then Inl (WS_Configuration (NonZeroRequired ''action_queue_capacity''))
     else if query_queue_capacity c = 0 then Inl (WS_Configuration (NonZeroRequired ''query_queue_capacity''))
     else if max_in_flight_queries c = 0 then Inl (WS_Configuration (NonZeroRequired ''max_in_flight_queries''))
     else if heartbeat_timeout_milliseconds c = 0
     then Inl (WS_Configuration (NonZeroRequired ''heartbeat_timeout_milliseconds''))
     else if write_timeout_milliseconds c = 0
     then Inl (WS_Configuration (NonZeroRequired ''write_timeout_milliseconds''))
     else Inr ())"

datatype ReaderEvent =
    ReaderText bytes
  | ReaderNativePing bytes
  | ReaderNativePong
  | ReaderClosed
  | ReaderBinary
  | ReaderOversized

datatype WriterCommand =
    Application OutboundMessage MessageCodec
  | NativePing bytes
  | NativePong bytes
  | WriterClose

record ActionJob =
  aj_request_id :: MessageId
  aj_action :: Action

record QueryJob =
  qj_actor :: QueryActorContext
  qj_request :: QueryRequest

datatype CoordinatorEvent =
    ActionCompleted MessageId ActionId "(TransportExecutionError, Event list) result"
  | QueryCompleted QueryResponse
  | SubscriptionFinished TransportSubscriptionId
  | EventSourceFailed TransportSubscriptionId TransportError bool bool
  | SlowConsumerEvent TransportSubscriptionId
  | WriterFailed WebSocketAdapterError
  | ReaderFailed string

record ('w, 'src) SessionPorts =
  sp_resolve :: "ConnectionId \<Rightarrow> InboundCredentials \<Rightarrow> 'w \<Rightarrow> (IdentityError, ActorBinding) result \<times> 'w"
  sp_authorize :: "ActorBinding \<Rightarrow> SubscriptionRequest \<Rightarrow> 'w \<Rightarrow> (SubscriptionAuthorizationError, unit) result \<times> 'w"
  sp_subscribe :: "SubscriptionRequest \<Rightarrow> 'w \<Rightarrow> (EventSourceError, TransportSubscriptionId \<times> 'src) result \<times> 'w"
  sp_close_source :: "'src \<Rightarrow> 'w \<Rightarrow> 'w"
  sp_drop_source :: "'src \<Rightarrow> 'w \<Rightarrow> 'w"
  sp_version_policy :: version_policy
  sp_codec :: MessageCodec
  sp_bootstrap :: MessageCodec
  sp_has_query_executor :: bool
  sp_write :: "WriterCommand \<Rightarrow> 'w \<Rightarrow> bool \<times> 'w"
  sp_action :: "ActionJob \<Rightarrow> 'w \<Rightarrow> bool \<times> 'w"
  sp_query :: "QueryJob \<Rightarrow> 'w \<Rightarrow> bool \<times> 'w"
  sp_spawn_pump :: "TransportSubscriptionId \<Rightarrow> 'src \<Rightarrow> Version \<Rightarrow> MessageCodec \<Rightarrow> 'w \<Rightarrow> 'w"
  sp_stop_pump :: "TransportSubscriptionId \<Rightarrow> 'w \<Rightarrow> 'w"
  sp_send_close :: "'w \<Rightarrow> bool \<times> 'w"
  sp_join :: "bool \<Rightarrow> TransportSubscriptionId set \<Rightarrow> 'w \<Rightarrow> 'w"
  sp_show_error :: "WebSocketAdapterError \<Rightarrow> string"

record Coordinator =
  co_connection :: TransportConnection
  co_active_codec :: MessageCodec
  co_version :: "Version option"
  co_subscriptions :: "TransportSubscriptionId set"
  co_last_activity :: nat
  co_negotiation_started :: nat

type_synonym ('w, 'a) session_op =
  "Coordinator \<times> 'w \<Rightarrow> (WebSocketAdapterError, 'a) result \<times> Coordinator \<times> 'w"



section \<open>Queueing\<close>

definition queue_application ::
  "('w, 'src) SessionPorts \<Rightarrow> MessageCodec \<Rightarrow> OutboundMessage \<Rightarrow> 'w \<Rightarrow> bool \<times> 'w" where
  "queue_application P codec m w = sp_write P (Application m codec) w"

definition queue_error ::
  "('w, 'src) SessionPorts \<Rightarrow> MessageCodec \<Rightarrow> MessageId option \<Rightarrow> TransportError \<Rightarrow> 'w \<Rightarrow> bool \<times> 'w" where
  "queue_error P codec r e w = queue_application P codec (OutError (from_transport_error r e)) w"

definition queue_query_response ::
  "('w, 'src) SessionPorts \<Rightarrow> MessageCodec \<Rightarrow> Version \<Rightarrow> QueryResponse \<Rightarrow> nat \<Rightarrow> 'w \<Rightarrow> bool \<times> 'w" where
  "queue_query_response P codec v response limit w =
     (let message = OutQueryResponse (from_response v response) in
      case encode_outbound codec message of
        Inr encoded \<Rightarrow>
          if length encoded \<le> limit then queue_application P codec message w
          else
            (let fallback = OutQueryResponse (from_response v
                   (QueryResponse_error (qp_request_id response) (qp_query_type response)
                     \<lparr>qf_code = QF_Internal,
                      qf_message = ''The query response exceeds the configured message limit.'',
                      qf_retryable = False\<rparr>))
             in case encode_outbound codec fallback of
                  Inr encoded \<Rightarrow> if length encoded \<le> limit then queue_application P codec fallback w else (False, w)
                | Inl _ \<Rightarrow> (False, w))
      | Inl _ \<Rightarrow> (False, w))"

text \<open>A refused write becomes the error \<open>SlowConsumer\<close>.\<close>

definition or_slow :: "('w \<Rightarrow> bool \<times> 'w) \<Rightarrow> ('w, unit) session_op" where
  "or_slow q s =
     (case s of (co, w) \<Rightarrow>
        (case q w of
           (True, w') \<Rightarrow> (Inr (), co, w')
         | (False, w') \<Rightarrow> (Inl (WS_Transport SlowConsumer), co, w')))"


section \<open>Inbound messages\<close>

fun ensure_ready :: "TransportConnection \<Rightarrow> (WebSocketAdapterError, unit) result" where
  "ensure_ready c =
     (case tc_state c of
        Ready \<Rightarrow> Inr ()
      | Authenticating \<Rightarrow> Inl (WS_Transport (IdentityFailure AuthenticationRequired))
      | st \<Rightarrow> Inl (WS_Transport (StateFailure (OperationNotAllowed ''data_plane_message'' st))))"

definition handle_hello :: "('w, 'src) SessionPorts \<Rightarrow> Hello \<Rightarrow> ('w, unit) session_op" where
  "handle_hello P h s =
     (case s of (co, w) \<Rightarrow>
      if tc_state (co_connection co) \<noteq> Negotiating
      then (Inl (WS_Transport (InternalFailure ''duplicate or late hello'')), co, w)
      else if ''json'' \<notin> set (hello_codecs h) \<or> codec_name (co_active_codec co) \<noteq> ''json''
      then (Inl (WS_Transport (CodecFailure (UnsupportedMessageType ''codec''))), co, w)
      else
     (case sp_version_policy P (hello_supported_versions h) of
        Inl e \<Rightarrow> (Inl (WS_Transport (VersionFailure e)), co, w)
      | Inr v \<Rightarrow>
     (case begin_authentication (co_connection co) of
        (Inl e, c) \<Rightarrow> (Inl (WS_ConnectionState e), co\<lparr>co_connection := c\<rparr>, w)
      | (Inr _, c) \<Rightarrow>
     sbind (or_slow (queue_application P (sp_bootstrap P)
              (OutHelloAccepted \<lparr>accepted_version = v, accepted_codec = ''json''\<rparr>)))
       (\<lambda>_ s. case s of (co, w) \<Rightarrow> (Inr (), co\<lparr>co_active_codec := sp_codec P\<rparr>, w))
       (co\<lparr>co_connection := c, co_version := Some v\<rparr>, w))))"

definition handle_authenticate :: "('w, 'src) SessionPorts \<Rightarrow> Authenticate \<Rightarrow> ('w, unit) session_op" where
  "handle_authenticate P m s =
     (case s of (co, w) \<Rightarrow>
      if tc_state (co_connection co) \<noteq> Authenticating
      then (Inl (WS_Transport (StateFailure (OperationNotAllowed ''authenticate'' (tc_state (co_connection co))))), co, w)
      else
     (case sp_resolve P (tc_id (co_connection co)) (auth_credentials m) w of
        (Inl e, w') \<Rightarrow> (Inl (WS_Transport (IdentityFailure e)), co, w')
      | (Inr b, w') \<Rightarrow>
     (case bind_identity b (co_connection co) of
        (Inl e, c) \<Rightarrow> (Inl (WS_ConnectionState e), co\<lparr>co_connection := c\<rparr>, w')
      | (Inr _, c) \<Rightarrow>
     (case mark_ready c of (r, c') \<Rightarrow> (map_err WS_Transport r, co\<lparr>co_connection := c'\<rparr>, w')))))"

definition handle_action :: "('w, 'src) SessionPorts \<Rightarrow> Action MessageEnvelope \<Rightarrow> ('w, unit) session_op" where
  "handle_action P env s =
     (case s of (co, w) \<Rightarrow>
      sbind (slift (ensure_ready (co_connection co))) (\<lambda>_.
      sbind (slift (map_err (\<lambda>e. WS_Transport (IdentityFailure e))
               (validate_action_binding (tc_identity (co_connection co)) (env_payload env)))) (\<lambda>_ s.
      case s of (co, w) \<Rightarrow>
        (case sp_action P \<lparr>aj_request_id = env_message_id env, aj_action = env_payload env\<rparr> w of
           (True, w') \<Rightarrow> (Inr (), co, w')
         | (False, w') \<Rightarrow>
             (Inl (WS_Transport (ExecutionFailure (TE_Unavailable ''action queue is full''))), co, w')))) (co, w))"

definition query_unavailable :: "QueryMessage \<Rightarrow> QueryResponse" where
  "query_unavailable m = QueryResponse_error (qm_message_id m) (qm_message_type m)
     \<lparr>qf_code = QF_Unavailable, qf_message = ''The query service is temporarily unavailable.'', qf_retryable = True\<rparr>"

definition handle_query :: "('w, 'src) SessionPorts \<Rightarrow> nat \<Rightarrow> QueryMessage \<Rightarrow> ('w, unit) session_op" where
  "handle_query P limit m s =
     (case s of (co, w) \<Rightarrow>
      sbind (slift (ensure_ready (co_connection co))) (\<lambda>_ s.
      case co_version co of
        None \<Rightarrow> (Inl (WS_Transport (VersionFailure (UnsupportedVersion [QUERY_PROTOCOL_VERSION]))), s)
      | Some negotiated \<Rightarrow>
          if negotiated \<noteq> QUERY_PROTOCOL_VERSION \<or> qm_version m \<noteq> QUERY_PROTOCOL_VERSION
          then or_slow (queue_error P (co_active_codec co) (Some (qm_message_id m))
                 (VersionFailure (UnsupportedVersion [QUERY_PROTOCOL_VERSION]))) s
          else
          sbind (slift (ok_or (tc_identity (co_connection co)) (WS_Transport (IdentityFailure AuthenticationRequired)))) (\<lambda>b s.
          if \<not> sp_has_query_executor P
          then or_slow (queue_query_response P (co_active_codec co) negotiated (query_unavailable m) limit) s
          else
            (case s of (co, w) \<Rightarrow>
             (case sp_query P \<lparr>qj_actor = QueryActorContext_new (ab_actor_id b), qj_request = into_request m\<rparr> w of
                (True, w') \<Rightarrow> (Inr (), co, w')
              | (False, w') \<Rightarrow>
                  or_slow (queue_query_response P (co_active_codec co) negotiated (query_unavailable m) limit) (co, w')))) s)
        (co, w))"

definition handle_subscribe :: "('w, 'src) SessionPorts \<Rightarrow> SubscriptionRequest \<Rightarrow> ('w, unit) session_op" where
  "handle_subscribe P r s =
     (case s of (co, w) \<Rightarrow>
      sbind (slift (ensure_ready (co_connection co))) (\<lambda>_.
      sbind (slift (ok_or (tc_identity (co_connection co)) (WS_Transport (IdentityFailure AuthenticationRequired)))) (\<lambda>b s.
      case s of (co, w) \<Rightarrow>
     (case sp_authorize P b r w of
        (Inl e, w1) \<Rightarrow> (Inl (WS_Transport (SubscriptionAuthorizationFailure e)), co, w1)
      | (Inr _, w1) \<Rightarrow>
     (case sp_subscribe P r w1 of
        (Inl e, w2) \<Rightarrow> (Inl (WS_Transport (EventSourceFailure e)), co, w2)
      | (Inr (i, source), w2) \<Rightarrow>
      if i \<in> co_subscriptions co
      then (Inl (WS_Transport (InternalFailure ''duplicate subscription identifier'')), co, sp_drop_source P source w2)
      else
     (case co_version co of
        None \<Rightarrow> (Inl (WS_Transport (VersionFailure (UnsupportedVersion []))), co, sp_drop_source P source w2)
      | Some v \<Rightarrow>
     (case queue_application P (co_active_codec co)
             (OutSubscriptionAccepted \<lparr>sacc_request_id = subreq_request_id r, sacc_subscription_id = i\<rparr>) w2 of
        (False, w3) \<Rightarrow>
          (Inl (WS_Transport SlowConsumer), co, sp_drop_source P source (sp_close_source P source w3))
      | (True, w3) \<Rightarrow>
          (Inr (), co\<lparr>co_subscriptions := insert i (co_subscriptions co)\<rparr>,
           sp_spawn_pump P i source v (co_active_codec co) w3))))))) (co, w))"

definition handle_unsubscribe :: "('w, 'src) SessionPorts \<Rightarrow> Unsubscribe \<Rightarrow> ('w, unit) session_op" where
  "handle_unsubscribe P u s =
     (case s of (co, w) \<Rightarrow>
      sbind (slift (ensure_ready (co_connection co))) (\<lambda>_ s.
      if unsub_subscription_id u \<notin> co_subscriptions co
      then or_slow (queue_error P (co_active_codec co) (Some (unsub_request_id u))
             (SubscriptionAuthorizationFailure (SA_Rejected ''subscription does not exist''))) s
      else
        or_slow (queue_application P (co_active_codec co)
            (OutSubscriptionClosed \<lparr>sclo_request_id = Some (unsub_request_id u),
               sclo_subscription_id = unsub_subscription_id u\<rparr>))
          (co\<lparr>co_subscriptions := co_subscriptions co - {unsub_subscription_id u}\<rparr>,
           sp_stop_pump P (unsub_subscription_id u) w)) (co, w))"

primrec handle_inbound :: "('w, 'src) SessionPorts \<Rightarrow> nat \<Rightarrow> InboundMessage \<Rightarrow> ('w, unit) session_op" where
  "handle_inbound P limit (InHello h) = handle_hello P h"
| "handle_inbound P limit (InAuthenticate m) = handle_authenticate P m"
| "handle_inbound P limit (InPing nonce) =
     (\<lambda>(co, w). or_slow (queue_application P (co_active_codec co) (OutPong nonce)) (co, w))"
| "handle_inbound P limit (InClose r) = (\<lambda>s. (Inr (), s))"
| "handle_inbound P limit (InAction env) = handle_action P env"
| "handle_inbound P limit (InQuery m) = handle_query P limit m"
| "handle_inbound P limit (InSubscribe r) = handle_subscribe P r"
| "handle_inbound P limit (InUnsubscribe u) = handle_unsubscribe P u"

lemmas handler_op_defs = handle_hello_def handle_authenticate_def handle_action_def handle_query_def
  handle_subscribe_def handle_unsubscribe_def

section \<open>The coordinator loop\<close>

record LoopExit =
  graceful_close :: bool
  fatal_error :: "WebSocketAdapterError option"
  fatal_error_queued :: bool

definition graceful_exit :: "LoopExit option" where
  "graceful_exit = Some \<lparr>graceful_close = True, fatal_error = None, fatal_error_queued = False\<rparr>"

definition fatal_exit :: "WebSocketAdapterError \<Rightarrow> bool \<Rightarrow> LoopExit option" where
  "fatal_exit e queued = Some \<lparr>graceful_close = False, fatal_error = Some e, fatal_error_queued = queued\<rparr>"

text \<open>One pass through the loop ends with the new state and, if the loop is left, the exit.\<close>

type_synonym 'w loop_pass = "LoopExit option \<times> Coordinator \<times> 'w"

definition continue_or_slow :: "('w \<Rightarrow> bool \<times> 'w) \<Rightarrow> Coordinator \<Rightarrow> 'w \<Rightarrow> 'w loop_pass" where
  "continue_or_slow q co w =
     (case q w of
        (True, w') \<Rightarrow> (None, co, w')
      | (False, w') \<Rightarrow> (fatal_exit (WS_Transport SlowConsumer) False, co, w'))"

fun is_fatal_inbound :: "WebSocketAdapterError \<Rightarrow> bool" where
  "is_fatal_inbound (WS_ConnectionState (InvalidTransition _ _)) = True"
| "is_fatal_inbound (WS_Transport (VersionFailure _)) = True"
| "is_fatal_inbound (WS_Frame _) = True"
| "is_fatal_inbound _ = False"

fun inbound_transport_error :: "('w, 'src) SessionPorts \<Rightarrow> WebSocketAdapterError \<Rightarrow> TransportError" where
  "inbound_transport_error P (WS_Transport e) = e"
| "inbound_transport_error P (WS_ConnectionState e) = StateFailure e"
| "inbound_transport_error P e = InternalFailure (sp_show_error P e)"

definition on_inbound_result ::
  "('w, 'src) SessionPorts \<Rightarrow> (WebSocketAdapterError, unit) result \<times> Coordinator \<times> 'w \<Rightarrow> 'w loop_pass" where
  "on_inbound_result P result =
     (case result of
        (Inr _, co, w) \<Rightarrow> (None, co, w)
      | (Inl e, co, w) \<Rightarrow>
          (case queue_error P (co_active_codec co) None (inbound_transport_error P e) w of
             (queued, w') \<Rightarrow>
               if is_fatal_inbound e \<or> \<not> queued then (fatal_exit e queued, co, w') else (None, co, w')))"

definition on_text ::
  "('w, 'src) SessionPorts \<Rightarrow> WebSocketAdapterConfig \<Rightarrow> bytes \<Rightarrow> Coordinator \<Rightarrow> 'w \<Rightarrow> 'w loop_pass" where
  "on_text P cfg bs co w =
     (case decode_inbound (co_active_codec co) bs of
        Inl e \<Rightarrow> continue_or_slow (queue_error P (co_active_codec co) None (CodecFailure e)) co w
      | Inr (InClose r) \<Rightarrow> (graceful_exit, co, w)
      | Inr message \<Rightarrow> on_inbound_result P (handle_inbound P (max_message_bytes (wc_transport cfg)) message (co, w)))"

definition on_bad_frame :: "('w, 'src) SessionPorts \<Rightarrow> string \<Rightarrow> Coordinator \<Rightarrow> 'w \<Rightarrow> 'w loop_pass" where
  "on_bad_frame P reason co w =
     (case queue_error P (co_active_codec co) None (CodecFailure InvalidMessageShape) w of
        (queued, w') \<Rightarrow> (fatal_exit (WS_Frame reason) queued, co, w'))"

primrec on_reader_event ::
  "('w, 'src) SessionPorts \<Rightarrow> WebSocketAdapterConfig \<Rightarrow> ReaderEvent \<Rightarrow> Coordinator \<Rightarrow> 'w \<Rightarrow> 'w loop_pass" where
  "on_reader_event P cfg (ReaderText bs) co w = on_text P cfg bs co w"
| "on_reader_event P cfg (ReaderNativePing payload) co w = continue_or_slow (sp_write P (NativePong payload)) co w"
| "on_reader_event P cfg ReaderNativePong co w = (None, co, w)"
| "on_reader_event P cfg ReaderClosed co w = (graceful_exit, co, w)"
| "on_reader_event P cfg ReaderBinary co w = on_bad_frame P ''binary WebSocket frames are not supported'' co w"
| "on_reader_event P cfg ReaderOversized co w = on_bad_frame P ''WebSocket message exceeds max_message_bytes'' co w"

definition remove_subscription ::
  "('w, 'src) SessionPorts \<Rightarrow> TransportSubscriptionId \<Rightarrow> Coordinator \<Rightarrow> 'w \<Rightarrow> Coordinator \<times> 'w" where
  "remove_subscription P i co w =
     (if i \<in> co_subscriptions co
      then (co\<lparr>co_subscriptions := co_subscriptions co - {i}\<rparr>, sp_stop_pump P i w)
      else (co, w))"

primrec on_coordinator_event ::
  "('w, 'src) SessionPorts \<Rightarrow> WebSocketAdapterConfig \<Rightarrow> CoordinatorEvent \<Rightarrow> Coordinator \<Rightarrow> 'w \<Rightarrow> 'w loop_pass" where
  "on_coordinator_event P cfg (ActionCompleted request action result) co w =
     (case result of
        Inr events \<Rightarrow>
          continue_or_slow (queue_application P (co_active_codec co)
            (OutActionAcknowledgement \<lparr>ack_request_id = request, ack_action_id = action,
               ack_generated_event_ids = map ev_id events\<rparr>)) co w
      | Inl e \<Rightarrow> continue_or_slow (queue_error P (co_active_codec co) (Some request) (ExecutionFailure e)) co w)"
| "on_coordinator_event P cfg (QueryCompleted response) co w =
     continue_or_slow (queue_query_response P (co_active_codec co)
       (case co_version co of Some v \<Rightarrow> v | None \<Rightarrow> QUERY_PROTOCOL_VERSION) response
       (max_message_bytes (wc_transport cfg))) co w"
| "on_coordinator_event P cfg (SubscriptionFinished i) co w =
     (if i \<in> co_subscriptions co
      then (case remove_subscription P i co w of (co', w') \<Rightarrow>
              continue_or_slow (queue_application P (co_active_codec co')
                (OutSubscriptionClosed \<lparr>sclo_request_id = None, sclo_subscription_id = i\<rparr>)) co' w')
      else (None, co, w))"
| "on_coordinator_event P cfg (EventSourceFailed i e fatal queued) co w =
     (if fatal then (fatal_exit (WS_Transport e) queued, co, w)
      else (case remove_subscription P i co w of (co', w') \<Rightarrow> (None, co', w')))"
| "on_coordinator_event P cfg (SlowConsumerEvent i) co w =
     (case queue_error P (co_active_codec co) None SlowConsumer w of
        (queued, w') \<Rightarrow> (fatal_exit (WS_Transport SlowConsumer) queued, co, w'))"
| "on_coordinator_event P cfg (WriterFailed e) co w = (fatal_exit e False, co, w)"
| "on_coordinator_event P cfg (ReaderFailed e) co w = (fatal_exit (WS_Task e) False, co, w)"

definition milliseconds :: "u64 \<Rightarrow> nat" where
  "milliseconds ms = unat ms * 1000000"

definition on_heartbeat ::
  "('w, 'src) SessionPorts \<Rightarrow> WebSocketAdapterConfig \<Rightarrow> nat \<Rightarrow> Coordinator \<Rightarrow> 'w \<Rightarrow> 'w loop_pass" where
  "on_heartbeat P cfg now co w =
     (if tc_state (co_connection co) = Negotiating
         \<and> now - co_negotiation_started co > milliseconds (negotiation_timeout_milliseconds (wc_transport cfg))
      then (fatal_exit (WS_Frame ''protocol negotiation timed out'') False, co, w)
      else if now - co_last_activity co > milliseconds (heartbeat_timeout_milliseconds cfg)
      then (fatal_exit (WS_Frame ''WebSocket heartbeat timed out'') False, co, w)
      else continue_or_slow (sp_write P (NativePing [])) co w)"

datatype session_input =
    FromReader "ReaderEvent option"
  | FromTasks "CoordinatorEvent option"
  | HeartbeatTick

definition session_pass ::
  "('w, 'src) SessionPorts \<Rightarrow> WebSocketAdapterConfig \<Rightarrow> nat \<times> session_input \<Rightarrow> Coordinator \<times> 'w \<Rightarrow> 'w loop_pass" where
  "session_pass P cfg input s =
     (case (input, s) of ((now, i), (co, w)) \<Rightarrow>
      (case i of
         FromReader None \<Rightarrow> (graceful_exit, co, w)
       | FromReader (Some e) \<Rightarrow> on_reader_event P cfg e (co\<lparr>co_last_activity := now\<rparr>) w
       | FromTasks None \<Rightarrow> (fatal_exit (WS_Task ''coordinator event channel closed'') False, co, w)
       | FromTasks (Some e) \<Rightarrow> on_coordinator_event P cfg e co w
       | HeartbeatTick \<Rightarrow> on_heartbeat P cfg now co w))"

fun exit_transport_error :: "('w, 'src) SessionPorts \<Rightarrow> WebSocketAdapterError \<Rightarrow> TransportError" where
  "exit_transport_error P (WS_Transport e) = e"
| "exit_transport_error P e = InternalFailure (sp_show_error P e)"

definition close_on_exit :: "TransportConnection \<Rightarrow> TransportConnection" where
  "close_on_exit c =
     (if tc_state c \<noteq> Closed then
        (let c1 = (if tc_state c \<noteq> Closing then snd (begin_close c) else c)
         in if tc_state c1 = Closing then snd (close_connection c1) else c1)
      else c)"

definition shut_down ::
  "('w, 'src) SessionPorts \<Rightarrow> LoopExit \<Rightarrow> Coordinator \<Rightarrow> 'w \<Rightarrow> (WebSocketAdapterError, unit) result \<times> Coordinator \<times> 'w" where
  "shut_down P exit co w =
     (let w1 = (case fatal_error exit of
                  Some e \<Rightarrow>
                    if \<not> graceful_close exit \<and> \<not> fatal_error_queued exit
                    then snd (queue_error P (co_active_codec co) None (exit_transport_error P e) w) else w
                | None \<Rightarrow> w)
      in case sp_send_close P w1 of (close_queued, w2) \<Rightarrow>
         ((case fatal_error exit of None \<Rightarrow> Inr () | Some e \<Rightarrow> Inl e),
          co\<lparr>co_connection := close_on_exit (co_connection co), co_subscriptions := {}\<rparr>,
          sp_join P close_queued (co_subscriptions co) w2))"

text \<open>A session over a list of inputs: \<open>None\<close> while the loop has not been left.\<close>

fun run_loop ::
  "('w, 'src) SessionPorts \<Rightarrow> WebSocketAdapterConfig \<Rightarrow> (nat \<times> session_input) list \<Rightarrow> Coordinator \<times> 'w
     \<Rightarrow> ((WebSocketAdapterError, unit) result \<times> Coordinator \<times> 'w) option" where
  "run_loop P cfg [] s = None"
| "run_loop P cfg (i # is) s =
     (case session_pass P cfg i s of
        (None, s') \<Rightarrow> run_loop P cfg is s'
      | (Some exit, co, w) \<Rightarrow> Some (shut_down P exit co w))"

definition Coordinator_new :: "('w, 'src) SessionPorts \<Rightarrow> TransportConnection \<Rightarrow> nat \<Rightarrow> Coordinator" where
  "Coordinator_new P c now =
     \<lparr>co_connection = c, co_active_codec = sp_bootstrap P, co_version = None, co_subscriptions = {},
      co_last_activity = now, co_negotiation_started = now\<rparr>"

definition run_coordinator ::
  "('w, 'src) SessionPorts \<Rightarrow> WebSocketAdapterConfig \<Rightarrow> TransportConnection \<Rightarrow> nat
     \<Rightarrow> (nat \<times> session_input) list \<Rightarrow> 'w \<Rightarrow> ((WebSocketAdapterError, unit) result \<times> Coordinator \<times> 'w) option" where
  "run_coordinator P cfg c now inputs w =
     (case WebSocketAdapterConfig_validate cfg of
        Inl e \<Rightarrow> Some (Inl e, Coordinator_new P c now, w)
      | Inr _ \<Rightarrow> run_loop P cfg inputs (Coordinator_new P c now, w))"

lemmas pass_defs = session_pass_def on_heartbeat_def on_bad_frame_def on_text_def on_inbound_result_def
  continue_or_slow_def remove_subscription_def

section \<open>Invariant\<close>

definition session_inv :: "('w, 'src) SessionPorts \<Rightarrow> Coordinator \<Rightarrow> bool" where
  "session_inv P co \<longleftrightarrow>
     (case tc_state (co_connection co) of
        Negotiating \<Rightarrow> tc_identity (co_connection co) = None \<and> co_version co = None
          \<and> co_active_codec co = sp_bootstrap P \<and> co_subscriptions co = {}
      | Authenticating \<Rightarrow> co_version co \<noteq> None \<and> co_subscriptions co = {}
      | Ready \<Rightarrow> tc_identity (co_connection co) \<noteq> None \<and> co_version co \<noteq> None
      | _ \<Rightarrow> False)"

text \<open>An identity is bound only if the resolver vouched for it, on this connection.\<close>

definition vouched :: "('w, 'src) SessionPorts \<Rightarrow> TransportConnection \<Rightarrow> bool" where
  "vouched P c \<longleftrightarrow> (case tc_identity c of None \<Rightarrow> True
     | Some b \<Rightarrow> \<exists>creds v v'. sp_resolve P (tc_id c) creds v = (Inr b, v'))"

lemma or_slow_frame [simp]: "fst (snd (or_slow q (co, w))) = co"
  by (auto simp: or_slow_def split: prod.splits bool.splits)

lemma continue_or_slow_frame [simp]: "fst (snd (continue_or_slow q co w)) = co"
  by (auto simp: continue_or_slow_def split: prod.splits bool.splits)

lemma ensure_ready_ok: "ensure_ready c = Inr u \<longleftrightarrow> tc_state c = Ready"
  by (auto split: ConnectionState.splits)

declare ensure_ready.simps [simp del]

text \<open>What one inbound message can do to the coordinator's own state.\<close>

lemma handle_hello_state:
  assumes "handle_hello P h (co, w) = (r, co', w')"
  shows "co' = co \<or> tc_state (co_connection co) = Negotiating \<and> (\<exists>v.
     sp_version_policy P (hello_supported_versions h) = Inr v
     \<and> (co' = co\<lparr>co_connection := (co_connection co)\<lparr>tc_state := Authenticating\<rparr>, co_version := Some v\<rparr>
       \<or> co' = co\<lparr>co_connection := (co_connection co)\<lparr>tc_state := Authenticating\<rparr>, co_version := Some v,
                   co_active_codec := sp_codec P\<rparr>))"
  using assms
  by (auto simp: handle_hello_def conn_defs sbind_def or_slow_def split: if_splits sum.splits prod.splits bool.splits)

lemma handle_authenticate_state:
  assumes "handle_authenticate P m (co, w) = (r, co', w')"
  shows "co' = co \<or> tc_state (co_connection co) = Authenticating
    \<and> (\<exists>b. sp_resolve P (tc_id (co_connection co)) (auth_credentials m) w = (Inr b, w')
         \<and> co' = co\<lparr>co_connection := (co_connection co)\<lparr>tc_identity := Some b, tc_state := Ready\<rparr>\<rparr>)"
  using assms
  by (auto simp: handle_authenticate_def conn_defs split: if_splits sum.splits prod.splits)

lemma handle_action_state: "fst (snd (handle_action P env (co, w))) = co"
  by (auto simp: handle_action_def sbind_def slift_def split: sum.splits prod.splits bool.splits)

lemma handle_query_state: "fst (snd (handle_query P limit m (co, w))) = co"
  by (auto simp: handle_query_def sbind_def slift_def or_slow_def split: sum.splits option.splits prod.splits bool.splits)

lemma handle_subscribe_state:
  assumes "handle_subscribe P q (co, w) = (r, co', w')"
  shows "co' = co \<or> tc_state (co_connection co) = Ready
    \<and> (\<exists>i. i \<notin> co_subscriptions co \<and> co' = co\<lparr>co_subscriptions := insert i (co_subscriptions co)\<rparr>)"
proof (cases "ensure_ready (co_connection co)")
  case (Inr u)
  then have "tc_state (co_connection co) = Ready" by (simp add: ensure_ready_ok)
  with assms Inr show ?thesis
    by (auto simp: handle_subscribe_def sbind_def slift_def
        split: sum.splits prod.splits bool.splits if_splits option.splits)
qed (use assms in \<open>simp add: handle_subscribe_def sbind_def slift_def\<close>)

lemma handle_unsubscribe_state:
  assumes "handle_unsubscribe P u (co, w) = (r, co', w')"
  shows "co' = co \<or> tc_state (co_connection co) = Ready
    \<and> co' = co\<lparr>co_subscriptions := co_subscriptions co - {unsub_subscription_id u}\<rparr>"
proof (cases "ensure_ready (co_connection co)")
  case (Inr v)
  then have "tc_state (co_connection co) = Ready" by (simp add: ensure_ready_ok)
  with assms Inr show ?thesis
    by (auto simp: handle_unsubscribe_def sbind_def slift_def or_slow_def split: prod.splits bool.splits if_splits)
qed (use assms in \<open>simp add: handle_unsubscribe_def sbind_def slift_def\<close>)

definition good :: "('w, 'src) SessionPorts \<Rightarrow> ConnectionId \<Rightarrow> Coordinator \<Rightarrow> bool" where
  "good P n co \<longleftrightarrow> session_inv P co \<and> vouched P (co_connection co) \<and> tc_id (co_connection co) = n"

lemma good_handle_inbound [model_inv]:
  assumes "good P n co" "handle_inbound P limit m (co, w) = (r, co', w')"
  shows "good P n co'"
proof (cases m)
  case (InHello h)
  with assms handle_hello_state [of P h co w r co' w'] show ?thesis
    by (auto simp: good_def session_inv_def vouched_def)
next
  case (InAuthenticate x)
  with assms handle_authenticate_state [of P x co w r co' w'] show ?thesis
    by (auto simp: good_def session_inv_def vouched_def intro!: exI)
next
  case (InSubscribe q)
  with assms handle_subscribe_state [of P q co w r co' w'] show ?thesis
    by (auto simp: good_def session_inv_def vouched_def)
next
  case (InUnsubscribe u)
  with assms handle_unsubscribe_state [of P u co w r co' w'] show ?thesis
    by (auto simp: good_def session_inv_def vouched_def)
next
  case (InAction env)
  with assms handle_action_state [of P env co w] show ?thesis by simp
next
  case (InQuery q)
  with assms handle_query_state [of P limit q co w] show ?thesis by simp
next
  case (InPing n)
  with assms or_slow_frame [of "queue_application P (co_active_codec co) (OutPong n)" co w] show ?thesis by simp
qed (use assms in simp)

lemma good_activity [simp]: "good P n (co\<lparr>co_last_activity := t\<rparr>) = good P n co"
  by (cases "tc_state (co_connection co)") (simp_all add: good_def session_inv_def)

lemma good_remove: "good P n co \<Longrightarrow> good P n (fst (remove_subscription P i co w))"
  by (auto simp: good_def session_inv_def remove_subscription_def split: ConnectionState.splits)

lemma good_on_text: "good P n co \<Longrightarrow> good P n (fst (snd (on_text P cfg bs co w)))"
proof -
  assume g: "good P n co"
  have "good P n (fst (snd (on_inbound_result P (handle_inbound P l m (co, w)))))" for l m
  proof -
    obtain r co' w' where h: "handle_inbound P l m (co, w) = (r, co', w')" by (metis prod_cases3)
    from good_handle_inbound [OF g h] h show ?thesis
      by (auto simp: on_inbound_result_def split: sum.splits prod.splits)
  qed
  with g show ?thesis 
    by (simp add: on_text_def del: handle_inbound.simps split: sum.splits InboundMessage.splits)
qed

lemma good_on_reader_event: "good P n co \<Longrightarrow> good P n (fst (snd (on_reader_event P cfg e co w)))"
  by (cases e) (simp_all add: good_on_text on_bad_frame_def split: prod.splits)

lemma good_on_coordinator_event: "good P n co \<Longrightarrow> good P n (fst (snd (on_coordinator_event P cfg e co w)))"
  by (cases e) (simp_all add: split_beta good_remove split: sum.splits)

lemma good_session_pass [model_inv]: "good P n (fst s) \<Longrightarrow> good P n (fst (snd (session_pass P cfg i s)))"
  by (cases i; cases s; cases "snd i")
    (auto simp: session_pass_def on_heartbeat_def good_on_reader_event good_on_coordinator_event split: option.splits)

section \<open>Reachability and exit\<close>

inductive session_step ::
  "('w, 'src) SessionPorts \<Rightarrow> WebSocketAdapterConfig \<Rightarrow> Coordinator \<times> 'w \<Rightarrow> Coordinator \<times> 'w \<Rightarrow> bool"
  for P cfg where
  pass: "session_pass P cfg i s = (None, s') \<Longrightarrow> session_step P cfg s s'"

inductive_cases session_stepE: "session_step P cfg s s'"

lemma good_steps: "(session_step P cfg)\<^sup>*\<^sup>* s s' \<Longrightarrow> good P n (fst s) \<Longrightarrow> good P n (fst s')"
proof (induction rule: rtranclp_induct)
  case (step t u)
  from step(2) obtain i where "session_pass P cfg i t = (None, u)" by (rule session_stepE)
  with good_session_pass [of P n t cfg i] step show ?case by simp
qed simp

lemma good_new: "good P i (Coordinator_new P (TransportConnection_new i m) now)"
  by (simp add: good_def session_inv_def vouched_def Coordinator_new_def TransportConnection_new_def)

lemma close_on_exit_closed:
  "tc_state c \<in> {Negotiating, Authenticating, Ready} \<Longrightarrow> tc_state (close_on_exit c) = Closed"
  by (cases "tc_state c") (simp_all add: close_on_exit_def conn_defs)

lemma good_states: "good P n co \<Longrightarrow> tc_state (co_connection co) \<in> {Negotiating, Authenticating, Ready}"
  by (auto simp: good_def session_inv_def split: ConnectionState.splits)

lemma shut_down_closes:
  "good P n co \<Longrightarrow> shut_down P exit co w = (r, co', w') \<Longrightarrow>
     tc_state (co_connection co') = Closed \<and> co_subscriptions co' = {}
     \<and> r = (case fatal_error exit of None \<Rightarrow> Inr () | Some e \<Rightarrow> Inl e)"
  using close_on_exit_closed [OF good_states]
  by (auto simp: shut_down_def Let_def split: prod.splits)

lemma run_loop_closes:
  "good P n (fst s) \<Longrightarrow> run_loop P cfg is s = Some (r, co, w) \<Longrightarrow>
     tc_state (co_connection co) = Closed \<and> co_subscriptions co = {}"
proof (induction "is" arbitrary: s)
  case (Cons i "is")
  obtain ex co1 w1 where pass: "session_pass P cfg i s = (ex, co1, w1)" by (metis prod_cases3)
  then have "good P n co1" using good_session_pass [OF Cons.prems(1), of cfg i] by simp
  with Cons pass show ?case
    by (cases ex) (auto dest: shut_down_closes)
qed simp

lemma run_loop_ends: "run_loop P cfg (is @ [(t, FromReader None)]) s \<noteq> None"
proof (induction "is" arbitrary: s)
  case Nil
  then show ?case by (cases s) (simp add: session_pass_def graceful_exit_def)
next
  case (Cons i "is")
  obtain ex co1 w1 where "session_pass P cfg i s = (ex, co1, w1)" by (metis prod_cases3)
  with Cons show ?case by (cases ex) auto
qed


lemma queues_ignore_actions [simp]:
  "queue_application (P\<lparr>sp_action := f\<rparr>) = queue_application P"
  "queue_error (P\<lparr>sp_action := f\<rparr>) = queue_error P"
  "queue_query_response (P\<lparr>sp_action := f\<rparr>) = queue_query_response P"
proof -
  show app: "queue_application (P\<lparr>sp_action := f\<rparr>) = queue_application P"
    by (simp add: fun_eq_iff queue_application_def)
  then show "queue_error (P\<lparr>sp_action := f\<rparr>) = queue_error P"
    by (simp add: fun_eq_iff queue_error_def)
  from app show "queue_query_response (P\<lparr>sp_action := f\<rparr>) = queue_query_response P"
    by (simp add: fun_eq_iff queue_query_response_def Let_def cong: sum.case_cong if_cong)
qed


section \<open>Sample values\<close>

text \<open>Ports that log what is written and which actions are queued, with a resolver that accepts one
  credential.\<close>

record sample_session =
  ss_written :: "WriterCommand list"
  ss_actions :: "ActionJob list"

definition sample_binding :: ActorBinding where
  "sample_binding = \<lparr>ab_actor_id = ActorId (EntityId 2), ab_source = IdentitySource ''token''\<rparr>"

definition plain_codec :: MessageCodec where
  "plain_codec = \<lparr>codec_name = ''json'', decode_inbound = (\<lambda>bs.
       if bs = [1] then Inr (InHello \<lparr>hello_supported_versions = [QUERY_PROTOCOL_VERSION], hello_codecs = [''json'']\<rparr>)
       else if bs = [2] then Inr (InAuthenticate \<lparr>auth_request_id = MessageId (EntityId 6),
         auth_credentials = \<lparr>ic_scheme = ''token'', ic_credential = ''secret''\<rparr>\<rparr>)
       else if bs = [3] then Inr (InAction \<lparr>env_version = QUERY_PROTOCOL_VERSION, env_message_id = MessageId (EntityId 8),
         env_message_type = MessageType ''action'', env_payload = sample_action 2\<rparr>)
       else Inr (InPing 0)),
     encode_outbound = (\<lambda>m. case m of OutQueryResponse r \<Rightarrow>
       (case qrm_result r of QuerySuccess _ \<Rightarrow> Inr (replicate 100 0) | QueryError _ \<Rightarrow> Inr (replicate 10 0)) | _ \<Rightarrow> Inr [])\<rparr>"

definition sample_ports :: "(sample_session, unit) SessionPorts" where
  "sample_ports =
     \<lparr>sp_resolve = (\<lambda>i c w. (if ic_credential c = ''secret'' then Inr sample_binding
                             else Inl (CredentialsRejected ''no''), w)),
      sp_authorize = (\<lambda>b r w. (Inr (), w)),
      sp_subscribe = (\<lambda>r w. (Inr (TransportSubscriptionId (EntityId 4), ()), w)),
      sp_close_source = (\<lambda>s w. w), sp_drop_source = (\<lambda>s w. w),
      sp_version_policy = CompatibleVersionPolicy, sp_codec = plain_codec, sp_bootstrap = plain_codec,
      sp_has_query_executor = False,
      sp_write = (\<lambda>c w. (True, w\<lparr>ss_written := ss_written w @ [c]\<rparr>)),
      sp_action = (\<lambda>j w. (True, w\<lparr>ss_actions := ss_actions w @ [j]\<rparr>)),
      sp_query = (\<lambda>j w. (False, w)), sp_spawn_pump = (\<lambda>i s v c w. w), sp_stop_pump = (\<lambda>i w. w),
      sp_send_close = (\<lambda>w. (True, w)), sp_join = (\<lambda>q subs w. w), sp_show_error = (\<lambda>e. ''error'')\<rparr>"

definition sample_connection :: TransportConnection where
  "sample_connection = TransportConnection_new (ConnectionId (EntityId 1)) metadata_new"

definition sample_config :: WebSocketAdapterConfig where
  "sample_config = WebSocketAdapterConfig_new TransportConfig_default 64 64 90000"


section \<open>Properties\<close>

text \<open>C6. Sessions are authenticated: in every state the coordinator of a new connection can reach, over
  any interleaving of frames, task reports and heartbeats, the connection is not yet closed, it is
  ready only with a negotiated version and an identity that the resolver vouched for on this very
  connection, and it has subscriptions only when ready.\<close>

theorem session_identity_is_vouched:
  assumes "(session_step P cfg)\<^sup>*\<^sup>* (Coordinator_new P (TransportConnection_new i m) now, w) (co, w')"
  shows "tc_state (co_connection co) \<in> {Negotiating, Authenticating, Ready}
    \<and> (tc_state (co_connection co) = Ready \<longrightarrow> co_version co \<noteq> None
         \<and> (\<exists>b creds v v'. tc_identity (co_connection co) = Some b \<and> sp_resolve P i creds v = (Inr b, v')))
    \<and> (co_subscriptions co \<noteq> {} \<longrightarrow> tc_state (co_connection co) = Ready)"
proof -
  have "good P i co" using good_steps [OF assms, of i] good_new [of P i m now] by simp
  then show ?thesis
    using good_states [of P i co]
    by (auto simp: good_def session_inv_def vouched_def split: ConnectionState.splits)
qed

theorem session_identity_is_vouched_witness:
  "\<exists>co w. (session_step sample_ports sample_config)\<^sup>*\<^sup>*
      (Coordinator_new sample_ports (TransportConnection_new (ConnectionId (EntityId 1)) metadata_new) 0,
       \<lparr>ss_written = [], ss_actions = []\<rparr>) (co, w)
    \<and> tc_state (co_connection co) = Ready \<and> co_version co \<noteq> None
    \<and> (\<exists>b creds v v'. tc_identity (co_connection co) = Some b
        \<and> sp_resolve sample_ports (ConnectionId (EntityId 1)) creds v = (Inr b, v'))"
proof -
  let ?s = "(Coordinator_new sample_ports (TransportConnection_new (ConnectionId (EntityId 1)) metadata_new) 0,
    \<lparr>ss_written = [], ss_actions = []\<rparr> :: sample_session)"
  note evaluate = pass_defs handle_hello_def handle_authenticate_def queue_application_def or_slow_def sbind_def
    conn_defs Coordinator_new_def TransportConnection_new_def sample_ports_def plain_codec_def
    CompatibleVersionPolicy_def
  obtain t where t: "session_pass sample_ports sample_config (1, FromReader (Some (ReaderText [1]))) ?s = (None, t)"
    "tc_state (co_connection (fst t)) = Authenticating" "co_active_codec (fst t) = plain_codec"
    by (simp add: evaluate)
  obtain u where u: "session_pass sample_ports sample_config (2, FromReader (Some (ReaderText [2]))) t = (None, u)"
    "tc_state (co_connection (fst u)) = Ready"
    using t(2,3) by (cases t) (simp add: evaluate)
  have steps: "(session_step sample_ports sample_config)\<^sup>*\<^sup>* ?s u"
    using session_step.pass [OF t(1)] session_step.pass [OF u(1)] by (meson converse_rtranclp_into_rtranclp r_into_rtranclp)
  show ?thesis
    using session_identity_is_vouched [of sample_ports sample_config _ _ _ _ "fst u" "snd u"] steps u(2)
    by (metis prod.collapse)
qed

text \<open>C8. Actions run only for the bound actor: whatever message arrives in whatever state, the action
  queue is consulted only if the message is an action, the connection is ready and its bound actor is
  the actor of that action, and then with exactly the action and the message's identifier. (Replacing
  the queue by any other one that agrees on that job changes nothing.)\<close>

theorem actions_only_for_bound_actor:
  assumes "\<And>env b. m = InAction env \<Longrightarrow> tc_state (co_connection co) = Ready \<Longrightarrow>
      tc_identity (co_connection co) = Some b \<Longrightarrow> ab_actor_id b = ac_actor_id (env_payload env) \<Longrightarrow>
      f \<lparr>aj_request_id = env_message_id env, aj_action = env_payload env\<rparr> w
        = sp_action P \<lparr>aj_request_id = env_message_id env, aj_action = env_payload env\<rparr> w"
  shows "handle_inbound (P\<lparr>sp_action := f\<rparr>) limit m (co, w) = handle_inbound P limit m (co, w)"
proof (cases m)
  case (InAction env)
  show ?thesis
  proof (cases "ensure_ready (co_connection co)")
    case (Inr u)
    then have "tc_state (co_connection co) = Ready" by (simp add: ensure_ready_ok)
    with Inr InAction assms show ?thesis
      by (cases "tc_identity (co_connection co)") (auto simp: handle_action_def validate_action_binding_def)
  qed (use InAction in \<open>simp add: handle_action_def\<close>)
qed (simp_all add: handle_hello_def handle_authenticate_def handle_query_def handle_subscribe_def
    handle_unsubscribe_def cong: sum.case_cong option.case_cong prod.case_cong bool.case_cong if_cong)

theorem actions_only_for_bound_actor_witness:
  "handle_inbound (sample_ports\<lparr>sp_action := \<lambda>j w. (False, w)\<rparr>) 100
      (InAction \<lparr>env_version = QUERY_PROTOCOL_VERSION, env_message_id = MessageId (EntityId 8),
         env_message_type = MessageType ''action'', env_payload = sample_action 3\<rparr>)
      (Coordinator_new sample_ports (sample_connection\<lparr>tc_state := Ready, tc_identity := Some sample_binding\<rparr>) 0,
       \<lparr>ss_written = [], ss_actions = []\<rparr>)
   = (Inl (WS_Transport (IdentityFailure (IdentityMismatch (ActorId (EntityId 2)) (ActorId (EntityId 3))))),
      Coordinator_new sample_ports (sample_connection\<lparr>tc_state := Ready, tc_identity := Some sample_binding\<rparr>) 0,
      \<lparr>ss_written = [], ss_actions = []\<rparr>)"
  by (subst actions_only_for_bound_actor)
    (auto simp: Coordinator_new_def sample_binding_def sample_action_def handle_action_def
      ensure_ready.simps validate_action_binding_def)



text \<open>C40. Query answers respect the message limit: the only message queued for a query response carries
  the request's identifier and query type and encodes to at most the configured number of bytes; it is
  the response itself if that fits, and otherwise a non-retryable internal failure.\<close>

theorem query_response_within_limit:
  assumes "\<And>m bs. encode_outbound codec (OutQueryResponse m) = Inr bs \<Longrightarrow> length bs \<le> limit \<Longrightarrow>
      qrm_request_id m = qp_request_id response \<Longrightarrow> qrm_query_type m = qp_query_type response \<Longrightarrow>
      qrm_result m = qp_result response \<or> (\<exists>f. qrm_result m = QueryError f \<and> qf_code f = QF_Internal \<and> \<not> qf_retryable f) \<Longrightarrow>
      f (Application (OutQueryResponse m) codec) w = sp_write P (Application (OutQueryResponse m) codec) w"
  shows "queue_query_response (P\<lparr>sp_write := f\<rparr>) codec v response limit w = queue_query_response P codec v response limit w"
  using assms
  by (auto simp: queue_query_response_def queue_application_def Let_def from_response_def QueryResponse_error_def
      split: sum.splits)

theorem query_response_within_limit_witness:
  "queue_query_response (sample_ports\<lparr>sp_write := \<lambda>c w.
        (case c of Application (OutQueryResponse m) _ \<Rightarrow>
           (case qrm_result m of QueryError _ \<Rightarrow> sp_write sample_ports c w | _ \<Rightarrow> (False, w)) | _ \<Rightarrow> (False, w))\<rparr>)
      plain_codec QUERY_PROTOCOL_VERSION (QueryResponse_success (MessageId (EntityId 8)) (QueryType ''a.b'') payload_new)
      50 \<lparr>ss_written = [], ss_actions = []\<rparr>
    = queue_query_response sample_ports plain_codec QUERY_PROTOCOL_VERSION
        (QueryResponse_success (MessageId (EntityId 8)) (QueryType ''a.b'') payload_new) 50 \<lparr>ss_written = [], ss_actions = []\<rparr>"
  by (rule query_response_within_limit) (auto simp: plain_codec_def split: QueryResult.splits)

end
