(* ===== verification/Transport_Tasks.thy ===== *)
theory Transport_Tasks
  imports Transport_Session "HOL-Library.Multiset"
begin

text \<open>
  The tasks around the session coordinator (\<open>websocket/reader.rs\<close>, \<open>writer.rs\<close>, \<open>event_pump.rs\<close>, \<open>action_worker.rs\<close>,
  \<open>query_worker.rs\<close>). A task is a loop over the answers of its environment: one element of a list of inputs is what one
  pass of the loop receives from its \<open>select!\<close>, together with the outcomes of the operations that pass awaits. A run
  returns the effects of the task in order, and whether (and how) it has left the loop. Which of the ready branches of
  a \<open>select!\<close> is taken, and every timing, is in the choice of the inputs. The socket and its framing are third-party.
\<close>

section \<open>Reader\<close>

datatype ws_message = WsText bytes | WsBinary bytes | WsPing bytes | WsPong bytes | WsClose | WsFrame

datatype reader_input = ReadCancelled | StreamEnd | StreamError string | StreamFrame ws_message

definition coordinator_gone :: string where
  "coordinator_gone = ''coordinator input channel closed''"

text \<open>One pass: the event offered to the coordinator, if any, and how the loop is left if it is. \<open>accepted\<close> is
  \<open>sender.send(..).await.is_ok()\<close>.\<close>

fun reader_pass :: "nat \<Rightarrow> reader_input \<Rightarrow> bool \<Rightarrow> ReaderEvent option \<times> (string, unit) result option" where
  "reader_pass limit ReadCancelled accepted = (None, Some (Inr ()))"
| "reader_pass limit StreamEnd accepted = (Some ReaderClosed, Some (Inr ()))"
| "reader_pass limit (StreamError e) accepted = (None, Some (Inl (''WebSocket reader failed: '' @ e)))"
| "reader_pass limit (StreamFrame (WsText t)) accepted =
     (if length t > limit then (Some ReaderOversized, Some (Inr ()))
      else (Some (ReaderText t), if accepted then None else Some (Inl coordinator_gone)))"
| "reader_pass limit (StreamFrame (WsBinary b)) accepted =
     (Some (if length b > limit then ReaderOversized else ReaderBinary), Some (Inr ()))"
| "reader_pass limit (StreamFrame (WsPing p)) accepted =
     (Some (ReaderNativePing p), if accepted then None else Some (Inl coordinator_gone))"
| "reader_pass limit (StreamFrame (WsPong p)) accepted =
     (Some ReaderNativePong, if accepted then None else Some (Inl coordinator_gone))"
| "reader_pass limit (StreamFrame WsClose) accepted = (Some ReaderClosed, Some (Inr ()))"
| "reader_pass limit (StreamFrame WsFrame) accepted = (None, None)"

definition delivered :: "ReaderEvent option \<Rightarrow> bool \<Rightarrow> ReaderEvent list" where
  "delivered e accepted = (case e of Some x \<Rightarrow> if accepted then [x] else [] | None \<Rightarrow> [])"

fun run_reader ::
  "nat \<Rightarrow> (reader_input \<times> bool) list \<Rightarrow> ReaderEvent list \<times> (string, unit) result option" where
  "run_reader limit [] = ([], None)"
| "run_reader limit ((i, accepted) # is) =
     (case reader_pass limit i accepted of
        (e, Some exit) \<Rightarrow> (delivered e accepted, Some exit)
      | (e, None) \<Rightarrow> (case run_reader limit is of (es, exit) \<Rightarrow> (delivered e accepted @ es, exit)))"

text \<open>The task that the coordinator spawns around the reader: it reports an error of the loop to the coordinator.\<close>

definition reader_task :: "nat \<Rightarrow> (reader_input \<times> bool) list \<Rightarrow> ReaderEvent list \<times> CoordinatorEvent list" where
  "reader_task limit is =
     (case run_reader limit is of
        (es, Some (Inl e)) \<Rightarrow> (es, [ReaderFailed e])
      | (es, _) \<Rightarrow> (es, []))"


section \<open>Writer\<close>

datatype WriteStatus = WriteCompleted | WriteCancelled

datatype sink_outcome = SinkDone | SinkFailed string | SinkElapsed | SinkCancelled

datatype writer_effect = SinkSend ws_message sink_outcome | SinkClose sink_outcome

text \<open>\<open>String::from_utf8(..).is_ok()\<close>: well-formed UTF-8, without surrogates or overlong forms.\<close>

definition continuation :: "u8 \<Rightarrow> bool" where
  "continuation b \<longleftrightarrow> 0x80 \<le> b \<and> b \<le> 0xBF"

fun is_utf8 :: "bytes \<Rightarrow> bool" where
  "is_utf8 [] = True"
| "is_utf8 (a # bs) =
     (if a \<le> 0x7F then is_utf8 bs
      else case bs of
        [] \<Rightarrow> False
      | b # cs \<Rightarrow>
          if 0xC2 \<le> a \<and> a \<le> 0xDF then continuation b \<and> is_utf8 cs
          else case cs of
            [] \<Rightarrow> False
          | c # ds \<Rightarrow>
              if 0xE0 \<le> a \<and> a \<le> 0xEF
              then continuation b \<and> (a = 0xE0 \<longrightarrow> 0xA0 \<le> b) \<and> (a = 0xED \<longrightarrow> b \<le> 0x9F) \<and> continuation c \<and> is_utf8 ds
              else case ds of
                [] \<Rightarrow> False
              | d # es \<Rightarrow>
                  0xF0 \<le> a \<and> a \<le> 0xF4 \<and> continuation b \<and> (a = 0xF0 \<longrightarrow> 0x90 \<le> b) \<and> (a = 0xF4 \<longrightarrow> b \<le> 0x8F)
                  \<and> continuation c \<and> continuation d \<and> is_utf8 es)"

text \<open>\<open>write_timeout.as_millis().try_into().unwrap_or(u64::MAX)\<close>\<close>

definition timeout_milliseconds :: "nat \<Rightarrow> u64" where
  "timeout_milliseconds ms = (if ms < 2 ^ 64 then word_of_nat ms else - 1)"

fun map_write_result :: "sink_outcome \<Rightarrow> string \<Rightarrow> nat \<Rightarrow> (WebSocketAdapterError, WriteStatus) result" where
  "map_write_result SinkDone operation ms = Inr WriteCompleted"
| "map_write_result (SinkFailed e) operation ms =
     Inl (WS_Task (''WebSocket '' @ operation @ '' failed: '' @ e))"
| "map_write_result SinkElapsed operation ms = Inl (WS_WriteTimeout operation (timeout_milliseconds ms))"
| "map_write_result SinkCancelled operation ms = Inr WriteCancelled"

text \<open>The two sink operations; in both the branch of the cancellation comes first.\<close>

definition send_with_timeout ::
  "ws_message \<Rightarrow> string \<Rightarrow> nat \<Rightarrow> sink_outcome \<Rightarrow> writer_effect list \<times> (WebSocketAdapterError, WriteStatus) result" where
  "send_with_timeout message operation ms out = ([SinkSend message out], map_write_result out operation ms)"

definition close_with_timeout ::
  "nat \<Rightarrow> sink_outcome \<Rightarrow> writer_effect list \<times> (WebSocketAdapterError, WriteStatus) result" where
  "close_with_timeout ms out = ([SinkClose out], map_write_result out ''sink close'' ms)"

definition write_application ::
  "MessageCodec \<Rightarrow> OutboundMessage \<Rightarrow> nat \<Rightarrow> sink_outcome \<Rightarrow> writer_effect list \<times> (WebSocketAdapterError, WriteStatus) result" where
  "write_application codec message ms out =
     (case encode_outbound codec message of
        Inl e \<Rightarrow> ([], Inl (WS_Codec e))
      | Inr encoded \<Rightarrow>
          if \<not> is_utf8 encoded then ([], Inl (WS_Task ''outbound codec returned non-UTF-8 JSON bytes''))
          else send_with_timeout (WsText encoded) ''text write'' ms out)"

definition close_writer ::
  "nat \<Rightarrow> sink_outcome \<Rightarrow> sink_outcome \<Rightarrow> writer_effect list \<times> (WebSocketAdapterError, unit) result" where
  "close_writer ms out1 out2 =
     (case send_with_timeout WsClose ''close frame write'' ms out1 of
        (eff, Inl e) \<Rightarrow> (eff, Inl e)
      | (eff, Inr WriteCancelled) \<Rightarrow> (eff, Inr ())
      | (eff, Inr WriteCompleted) \<Rightarrow>
          (case close_with_timeout ms out2 of
             (eff', Inl e) \<Rightarrow> (eff @ eff', Inl e)
           | (eff', Inr _) \<Rightarrow> (eff @ eff', Inr ())))"

record writer_input =
  wi_command :: "WriterCommand option option"
  wi_send :: sink_outcome
  wi_close :: sink_outcome

text \<open>One pass: \<open>wi_command\<close> is \<open>None\<close> for the cancellation, \<open>Some None\<close> for a closed queue.\<close>

definition after_write ::
  "writer_effect list \<times> (WebSocketAdapterError, WriteStatus) result
     \<Rightarrow> writer_effect list \<times> (WebSocketAdapterError, unit) result option" where
  "after_write r =
     (fst r,
      case snd r of Inl e \<Rightarrow> Some (Inl e) | Inr WriteCancelled \<Rightarrow> Some (Inr ()) | Inr WriteCompleted \<Rightarrow> None)"

definition writer_pass ::
  "nat \<Rightarrow> writer_input \<Rightarrow> writer_effect list \<times> (WebSocketAdapterError, unit) result option" where
  "writer_pass ms i =
     (case wi_command i of
        None \<Rightarrow> ([], Some (Inr ()))
      | Some None \<Rightarrow> (case close_writer ms (wi_send i) (wi_close i) of (eff, r) \<Rightarrow> (eff, Some r))
      | Some (Some (Application message codec)) \<Rightarrow> after_write (write_application codec message ms (wi_send i))
      | Some (Some (NativePing payload)) \<Rightarrow>
          after_write (send_with_timeout (WsPing payload) ''native ping write'' ms (wi_send i))
      | Some (Some (NativePong payload)) \<Rightarrow>
          after_write (send_with_timeout (WsPong payload) ''native pong write'' ms (wi_send i))
      | Some (Some WriterClose) \<Rightarrow> (case close_writer ms (wi_send i) (wi_close i) of (eff, r) \<Rightarrow> (eff, Some r)))"

fun writer_loop ::
  "nat \<Rightarrow> writer_input list \<Rightarrow> writer_effect list \<times> (WebSocketAdapterError, unit) result option" where
  "writer_loop ms [] = ([], None)"
| "writer_loop ms (i # is) =
     (case writer_pass ms i of
        (eff, Some r) \<Rightarrow> (eff, Some r)
      | (eff, None) \<Rightarrow> (case writer_loop ms is of (effs, r) \<Rightarrow> (eff @ effs, r)))"

text \<open>\<open>run_writer\<close>: a failure is reported to the coordinator and cancels the session.\<close>

definition run_writer ::
  "nat \<Rightarrow> writer_input list
     \<Rightarrow> writer_effect list \<times> CoordinatorEvent list \<times> bool \<times> (WebSocketAdapterError, unit) result option" where
  "run_writer ms is =
     (case writer_loop ms is of
        (effs, Some (Inl e)) \<Rightarrow> (effs, [WriterFailed e], True, Some (Inl e))
      | (effs, r) \<Rightarrow> (effs, [], False, r))"


section \<open>Event pump\<close>

datatype pump_input =
    PumpCancelled
  | PumpNext "(EventSourceError, Event option) result" MessageId bool

datatype pump_effect = PumpWrite WriterCommand bool | PumpReport CoordinatorEvent | PumpCloseSource

text \<open>One pass: the effects, and whether the pump returns. The identifier is the one \<open>MessageId::new()\<close> returns, the flag
  \<open>try_send(..).is_ok()\<close> of the writer queue.\<close>

fun pump_pass ::
  "TransportSubscriptionId \<Rightarrow> Version \<Rightarrow> MessageCodec \<Rightarrow> pump_input \<Rightarrow> pump_effect list \<times> bool" where
  "pump_pass i version codec PumpCancelled = ([PumpCloseSource], True)"
| "pump_pass i version codec (PumpNext (Inr (Some event)) mid queued) =
     (let write = PumpWrite (Application (OutEvent \<lparr>env_version = version, env_message_id = mid,
            env_message_type = MessageType ''event'', env_payload = event\<rparr>) codec) queued in
      if queued then ([write], False)
      else ([write, PumpReport (SlowConsumerEvent i), PumpCloseSource], True))"
| "pump_pass i version codec (PumpNext (Inr None) mid queued) = ([PumpReport (SubscriptionFinished i)], True)"
| "pump_pass i version codec (PumpNext (Inl e) mid queued) =
     ([PumpWrite (Application (OutError (from_transport_error None (EventSourceFailure e))) codec) queued,
       PumpReport (EventSourceFailed i (EventSourceFailure e) (e = ES_SubscriptionLagged) queued),
       PumpCloseSource], True)"

fun run_event_pump ::
  "TransportSubscriptionId \<Rightarrow> Version \<Rightarrow> MessageCodec \<Rightarrow> pump_input list \<Rightarrow> pump_effect list \<times> bool" where
  "run_event_pump i version codec [] = ([], False)"
| "run_event_pump i version codec (x # xs) =
     (case pump_pass i version codec x of
        (eff, True) \<Rightarrow> (eff, True)
      | (eff, False) \<Rightarrow> (case run_event_pump i version codec xs of (effs, exited) \<Rightarrow> (eff @ effs, exited)))"



section \<open>Action worker\<close>

datatype exec_outcome = ExecCancelled | ExecDone "(TransportExecutionError, Event list) result"

datatype action_input = ActionCancelled | ActionReceived "ActionJob option" exec_outcome bool

datatype action_effect = ActionExecuted Action exec_outcome | ActionReported CoordinatorEvent bool

fun action_pass :: "action_input \<Rightarrow> action_effect list \<times> bool" where
  "action_pass ActionCancelled = ([], True)"
| "action_pass (ActionReceived None out accepted) = ([], True)"
| "action_pass (ActionReceived (Some job) ExecCancelled accepted) = ([ActionExecuted (aj_action job) ExecCancelled], True)"
| "action_pass (ActionReceived (Some job) (ExecDone r) accepted) =
     ([ActionExecuted (aj_action job) (ExecDone r),
       ActionReported (ActionCompleted (aj_request_id job) (ac_id (aj_action job)) r) accepted], \<not> accepted)"

fun run_action_worker :: "action_input list \<Rightarrow> action_effect list \<times> bool" where
  "run_action_worker [] = ([], False)"
| "run_action_worker (x # xs) =
     (case action_pass x of
        (eff, True) \<Rightarrow> (eff, True)
      | (eff, False) \<Rightarrow> (case run_action_worker xs of (effs, exited) \<Rightarrow> (eff @ effs, exited)))"


section \<open>Query worker\<close>

datatype task_outcome = TaskResponse QueryResponse | TaskCancelled | TaskPanicked

text \<open>The tasks of the \<open>JoinSet\<close>, and what has happened so far: the jobs received, the tasks joined with their outcome,
  the responses the coordinator accepted and the jobs aborted at the end.\<close>

record query_worker =
  qw_tasks :: "QueryJob list"
  qw_received :: "QueryJob list"
  qw_joined :: "(QueryJob \<times> task_outcome) list"
  qw_sent :: "QueryResponse list"
  qw_aborted :: "QueryJob list"
  qw_exited :: bool

definition query_worker_new :: query_worker where
  "query_worker_new = \<lparr>qw_tasks = [], qw_received = [], qw_joined = [], qw_sent = [], qw_aborted = [], qw_exited = False\<rparr>"

datatype query_input = QueryCancelled | QueryJoined nat task_outcome bool | QueryReceived "QueryJob option"

definition abort_all :: "query_worker \<Rightarrow> query_worker" where
  "abort_all s = s\<lparr>qw_tasks := [], qw_aborted := qw_tasks s, qw_exited := True\<rparr>"

text \<open>One pass of the loop; \<open>None\<close> if the branch of the \<open>select!\<close> is disabled. \<open>QueryJoined k\<close> is the completion of the \<open>k\<close>-th
  task.\<close>

fun query_pass :: "nat \<Rightarrow> query_input \<Rightarrow> query_worker \<Rightarrow> query_worker option" where
  "query_pass max_in_flight QueryCancelled s = Some (abort_all s)"
| "query_pass max_in_flight (QueryJoined k out accepted) s =
     (if k < length (qw_tasks s) then
        let s' = s\<lparr>qw_tasks := take k (qw_tasks s) @ drop (Suc k) (qw_tasks s),
                   qw_joined := qw_joined s @ [(qw_tasks s ! k, out)]\<rparr> in
        (case out of
           TaskResponse response \<Rightarrow>
             if accepted then Some (s'\<lparr>qw_sent := qw_sent s' @ [response]\<rparr>) else Some (abort_all s')
         | _ \<Rightarrow> Some s')
      else None)"
| "query_pass max_in_flight (QueryReceived job) s =
     (if length (qw_tasks s) < max_in_flight then
        (case job of
           None \<Rightarrow> Some (abort_all s)
         | Some j \<Rightarrow> Some (s\<lparr>qw_tasks := qw_tasks s @ [j], qw_received := qw_received s @ [j]\<rparr>))
      else None)"

inductive query_step :: "nat \<Rightarrow> query_worker \<Rightarrow> query_worker \<Rightarrow> bool" for n where
  "\<not> qw_exited s \<Longrightarrow> query_pass n i s = Some s' \<Longrightarrow> query_step n s s'"

inductive_cases query_stepE: "query_step n s s'"


section \<open>What the tasks guarantee\<close>

text \<open>The event of a frame, if it has one.\<close>

fun classify :: "nat \<Rightarrow> reader_input \<Rightarrow> ReaderEvent list" where
  "classify limit (StreamFrame (WsText t)) = [if length t > limit then ReaderOversized else ReaderText t]"
| "classify limit (StreamFrame (WsBinary b)) = [if length b > limit then ReaderOversized else ReaderBinary]"
| "classify limit (StreamFrame (WsPing p)) = [ReaderNativePing p]"
| "classify limit (StreamFrame (WsPong p)) = [ReaderNativePong]"
| "classify limit (StreamFrame WsClose) = [ReaderClosed]"
| "classify limit StreamEnd = [ReaderClosed]"
| "classify limit _ = []"

fun within_limit :: "nat \<Rightarrow> ReaderEvent \<Rightarrow> bool" where
  "within_limit limit (ReaderText t) = (length t \<le> limit)"
| "within_limit limit _ = True"

definition final_event :: "ReaderEvent \<Rightarrow> bool" where
  "final_event e \<longleftrightarrow> e \<in> {ReaderClosed, ReaderBinary, ReaderOversized}"

lemma reader_pass_classify:
  "reader_pass limit i accepted = (e, exit) \<Longrightarrow>
     (e = None \<and> (exit \<noteq> None \<or> classify limit i = []) \<or> (\<exists>x. e = Some x \<and> classify limit i = [x]))
     \<and> (exit = None \<longrightarrow> (\<forall>x. e = Some x \<longrightarrow> accepted \<and> \<not> final_event x)) \<and> (\<forall>x. e = Some x \<longrightarrow> within_limit limit x)"
  by (cases "(limit, i, accepted)" rule: reader_pass.cases) (auto simp: final_event_def split: if_splits)

lemma run_reader_prefix:
  "run_reader limit is = (es, exit) \<Longrightarrow>
     (\<exists>k. es = take k (concat (map (classify limit \<circ> fst) is))) \<and> list_all (within_limit limit) es
     \<and> list_all (\<lambda>e. \<not> final_event e) (butlast es)"
proof (induction limit "is" arbitrary: es exit rule: run_reader.induct)
  case (1 limit)
  then show ?case by simp
next
  case (2 limit i accepted "is")
  obtain e ex where pass: "reader_pass limit i accepted = (e, ex)" by fastforce
  note c = reader_pass_classify [OF pass]
  show ?case
  proof (cases ex)
    case (Some r)
    then have es: "es = delivered e accepted" using 2(2) pass by simp
    have "es = take (length es) (concat (map (classify limit \<circ> fst) ((i, accepted) # is)))"
      "list_all (within_limit limit) es" "list_all (\<lambda>e. \<not> final_event e) (butlast es)"
      using c by (cases e; auto simp: es delivered_def)+
    then show ?thesis by blast
  next
    case None
    obtain es' where rest: "run_reader limit is = (es', exit)" "es = delivered e accepted @ es'"
      using 2(2) pass None by (auto split: prod.splits)
    obtain k where k: "es' = take k (concat (map (classify limit \<circ> fst) is))" "list_all (within_limit limit) es'"
      "list_all (\<lambda>e. \<not> final_event e) (butlast es')"
      using 2(1) [OF pass [symmetric] None rest(1)] by blast
    have d: "delivered e accepted = classify limit i" using c None by (cases e) (auto simp: delivered_def)
    then have "es = take (length (classify limit i) + k) (concat (map (classify limit \<circ> fst) ((i, accepted) # is)))"
      using rest(2) k(1) by simp
    moreover have "list_all (within_limit limit) es" "list_all (\<lambda>e. \<not> final_event e) (butlast es)"
      using rest(2) k(2,3) c None by (cases e; auto simp: delivered_def butlast_append)+
    ultimately show ?thesis by blast
  qed
qed

text \<open>C30. The reader delivers what arrives, in order and nothing else: the events the coordinator gets are a prefix of
  the classification of the frames, no text frame longer than the limit is among them, and a close, a binary or an
  oversized frame ends the delivery.\<close>

theorem reader_delivers_in_order:
  "(\<exists>k. fst (run_reader limit is) = take k (concat (map (classify limit \<circ> fst) is)))
    \<and> list_all (within_limit limit) (fst (run_reader limit is))
    \<and> list_all (\<lambda>e. \<not> final_event e) (butlast (fst (run_reader limit is)))"
  using run_reader_prefix [of limit "is" "fst (run_reader limit is)" "snd (run_reader limit is)"] by simp


text \<open>A failing stream is reported, at most once, and the report ends the session with that error.\<close>

lemma run_reader_failure:
  "run_reader limit is = (es, Some (Inl e)) \<Longrightarrow>
     \<exists>(i, accepted) \<in> set is. (\<exists>m. i = StreamError m \<and> e = ''WebSocket reader failed: '' @ m) \<or> \<not> accepted \<and> e = coordinator_gone"
proof (induction limit "is" arbitrary: es rule: run_reader.induct)
  case (2 limit i accepted "is")
  show ?case
  proof (cases "snd (reader_pass limit i accepted)")
    case None
    then show ?thesis using 2 by (fastforce split: prod.splits)
  next
    case (Some exit)
    then show ?thesis using 2(2) by (cases "(limit, i, accepted)" rule: reader_pass.cases) (auto split: if_splits)
  qed
qed simp

lemma reader_task_reports:
  assumes "ev \<in> set (snd (reader_task limit is))"
  shows "\<exists>e. snd (reader_task limit is) = [ev] \<and> ev = ReaderFailed e \<and> run_reader limit is = (fst (reader_task limit is), Some (Inl e))
    \<and> session_pass P cfg (now, FromTasks (Some ev)) (co, w) = (fatal_exit (WS_Task e) False, co, w)"
  using assms by (auto simp: reader_task_def session_pass_def split: prod.splits option.splits sum.splits)


text \<open>The frames of a writer command, and the frames the sink accepted.\<close>

definition frames_of :: "writer_input \<Rightarrow> ws_message list" where
  "frames_of i =
     (case wi_command i of
        None \<Rightarrow> []
      | Some None \<Rightarrow> [WsClose]
      | Some (Some WriterClose) \<Rightarrow> [WsClose]
      | Some (Some (NativePing p)) \<Rightarrow> [WsPing p]
      | Some (Some (NativePong p)) \<Rightarrow> [WsPong p]
      | Some (Some (Application m codec)) \<Rightarrow>
          (case encode_outbound codec m of Inr t \<Rightarrow> if is_utf8 t then [WsText t] else [] | Inl _ \<Rightarrow> []))"

fun accepted_frame :: "writer_effect \<Rightarrow> ws_message list" where
  "accepted_frame (SinkSend m SinkDone) = [m]"
| "accepted_frame _ = []"

definition accepted_frames :: "writer_effect list \<Rightarrow> ws_message list" where
  "accepted_frames effs = concat (map accepted_frame effs)"

lemma accepted_frames_simps [simp]:
  "accepted_frames [] = []" "accepted_frames (e # effs) = accepted_frame e @ accepted_frames effs"
  "accepted_frames (effs @ effs') = accepted_frames effs @ accepted_frames effs'"
  by (simp_all add: accepted_frames_def)

lemma close_writer_frames:
  "close_writer ms o1 o2 = (eff, r) \<Longrightarrow> accepted_frames eff = [] \<or> accepted_frames eff = [WsClose]"
  by (cases o1; cases o2) (auto simp: close_writer_def send_with_timeout_def close_with_timeout_def)

lemma writer_pass_frames:
  assumes "writer_pass ms i = (eff, r)"
  shows "accepted_frames eff = [] \<and> r \<noteq> None \<or> accepted_frames eff = frames_of i"
    "r = None \<Longrightarrow> WsClose \<notin> set (accepted_frames eff)" "length (accepted_frames eff) \<le> 1"
proof -
  have send: "after_write (send_with_timeout m oper ms out) = (eff, r) \<Longrightarrow>
      (accepted_frames eff = [] \<and> r \<noteq> None \<or> accepted_frames eff = [m]) \<and> length (accepted_frames eff) \<le> 1" for m oper out
    by (cases out) (auto simp: after_write_def send_with_timeout_def)
  have app: "after_write (write_application codec m ms out) = (eff, r) \<Longrightarrow>
      (accepted_frames eff = [] \<and> r \<noteq> None
       \<or> (\<exists>t. encode_outbound codec m = Inr t \<and> is_utf8 t \<and> accepted_frames eff = [WsText t]))
      \<and> length (accepted_frames eff) \<le> 1" for codec m out
  proof (cases "encode_outbound codec m")
    case (Inr t)
    assume run: "after_write (write_application codec m ms out) = (eff, r)"
    show ?thesis
    proof (cases "is_utf8 t")
      case True
      then show ?thesis using Inr run send [of "WsText t" "''text write''" out] by (auto simp: write_application_def)
    qed (use Inr run in \<open>auto simp: write_application_def after_write_def\<close>)
  qed (auto simp: write_application_def after_write_def)
  show "accepted_frames eff = [] \<and> r \<noteq> None \<or> accepted_frames eff = frames_of i"
    "r = None \<Longrightarrow> WsClose \<notin> set (accepted_frames eff)" "length (accepted_frames eff) \<le> 1"
    using assms close_writer_frames send app
    by (fastforce simp: writer_pass_def frames_of_def split: option.splits WriterCommand.splits prod.splits)+
qed

lemma writer_loop_prefix:
  "writer_loop ms is = (effs, r) \<Longrightarrow>
     (\<exists>k. accepted_frames effs = take k (concat (map frames_of is))) \<and> WsClose \<notin> set (butlast (accepted_frames effs))"
proof (induction ms "is" arbitrary: effs r rule: writer_loop.induct)
  case (1 ms)
  then show ?case by simp
next
  case (2 ms i "is")
  obtain eff ex where pass: "writer_pass ms i = (eff, ex)" by fastforce
  note c = writer_pass_frames [OF pass]
  show ?case
  proof (cases ex)
    case (Some res)
    then have effs: "effs = eff" using 2(2) pass by simp
    have "accepted_frames eff = take (length (accepted_frames eff)) (concat (map frames_of (i # is)))" using c(1) by auto
    moreover have "butlast (accepted_frames eff) = []" using c(3) by (cases "accepted_frames eff") auto
    ultimately show ?thesis unfolding effs by (metis empty_iff list.set(1))
  next
    case None
    obtain effs' where rest: "writer_loop ms is = (effs', r)" "effs = eff @ effs'"
      using 2(2) pass None by (auto split: prod.splits)
    obtain k where k: "accepted_frames effs' = take k (concat (map frames_of is))"
      "WsClose \<notin> set (butlast (accepted_frames effs'))"
      using 2(1) [OF pass [symmetric] None rest(1)] by auto
    have "accepted_frames effs = take (length (frames_of i) + k) (concat (map frames_of (i # is)))"
      using rest(2) k(1) c(1) None by simp
    moreover have "WsClose \<notin> set (butlast (accepted_frames effs))"
      using rest(2) k(2) c(2) None by (auto simp: butlast_append dest: in_set_butlastD)
    ultimately show ?thesis by blast
  qed
qed

text \<open>C29. The writer sends in order and nothing else: the frames the sink accepts are a prefix of the frames of the
  commands in the order of the queue, each at most once, and nothing follows a close frame.\<close>

theorem writer_sends_in_order:
  "(\<exists>k. accepted_frames (fst (writer_loop ms is)) = take k (concat (map frames_of is)))
    \<and> WsClose \<notin> set (butlast (accepted_frames (fst (writer_loop ms is))))"
  using writer_loop_prefix [of ms "is" "fst (writer_loop ms is)" "snd (writer_loop ms is)"] by simp


text \<open>The pump: the inputs it forwards, and what it reports when it ends.\<close>

fun forwarded :: "pump_input \<Rightarrow> bool" where
  "forwarded (PumpNext (Inr (Some e)) mid queued) = queued"
| "forwarded _ = False"

fun event_message :: "Version \<Rightarrow> pump_input \<Rightarrow> Event MessageEnvelope list" where
  "event_message v (PumpNext (Inr (Some e)) mid queued) =
     [\<lparr>env_version = v, env_message_id = mid, env_message_type = MessageType ''event'', env_payload = e\<rparr>]"
| "event_message v _ = []"

fun queued_event :: "pump_effect \<Rightarrow> Event MessageEnvelope list" where
  "queued_event (PumpWrite (Application (OutEvent m) codec) True) = [m]"
| "queued_event _ = []"

fun reported :: "pump_effect \<Rightarrow> CoordinatorEvent list" where
  "reported (PumpReport e) = [e]"
| "reported _ = []"

fun pump_reports :: "TransportSubscriptionId \<Rightarrow> pump_input list \<Rightarrow> CoordinatorEvent list" where
  "pump_reports i (PumpNext (Inr (Some e)) mid queued # _) = [SlowConsumerEvent i]"
| "pump_reports i (PumpNext (Inr None) mid queued # _) = [SubscriptionFinished i]"
| "pump_reports i (PumpNext (Inl e) mid queued # _) =
     [EventSourceFailed i (EventSourceFailure e) (e = ES_SubscriptionLagged) queued]"
| "pump_reports i _ = []"

fun source_left_open :: "pump_input list \<Rightarrow> bool" where
  "source_left_open [] = True"
| "source_left_open (PumpNext (Inr None) mid queued # _) = True"
| "source_left_open _ = False"

lemma pump_pass_forwarded:
  "forwarded x \<Longrightarrow> pump_pass i v c x = (map (\<lambda>m. PumpWrite (Application (OutEvent m) c) True) (event_message v x), False)"
  by (cases x rule: forwarded.cases) auto

lemma pump_pass_final:
  "\<not> forwarded x \<Longrightarrow> snd (pump_pass i v c x) \<and> concat (map queued_event (fst (pump_pass i v c x))) = []
     \<and> concat (map reported (fst (pump_pass i v c x))) = pump_reports i (x # xs)
     \<and> count_list (fst (pump_pass i v c x)) PumpCloseSource = (if source_left_open (x # xs) then 0 else 1)"
  by (cases x rule: forwarded.cases) (auto simp: Let_def)

text \<open>C31. An event pump forwards the events of its source to the writer queue in order, each exactly once, until the
  first input that is not an event with room for it; it then returns, and reports exactly that to the coordinator: a slow
  consumer, the end of the source, or its failure with whether it is fatal (lag) and whether the client was told; nothing
  after a cancellation. It closes its source exactly once, unless the source ended by itself.\<close>

theorem pump_forwards_in_order:
  "concat (map queued_event (fst (run_event_pump i v c xs))) = concat (map (event_message v) (takeWhile forwarded xs))
    \<and> concat (map reported (fst (run_event_pump i v c xs))) = pump_reports i (dropWhile forwarded xs)
    \<and> snd (run_event_pump i v c xs) = (\<exists>x \<in> set xs. \<not> forwarded x)
    \<and> count_list (fst (run_event_pump i v c xs)) PumpCloseSource
        = (if source_left_open (dropWhile forwarded xs) then 0 else 1)"
proof (induction xs)
  case Nil
  then show ?case by simp
next
  case (Cons x xs)
  show ?case
  proof (cases "forwarded x")
    case True
    obtain effs exited where rest: "run_event_pump i v c xs = (effs, exited)" by fastforce
    have "concat (map queued_event (map (\<lambda>m. PumpWrite (Application (OutEvent m) c) True) ms)) = ms"
      "concat (map reported (map (\<lambda>m. PumpWrite (Application (OutEvent m) c) True) ms)) = []"
      "count_list (map (\<lambda>m. PumpWrite (Application (OutEvent m) c) True) ms) PumpCloseSource = 0" for ms
      by (induction ms) auto
    then show ?thesis using True rest Cons.IH by (simp add: pump_pass_forwarded)
  next
    case False
    obtain effs where "pump_pass i v c x = (effs, True)"
      using pump_pass_final [OF False, of i v c xs] by (metis prod.collapse)
    then show ?thesis using pump_pass_final [OF False, of i v c xs] False by simp
  qed
qed


text \<open>The query worker.\<close>

definition response_of :: "QueryJob \<times> task_outcome \<Rightarrow> QueryResponse list" where
  "response_of j = (case snd j of TaskResponse r \<Rightarrow> [r] | _ \<Rightarrow> [])"

definition query_worker_inv :: "nat \<Rightarrow> query_worker \<Rightarrow> bool" where
  "query_worker_inv n s \<longleftrightarrow>
     length (qw_tasks s) \<le> n
     \<and> mset (qw_received s) = mset (qw_tasks s) + mset (map fst (qw_joined s)) + mset (qw_aborted s)
     \<and> (if qw_exited s then qw_tasks s = [] \<and> (\<exists>k. qw_sent s = take k (concat (map response_of (qw_joined s))))
        else qw_aborted s = [] \<and> qw_sent s = concat (map response_of (qw_joined s)))"

lemma mset_remove_nth: "k < length xs \<Longrightarrow> mset xs = add_mset (xs ! k) (mset (take k xs @ drop (Suc k) xs))"
  by (metis id_take_nth_drop mset_append mset.simps(2) union_mset_add_mset_right)

lemma query_pass_inv:
  assumes "query_worker_inv n s" "\<not> qw_exited s" "query_pass n i s = Some s'"
  shows "query_worker_inv n s'"
proof (cases i)
  case QueryCancelled
  then show ?thesis using assms by (auto simp: query_worker_inv_def abort_all_def intro: exI [of _ "length (qw_sent s)"])
next
  case (QueryReceived job)
  then show ?thesis using assms
    by (cases job) (auto simp: query_worker_inv_def abort_all_def intro: exI [of _ "length (qw_sent s)"] split: if_splits)
next
  case (QueryJoined k out acc)
  then have k: "k < length (qw_tasks s)" using assms(3) by (auto split: if_splits)
  then show ?thesis using assms QueryJoined mset_remove_nth [OF k]
    by (cases out; cases acc) (auto simp: query_worker_inv_def abort_all_def Let_def response_of_def
        intro: exI [of _ "length (concat (map response_of (qw_joined s)))"])
qed

lemma query_worker_inv_reachable: "(query_step n)\<^sup>*\<^sup>* query_worker_new s \<Longrightarrow> query_worker_inv n s"
proof (induction rule: rtranclp_induct)
  case base
  then show ?case by (simp add: query_worker_inv_def query_worker_new_def)
next
  case (step s s')
  then show ?case by (auto elim!: query_stepE intro: query_pass_inv)
qed

text \<open>C18. The query worker runs at most as many queries at the same time as configured and loses none: in every reachable
  state every received query is running, was joined, or was aborted when the worker stopped, exactly once; while it runs,
  the responses sent to the coordinator are exactly those of the joined tasks, in the order of their completion (a task
  that was cancelled or panicked has none).\<close>

theorem query_worker_bounded:
  assumes "(query_step n)\<^sup>*\<^sup>* query_worker_new s"
  shows "length (qw_tasks s) \<le> n
    \<and> mset (qw_received s) = mset (qw_tasks s) + mset (map fst (qw_joined s)) + mset (qw_aborted s)
    \<and> (qw_exited s \<or> qw_aborted s = [] \<and> qw_sent s = concat (map response_of (qw_joined s)))"
  using query_worker_inv_reachable [OF assms] by (auto simp: query_worker_inv_def split: if_splits)


definition small_query :: QueryJob where
  "small_query = \<lparr>qj_actor = QueryActorContext_new (ActorId (EntityId 1)),
     qj_request = \<lparr>qr_request_id = MessageId (EntityId 2), qr_query_type = QueryType ''a.b'', qr_payload = payload_new\<rparr>\<rparr>"

definition small_response :: QueryResponse where
  "small_response = QueryResponse_success (MessageId (EntityId 2)) (QueryType ''a.b'') payload_new"

definition busy_worker :: query_worker where
  "busy_worker = query_worker_new\<lparr>qw_tasks := [small_query], qw_received := [small_query]\<rparr>"

definition done_worker :: query_worker where
  "done_worker = busy_worker\<lparr>qw_tasks := [], qw_joined := [(small_query, TaskResponse small_response)],
     qw_sent := [small_response]\<rparr>"

theorem query_worker_bounded_witness:
  "length (qw_tasks done_worker) \<le> 1
    \<and> mset (qw_received done_worker) = mset (qw_tasks done_worker) + mset (map fst (qw_joined done_worker)) + mset (qw_aborted done_worker)
    \<and> qw_sent done_worker = [small_response]"
proof -
  have "query_step 1 query_worker_new busy_worker"
    by (rule query_step.intros [of _ _ "QueryReceived (Some small_query)"])
      (simp_all add: query_worker_new_def busy_worker_def)
  moreover have "query_step 1 busy_worker done_worker"
    by (rule query_step.intros [of _ _ "QueryJoined 0 (TaskResponse small_response) True"])
      (simp_all add: query_worker_new_def busy_worker_def done_worker_def Let_def)
  ultimately have "(query_step 1)\<^sup>*\<^sup>* query_worker_new done_worker" by (meson r_into_rtranclp rtranclp_trans)
  from query_worker_bounded [OF this] show ?thesis by (simp add: done_worker_def)
qed

end
