(* ===== verification/Transport_Flow.thy ===== *)
theory Transport_Flow
  imports Transport_Tasks
begin

text \<open>
  Coordinator and action worker together: the coordinator (\<open>websocket/coordinator.rs\<close>) puts accepted actions into a bounded
  channel, the worker (\<open>websocket/action_worker.rs\<close>) takes one at a time, executes it and reports to the coordinator's event
  channel, which it shares with the other tasks. The steps below are the passes of the two loops in any interleaving, with the
  two channels between them made explicit. No step is a new operation: each applies \<open>session_pass\<close> or \<open>action_pass\<close>.
\<close>

section \<open>State and steps\<close>

text \<open>\<open>fl_submitted\<close> and \<open>fl_answered\<close> record what happened: the jobs that entered the action channel and the reports the
  coordinator has handled.\<close>

record 'w flow =
  fl_coordinator :: Coordinator
  fl_world :: 'w
  fl_queue :: "ActionJob list"
  fl_busy :: "ActionJob option"
  fl_events :: "CoordinatorEvent list"
  fl_submitted :: "ActionJob list"
  fl_answered :: "CoordinatorEvent list"

definition flow_new :: "Coordinator \<Rightarrow> 'w \<Rightarrow> 'w flow" where
  "flow_new co w = \<lparr>fl_coordinator = co, fl_world = w, fl_queue = [], fl_busy = None, fl_events = [],
     fl_submitted = [], fl_answered = []\<rparr>"

text \<open>\<open>try_send\<close> on the action channel succeeds if there is room.\<close>

definition bounded_actions :: "nat \<Rightarrow> 'a list \<Rightarrow> ('w, 'src) SessionPorts \<Rightarrow> ('w, 'src) SessionPorts" where
  "bounded_actions cap queue P = P\<lparr>sp_action := \<lambda>j w. (length queue < cap, w)\<rparr>"

text \<open>The job that a frame puts into the channel, if any.\<close>

definition job_of :: "Action MessageEnvelope \<Rightarrow> ActionJob" where
  "job_of env = \<lparr>aj_request_id = env_message_id env, aj_action = env_payload env\<rparr>"

definition accepted_jobs ::
  "('w, 'src) SessionPorts \<Rightarrow> nat \<Rightarrow> ReaderEvent \<Rightarrow> Coordinator \<Rightarrow> 'w \<Rightarrow> ActionJob list" where
  "accepted_jobs P limit e co w =
     (case e of
        ReaderText bs \<Rightarrow>
          (case decode_inbound (co_active_codec co) bs of
             Inr (InAction env) \<Rightarrow>
               (case handle_inbound P limit (InAction env) (co, w) of (Inr _, _) \<Rightarrow> [job_of env] | _ \<Rightarrow> [])
           | _ \<Rightarrow> [])
      | _ \<Rightarrow> [])"

fun completion_of :: "ActionJob \<times> (TransportExecutionError, Event list) result \<Rightarrow> CoordinatorEvent" where
  "completion_of (j, r) = ActionCompleted (aj_request_id j) (ac_id (aj_action j)) r"

fun is_completion :: "CoordinatorEvent \<Rightarrow> bool" where
  "is_completion (ActionCompleted _ _ _) = True"
| "is_completion _ = False"

inductive flow_step :: "('w, 'src) SessionPorts \<Rightarrow> WebSocketAdapterConfig \<Rightarrow> 'w flow \<Rightarrow> 'w flow \<Rightarrow> bool" for P cfg where
  frame: "Q = bounded_actions (action_queue_capacity cfg) (fl_queue s) P \<Longrightarrow>
    session_pass Q cfg (now, FromReader (Some e)) (fl_coordinator s, fl_world s) = (None, co, w) \<Longrightarrow>
    jobs = accepted_jobs Q (max_message_bytes (wc_transport cfg)) e ((fl_coordinator s)\<lparr>co_last_activity := now\<rparr>)
      (fl_world s) \<Longrightarrow>
    flow_step P cfg s (s\<lparr>fl_coordinator := co, fl_world := w, fl_queue := fl_queue s @ jobs,
      fl_submitted := fl_submitted s @ jobs\<rparr>)"
| heartbeat: "session_pass (bounded_actions (action_queue_capacity cfg) (fl_queue s) P) cfg (now, HeartbeatTick) (fl_coordinator s, fl_world s) = (None, co, w) \<Longrightarrow>
    flow_step P cfg s (s\<lparr>fl_coordinator := co, fl_world := w\<rparr>)"
| handle: "fl_events s = e # es \<Longrightarrow>
    session_pass (bounded_actions (action_queue_capacity cfg) (fl_queue s) P) cfg (now, FromTasks (Some e)) (fl_coordinator s, fl_world s) = (None, co, w) \<Longrightarrow>
    flow_step P cfg s (s\<lparr>fl_coordinator := co, fl_world := w, fl_events := es, fl_answered := fl_answered s @ [e]\<rparr>)"
| take: "fl_busy s = None \<Longrightarrow> fl_queue s = j # js \<Longrightarrow> flow_step P cfg s (s\<lparr>fl_busy := Some j, fl_queue := js\<rparr>)"
| finish: "fl_busy s = Some j \<Longrightarrow>
    action_pass (ActionReceived (Some j) (ExecDone r) True) = ([ActionExecuted (aj_action j) (ExecDone r), ActionReported e True], False) \<Longrightarrow>
    flow_step P cfg s (s\<lparr>fl_busy := None, fl_events := fl_events s @ [e]\<rparr>)"
| report: "\<not> is_completion e \<Longrightarrow> flow_step P cfg s (s\<lparr>fl_events := fl_events s @ [e]\<rparr>)"


section \<open>A ready session keeps its identity\<close>

lemma ready_handle_inbound:
  assumes "tc_state (co_connection co) = Ready" "handle_inbound P limit m (co, w) = (r, co', w')"
  shows "co_connection co' = co_connection co"
proof (cases m)
  case (InHello h)
  with assms handle_hello_state [of P h co w r co' w'] show ?thesis by auto
next
  case (InAuthenticate x)
  with assms handle_authenticate_state [of P x co w r co' w'] show ?thesis by auto
next
  case (InSubscribe q)
  with assms handle_subscribe_state [of P q co w r co' w'] show ?thesis by auto
next
  case (InUnsubscribe u)
  with assms handle_unsubscribe_state [of P u co w r co' w'] show ?thesis by auto
next
  case (InAction env)
  with assms handle_action_state [of P env co w] show ?thesis by simp
next
  case (InQuery q)
  with assms handle_query_state [of P limit q co w] show ?thesis by simp
next
  case (InPing n)
  with assms or_slow_frame [of "queue_application P (co_active_codec co) (OutPong n)" co w] show ?thesis by simp
qed (use assms in simp)

lemma ready_on_text:
  assumes "tc_state (co_connection co) = Ready"
  shows "co_connection (fst (snd (on_text P cfg bs co w))) = co_connection co"
proof -
  have "co_connection (fst (snd (on_inbound_result P (handle_inbound P l m (co, w))))) = co_connection co" for l m
  proof -
    obtain r co' w' where h: "handle_inbound P l m (co, w) = (r, co', w')" by (metis prod_cases3)
    from ready_handle_inbound [OF assms h] h show ?thesis
      by (auto simp: on_inbound_result_def split: sum.splits prod.splits)
  qed
  then show ?thesis by (simp add: on_text_def del: handle_inbound.simps split: sum.splits InboundMessage.splits)
qed

lemma ready_session_pass:
  assumes "tc_state (co_connection co) = Ready" "session_pass P cfg i (co, w) = (ex, co', w')"
  shows "co_connection co' = co_connection co"
proof -
  have reader: "co_connection (fst (snd (on_reader_event P cfg e (co\<lparr>co_last_activity := t\<rparr>) w))) = co_connection co" for e t
    using assms(1) by (cases e) (simp_all add: ready_on_text on_bad_frame_def split: prod.splits)
  have tasks: "co_connection (fst (snd (on_coordinator_event P cfg e co w))) = co_connection co" for e
    by (cases e) (simp_all add: split_beta remove_subscription_def split: sum.splits)
  have "co_connection (fst (snd (session_pass P cfg i (co, w)))) = co_connection co"
    using reader tasks by (cases i; cases "snd i") (auto simp: session_pass_def on_heartbeat_def split: option.splits)
  with assms(2) show ?thesis by simp
qed

lemma good_bounded [simp]: "good (bounded_actions cap queue P) n co = good P n co"
  by (simp add: good_def session_inv_def vouched_def bounded_actions_def cong: ConnectionState.case_cong option.case_cong)

lemma good_pass:
  "good P n co \<Longrightarrow> session_pass P cfg i (co, w) = (ex, co', w') \<Longrightarrow> good P n co'"
  using good_session_pass [of P n "(co, w)" cfg i] by simp

text \<open>A job enters the channel only from a ready session whose identity is the actor of its action, and only if there is
  room.\<close>

lemma accepted_jobs_cases:
  assumes "jobs = accepted_jobs (bounded_actions cap queue P) limit e co w"
  obtains "jobs = []"
  | j b where "jobs = [j]" "length queue < cap" "tc_state (co_connection co) = Ready"
      "tc_identity (co_connection co) = Some b" "ab_actor_id b = ac_actor_id (aj_action j)"
proof (cases "jobs = []")
  case False
  then obtain bs env u s' where e: "e = ReaderText bs" "decode_inbound (co_active_codec co) bs = Inr (InAction env)"
    "handle_action (bounded_actions cap queue P) env (co, w) = (Inr u, s')" "jobs = [job_of env]"
    using assms by (auto simp: accepted_jobs_def split: ReaderEvent.splits sum.splits InboundMessage.splits prod.splits)
  have ready: "tc_state (co_connection co) = Ready"
    using e(3) by (cases "ensure_ready (co_connection co)") (auto simp: handle_action_def sbind_def slift_def ensure_ready_ok)
  then obtain v where "ensure_ready (co_connection co) = Inr v" by (auto simp: ensure_ready.simps)
  with e(3) have "validate_action_binding (tc_identity (co_connection co)) (env_payload env) = Inr () \<and> length queue < cap"
    by (auto simp: handle_action_def sbind_def slift_def bounded_actions_def result_simps split: sum.splits bool.splits)
  then obtain b where "tc_identity (co_connection co) = Some b" "ab_actor_id b = ac_actor_id (env_payload env)" "length queue < cap"
    by (auto simp: validate_action_binding_def result_simps split: if_splits)
  with e(4) ready that(2) [of "job_of env" b] show thesis by (simp add: job_of_def)
qed (rule that(1))


section \<open>Invariant\<close>

definition in_worker :: "'w flow \<Rightarrow> ActionJob list" where
  "in_worker s = (case fl_busy s of None \<Rightarrow> [] | Some j \<Rightarrow> [j])"

definition flow_inv :: "('w, 'src) SessionPorts \<Rightarrow> WebSocketAdapterConfig \<Rightarrow> ConnectionId \<Rightarrow> 'w flow \<Rightarrow> bool" where
  "flow_inv P cfg n s \<longleftrightarrow>
     good P n (fl_coordinator s) \<and> length (fl_queue s) \<le> action_queue_capacity cfg
     \<and> (\<exists>finished. fl_submitted s = map fst finished @ in_worker s @ fl_queue s
          \<and> filter is_completion (fl_answered s @ fl_events s) = map completion_of finished)
     \<and> (\<forall>j \<in> set (fl_submitted s). tc_state (co_connection (fl_coordinator s)) = Ready
          \<and> (\<exists>b. tc_identity (co_connection (fl_coordinator s)) = Some b \<and> ab_actor_id b = ac_actor_id (aj_action j)))"

lemma flow_inv_pass:
  assumes "flow_inv P cfg n s" "session_pass (bounded_actions cap queue P) cfg i (fl_coordinator s, fl_world s) = (None, co, w)"
  shows "flow_inv P cfg n (s\<lparr>fl_coordinator := co, fl_world := w\<rparr>)"
proof -
  have "good P n co" using assms good_pass [of "bounded_actions cap queue P" n "fl_coordinator s"] by (simp add: flow_inv_def)
  moreover have "co_connection co = co_connection (fl_coordinator s)" if "tc_state (co_connection (fl_coordinator s)) = Ready"
    using ready_session_pass [OF that assms(2)] .
  ultimately show ?thesis using assms(1) by (auto simp: flow_inv_def in_worker_def)
qed

lemma flow_inv_step:
  assumes "flow_step P cfg s s'" "flow_inv P cfg n s"
  shows "flow_inv P cfg n s'"
  using assms(1)
proof cases
  case (frame Q now e co w jobs)
  have pass: "flow_inv P cfg n (s\<lparr>fl_coordinator := co, fl_world := w\<rparr>)"
    using flow_inv_pass [OF assms(2)] frame(2,3) by blast
  from frame(2,4) show ?thesis
  proof (cases rule: accepted_jobs_cases [OF frame(4) [unfolded frame(2)]])
    case 1
    with pass frame(1) show ?thesis by simp
  next
    case (2 j b)
    from 2(3) have "co_connection co = co_connection (fl_coordinator s)"
      using ready_session_pass frame(3) by (metis Coordinator.select_convs(1) Coordinator.surjective Coordinator.update_convs(5))
    with 2 pass frame(1) show ?thesis by (auto simp: flow_inv_def in_worker_def)
  qed
next
  case (heartbeat now co w)
  with flow_inv_pass [OF assms(2)] show ?thesis by blast
next
  case (handle e es now co w)
  with flow_inv_pass [OF assms(2) handle(3)] show ?thesis by (auto simp: flow_inv_def in_worker_def)
next
  case (take j js)
  with assms(2) show ?thesis by (auto simp: flow_inv_def in_worker_def)
next
  case (finish j r e)
  from assms(2) obtain finished where f: "fl_submitted s = map fst finished @ in_worker s @ fl_queue s"
    "filter is_completion (fl_answered s @ fl_events s) = map completion_of finished"
    by (auto simp: flow_inv_def)
  have "fl_submitted s = map fst (finished @ [(j, r)]) @ fl_queue s"
    "filter is_completion (fl_answered s @ fl_events s @ [e]) = map completion_of (finished @ [(j, r)])"
    using f finish by (auto simp: in_worker_def)
  then have "\<exists>finished. fl_submitted s = map fst finished @ fl_queue s
      \<and> filter is_completion (fl_answered s @ fl_events s @ [e]) = map completion_of finished" by blast
  with assms(2) finish(1) show ?thesis by (simp add: flow_inv_def in_worker_def)
next
  case (report e)
  with assms(2) show ?thesis by (simp add: flow_inv_def in_worker_def)
qed

lemma flow_inv_new: "flow_inv P cfg i (flow_new (Coordinator_new P (TransportConnection_new i m) now) w)"
  by (simp add: flow_inv_def flow_new_def in_worker_def good_new)

lemma flow_inv_steps: "(flow_step P cfg)\<^sup>*\<^sup>* s s' \<Longrightarrow> flow_inv P cfg n s \<Longrightarrow> flow_inv P cfg n s'"
  by (induction rule: rtranclp_induct) (auto intro: flow_inv_step)


section \<open>Properties\<close>


definition sample_job :: ActionJob where
  "sample_job = \<lparr>aj_request_id = MessageId (EntityId 8), aj_action = sample_action 2\<rparr>"

definition sample_flow :: "sample_session flow" where
  "sample_flow = flow_new (Coordinator_new sample_ports (TransportConnection_new (ConnectionId (EntityId 1)) metadata_new) 0)
     \<lparr>ss_written = [], ss_actions = []\<rparr>"

lemma sample_flow_ready:
  "\<exists>s. (flow_step sample_ports sample_config)\<^sup>*\<^sup>* sample_flow s \<and> fl_submitted s = [sample_job] \<and> fl_queue s = [sample_job]
     \<and> fl_busy s = None \<and> fl_events s = [] \<and> fl_answered s = []"
proof -
  note evaluate = pass_defs handle_hello_def handle_authenticate_def handle_action_def queue_application_def or_slow_def
    sbind_def slift_def conn_defs Coordinator_new_def TransportConnection_new_def sample_ports_def plain_codec_def
    CompatibleVersionPolicy_def bounded_actions_def accepted_jobs_def sample_config_def WebSocketAdapterConfig_new_def
    validate_action_binding_def sample_binding_def sample_action_def ensure_ready.simps job_of_def
  obtain s1 where s1: "flow_step sample_ports sample_config sample_flow s1"
    "tc_state (co_connection (fl_coordinator s1)) = Authenticating" "co_active_codec (fl_coordinator s1) = plain_codec"
    "fl_submitted s1 = []" "fl_queue s1 = []" "fl_busy s1 = None" "fl_events s1 = []" "fl_answered s1 = []"
    using flow_step.frame [OF refl _ refl, of sample_config sample_flow sample_ports 1 "ReaderText [1]"]
    by (simp add: evaluate sample_flow_def flow_new_def)
  obtain s2 where s2: "flow_step sample_ports sample_config s1 s2"
    "tc_state (co_connection (fl_coordinator s2)) = Ready" "tc_identity (co_connection (fl_coordinator s2)) = Some sample_binding"
    "co_active_codec (fl_coordinator s2) = plain_codec"
    "fl_submitted s2 = []" "fl_queue s2 = []" "fl_busy s2 = None" "fl_events s2 = []" "fl_answered s2 = []"
    using flow_step.frame [OF refl _ refl, of sample_config s1 sample_ports 2 "ReaderText [2]"] s1(2-)
    by (simp add: evaluate)
  obtain s3 where s3: "flow_step sample_ports sample_config s2 s3" "fl_submitted s3 = [sample_job]" "fl_queue s3 = [sample_job]"
    "fl_busy s3 = None" "fl_events s3 = []" "fl_answered s3 = []"
    using flow_step.frame [OF refl _ refl, of sample_config s2 sample_ports 3 "ReaderText [3]"] s2(2-)
    by (simp add: evaluate sample_job_def)
  have "(flow_step sample_ports sample_config)\<^sup>*\<^sup>* sample_flow s3"
    using s1(1) s2(1) s3(1) by (meson converse_rtranclp_into_rtranclp r_into_rtranclp)
  with s3(2-) show ?thesis by blast
qed


end
