(* ===== verification/Asset_Model.thy ===== *)
theory Asset_Model
  imports Core_Model
begin

text \<open>
  \<open>orbitrelay-asset\<close> and \<open>orbitrelay-asset-runtime\<close>: content hashes, asset descriptors, byte ranges and
  chunks, the verified in-memory store and the bounded full read. SHA-256 is a parameter of the store
  (the \<open>sha2\<close> crate); a slice outside the stored bytes is a panic (\<open>None\<close>). The catalog and the reader of
  \<open>read_asset_fully\<close> are ports over a world; a read may also panic.
\<close>

section \<open>Content hashes and descriptors\<close>

datatype AssetId = AssetId EntityId

datatype ContentHash = ContentHash string

primrec hash_str :: "ContentHash \<Rightarrow> string" where
  "hash_str (ContentHash s) = s"

datatype AssetError =
    InvalidContentHash string
  | InvalidMediaType
  | InvalidOriginalFilename

definition is_ascii_hexdigit :: "char \<Rightarrow> bool" where
  "is_ascii_hexdigit c \<longleftrightarrow> CHR ''0'' \<le> c \<and> c \<le> CHR ''9'' \<or> CHR ''a'' \<le> c \<and> c \<le> CHR ''f''
     \<or> CHR ''A'' \<le> c \<and> c \<le> CHR ''F''"

definition to_ascii_lowercase :: "char \<Rightarrow> char" where
  "to_ascii_lowercase c = (if CHR ''A'' \<le> c \<and> c \<le> CHR ''Z'' then char_of (of_char c + 32 :: nat) else c)"

primrec hash_digits :: "string \<Rightarrow> (AssetError, string) result" where
  "hash_digits [] = Inr []"
| "hash_digits (c # cs) =
     (if \<not> is_ascii_hexdigit c
      then Inl (InvalidContentHash ''SHA-256 digest contains a non-hexadecimal character'')
      else rbind (hash_digits cs) (\<lambda>ds. Inr (to_ascii_lowercase c # ds)))"

definition ContentHash_parse :: "string \<Rightarrow> (AssetError, ContentHash) result" where
  "ContentHash_parse s =
     (if length s \<noteq> 64
      then Inl (InvalidContentHash ''SHA-256 digest must contain 64 hexadecimal characters'')
      else rbind (hash_digits s) (\<lambda>ds. Inr (ContentHash ds)))"

definition HEX :: string where
  "HEX = ''0123456789abcdef''"

definition hex_byte :: "u8 \<Rightarrow> string" where
  "hex_byte b = [HEX ! unat (drop_bit 4 b), HEX ! unat (and b 0x0F)]"

definition ContentHash_from_bytes :: "bytes \<Rightarrow> ContentHash" where
  "ContentHash_from_bytes bs = ContentHash (concat (map hex_byte bs))"

record SourceAssetDescriptor =
  sad_asset_id :: AssetId
  sad_media_type :: string
  sad_byte_length :: u64
  sad_content_hash :: ContentHash
  sad_original_filename :: "string option"

definition SourceAssetDescriptor_new ::
  "AssetId \<Rightarrow> string \<Rightarrow> u64 \<Rightarrow> ContentHash \<Rightarrow> string option \<Rightarrow> (AssetError, SourceAssetDescriptor) result" where
  "SourceAssetDescriptor_new i m n h f =
     (if blank m then Inl InvalidMediaType
      else if (case f of Some name \<Rightarrow> blank name | None \<Rightarrow> False) then Inl InvalidOriginalFilename
      else Inr \<lparr>sad_asset_id = i, sad_media_type = m, sad_byte_length = n, sad_content_hash = h,
                sad_original_filename = f\<rparr>)"


section \<open>Ranges and chunks\<close>

datatype AssetCatalogError = CatalogDown string

datatype AssetReadError =
    ReadNotFound AssetId
  | RangeOutOfBounds AssetId u64 u64
  | ReadUnavailable string

datatype AssetRangeError = ZeroLength | RangeOverflow u64 u64

datatype AssetChunkError =
    OffsetBeyondTotal u64 u64
  | ChunkLengthOverflow nat
  | ChunkOffsetOverflow u64 u64
  | BytesBeyondTotal u64 u64 u64
  | EmptyBeforeEof u64 u64

record AssetByteRange =
  abr_offset :: u64
  abr_length :: u64

definition AssetByteRange_new :: "u64 \<Rightarrow> u64 \<Rightarrow> (AssetRangeError, AssetByteRange) result" where
  "AssetByteRange_new off len =
     (if len = 0 then Inl ZeroLength
      else rbind (ok_or (checked_add off len) (RangeOverflow off len)) (\<lambda>_.
           Inr \<lparr>abr_offset = off, abr_length = len\<rparr>))"

definition end_offset :: "AssetByteRange \<Rightarrow> u64 option" where
  "end_offset r = checked_add (abr_offset r) (abr_length r)"

record AssetByteChunk =
  abc_offset :: u64
  abc_bytes :: bytes
  abc_total_length :: u64

text \<open>\<open>u64::try_from(bytes.len())\<close>\<close>

definition u64_len :: "bytes \<Rightarrow> u64 option" where
  "u64_len bs = (if length bs < 2 ^ 64 then Some (word_of_nat (length bs)) else None)"

definition AssetByteChunk_new :: "u64 \<Rightarrow> bytes \<Rightarrow> u64 \<Rightarrow> (AssetChunkError, AssetByteChunk) result" where
  "AssetByteChunk_new off bs full =
     (if off > full then Inl (OffsetBeyondTotal off full)
      else rbind (ok_or (u64_len bs) (ChunkLengthOverflow (length bs))) (\<lambda>len.
           rbind (ok_or (checked_add off len) (ChunkOffsetOverflow off len)) (\<lambda>nxt.
           if nxt > full then Inl (BytesBeyondTotal off len full)
           else if bs = [] \<and> off < full then Inl (EmptyBeforeEof off full)
           else Inr \<lparr>abc_offset = off, abc_bytes = bs, abc_total_length = full\<rparr>)))"

definition next_offset :: "AssetByteChunk \<Rightarrow> u64 option" where
  "next_offset c = Option.bind (u64_len (abc_bytes c)) (checked_add (abc_offset c))"

definition is_eof :: "AssetByteChunk \<Rightarrow> bool" where
  "is_eof c \<longleftrightarrow> next_offset c = Some (abc_total_length c)"


section \<open>The in-memory store\<close>

datatype AssetInsertOutcome = Inserted | Existing

datatype MemoryAssetStoreError =
    LengthMismatch AssetId u64 u64
  | HashMismatch AssetId ContentHash ContentHash
  | StoreLengthOverflow nat
  | AssetConflict AssetId

record MemoryAssetRecord =
  mar_descriptor :: SourceAssetDescriptor
  mar_bytes :: bytes

type_synonym MemoryAssetStore = "AssetId \<rightharpoonup> MemoryAssetRecord"

text \<open>\<open>digest\<close> is SHA-256 of the \<open>sha2\<close> crate.\<close>

definition sha256 :: "(bytes \<Rightarrow> bytes) \<Rightarrow> bytes \<Rightarrow> ContentHash" where
  "sha256 digest bs = ContentHash_from_bytes (digest bs)"

definition insert_verified ::
  "(bytes \<Rightarrow> bytes) \<Rightarrow> SourceAssetDescriptor \<Rightarrow> bytes \<Rightarrow> MemoryAssetStore
     \<Rightarrow> (MemoryAssetStoreError, AssetInsertOutcome) result \<times> MemoryAssetStore" where
  "insert_verified digest d bs m =
     (case u64_len bs of
        None \<Rightarrow> (Inl (StoreLengthOverflow (length bs)), m)
      | Some actual \<Rightarrow>
          if sad_byte_length d \<noteq> actual
          then (Inl (LengthMismatch (sad_asset_id d) (sad_byte_length d) actual), m)
          else if sad_content_hash d \<noteq> sha256 digest bs
          then (Inl (HashMismatch (sad_asset_id d) (sad_content_hash d) (sha256 digest bs)), m)
          else
            (case m (sad_asset_id d) of
               Some existing \<Rightarrow>
                 if mar_descriptor existing = d \<and> mar_bytes existing = bs then (Inr Existing, m)
                 else (Inl (AssetConflict (sad_asset_id d)), m)
             | None \<Rightarrow> (Inr Inserted, m(sad_asset_id d \<mapsto> \<lparr>mar_descriptor = d, mar_bytes = bs\<rparr>))))"

definition get_asset :: "MemoryAssetStore \<Rightarrow> AssetId \<Rightarrow> (AssetCatalogError, SourceAssetDescriptor option) result" where
  "get_asset m i = Inr (map_option mar_descriptor (m i))"

text \<open>\<open>Bytes::slice\<close>\<close>

definition bytes_slice :: "bytes \<Rightarrow> nat \<Rightarrow> nat \<Rightarrow> bytes option" where
  "bytes_slice bs a b = (if a \<le> b \<and> b \<le> length bs then Some (take (b - a) (drop a bs)) else None)"

definition read_range :: "MemoryAssetStore \<Rightarrow> AssetId \<Rightarrow> AssetByteRange \<Rightarrow> (AssetReadError, AssetByteChunk) result option" where
  "read_range m i r =
     (case m i of
        None \<Rightarrow> Some (Inl (ReadNotFound i))
      | Some entry \<Rightarrow>
          let full = sad_byte_length (mar_descriptor entry) in
          if abr_offset r > full then Some (Inl (RangeOutOfBounds i (abr_offset r) full))
          else if abr_offset r = full
          then Some (map_err (\<lambda>_. ReadUnavailable ''memory asset produced an invalid EOF chunk'')
                 (AssetByteChunk_new (abr_offset r) [] full))
          else
            (case end_offset r of
               None \<Rightarrow> Some (Inl (ReadUnavailable ''memory asset range overflowed unexpectedly''))
             | Some requested \<Rightarrow>
                 (case bytes_slice (mar_bytes entry) (unat (abr_offset r)) (unat (min requested full)) of
                    None \<Rightarrow> None
                  | Some bs \<Rightarrow>
                      Some (map_err (\<lambda>_. ReadUnavailable ''memory asset produced an invalid range chunk'')
                        (AssetByteChunk_new (abr_offset r) bs full)))))"


section \<open>Reading an asset fully\<close>

datatype AssetReadAllError =
    CatalogUnavailable string
  | AssetNotFound AssetId
  | AssetTooLarge AssetId u64 u64
  | AssetLengthOverflow AssetId u64
  | ReaderFailure AssetReadError
  | InvalidChunk AssetId string

definition READ_CHUNK_SIZE :: u64 where
  "READ_CHUNK_SIZE = 64 * 1024"

record 'w asset_ports =
  ap_get_asset :: "AssetId \<Rightarrow> 'w \<Rightarrow> (AssetCatalogError, SourceAssetDescriptor option) result \<times> 'w"
  ap_read_range :: "AssetId \<Rightarrow> AssetByteRange \<Rightarrow> 'w \<Rightarrow> ((AssetReadError, AssetByteChunk) result \<times> 'w) option"

text \<open>One pass of the loop: the bytes of the chunk at \<open>offset\<close> and the offset after it.\<close>

definition read_step ::
  "'w asset_ports \<Rightarrow> AssetId \<Rightarrow> u64 \<Rightarrow> u64 \<Rightarrow> 'w \<Rightarrow> ((AssetReadAllError, bytes \<times> u64) result \<times> 'w) option" where
  "read_step P i full off w =
     (let len = min (full - off) READ_CHUNK_SIZE in
      case AssetByteRange_new off len of
        Inl _ \<Rightarrow> Some (Inl (InvalidChunk i ''helper generated an invalid range''), w)
      | Inr rng \<Rightarrow>
     (case ap_read_range P i rng w of
        None \<Rightarrow> None
      | Some (Inl e, w') \<Rightarrow> Some (Inl (ReaderFailure e), w')
      | Some (Inr chunk, w') \<Rightarrow>
          if abc_offset chunk \<noteq> off \<or> abc_total_length chunk \<noteq> full
          then Some (Inl (InvalidChunk i ''chunk offset or total length disagrees with metadata''), w')
          else if u64_len (abc_bytes chunk) \<noteq> Some len
          then Some (Inl (InvalidChunk i ''chunk byte length disagrees with requested range''), w')
          else
            (case next_offset chunk of
               None \<Rightarrow> Some (Inl (InvalidChunk i ''chunk next offset overflowed''), w')
             | Some nxt \<Rightarrow>
                 if nxt \<le> off \<or> nxt > full
                 then Some (Inl (InvalidChunk i ''chunk did not make bounded forward progress''), w')
                 else Some (Inr (abc_bytes chunk, nxt), w'))))"

lemma read_step_progress:
  "read_step P i full off w = Some (Inr (bs, nxt), w') \<Longrightarrow> off < nxt \<and> nxt \<le> full"
  by (auto simp: read_step_def Let_def split: if_splits sum.splits option.splits prod.splits)

function read_loop ::
  "'w asset_ports \<Rightarrow> AssetId \<Rightarrow> u64 \<Rightarrow> u64 \<Rightarrow> bytes \<Rightarrow> 'w \<Rightarrow> ((AssetReadAllError, bytes) result \<times> 'w) option" where
  "read_loop P i full off acc w =
     (if \<not> off < full then Some (Inr acc, w)
      else
        (case read_step P i full off w of
           None \<Rightarrow> None
         | Some (Inl e, w') \<Rightarrow> Some (Inl e, w')
         | Some (Inr (bs, nxt), w') \<Rightarrow> read_loop P i full nxt (acc @ bs) w'))"
  by pat_completeness auto
termination
proof (relation "measure (\<lambda>(P, i, full, off, acc, w). unat full - unat off)", goal_cases)
  case (2 P i full off acc w a r w' x bs nxt)
  then have "off < nxt \<and> nxt \<le> full" by (intro read_step_progress [of P i full off w bs nxt w']) auto
  then show ?case by (auto simp: word_less_nat_alt word_le_nat_alt)
qed simp

declare read_loop.simps [simp del]

definition read_asset_fully ::
  "'w asset_ports \<Rightarrow> AssetId \<Rightarrow> u64 \<Rightarrow> 'w \<Rightarrow> ((AssetReadAllError, bytes) result \<times> 'w) option" where
  "read_asset_fully P i max_bytes w =
     (case ap_get_asset P i w of
        (Inl (CatalogDown detail), w1) \<Rightarrow> Some (Inl (CatalogUnavailable (''asset catalog unavailable: '' @ detail)), w1)
      | (Inr None, w1) \<Rightarrow> Some (Inl (AssetNotFound i), w1)
      | (Inr (Some d), w1) \<Rightarrow>
          let full = sad_byte_length d in
          if full > max_bytes then Some (Inl (AssetTooLarge i full max_bytes), w1)
          else
            (case read_loop P i full 0 [] w1 of
               None \<Rightarrow> None
             | Some (Inl e, w2) \<Rightarrow> Some (Inl e, w2)
             | Some (Inr acc, w2) \<Rightarrow>
                 if u64_len acc \<noteq> Some full
                 then Some (Inl (InvalidChunk i ''assembled byte length disagrees with metadata''), w2)
                 else Some (Inr acc, w2)))"


section \<open>The store keeps what it verified\<close>

text \<open>The ports of a runtime that uses the in-memory store.\<close>

definition memory_asset_ports :: "MemoryAssetStore asset_ports" where
  "memory_asset_ports =
     \<lparr>ap_get_asset = (\<lambda>i m. (get_asset m i, m)),
      ap_read_range = (\<lambda>i r m. map_option (\<lambda>x. (x, m)) (read_range m i r))\<rparr>"

definition entry_ok :: "(bytes \<Rightarrow> bytes) \<Rightarrow> AssetId \<Rightarrow> MemoryAssetRecord \<Rightarrow> bool" where
  "entry_ok digest i e \<longleftrightarrow>
     sad_asset_id (mar_descriptor e) = i
     \<and> u64_len (mar_bytes e) = Some (sad_byte_length (mar_descriptor e))
     \<and> sad_content_hash (mar_descriptor e) = sha256 digest (mar_bytes e)"

definition store_ok :: "(bytes \<Rightarrow> bytes) \<Rightarrow> MemoryAssetStore \<Rightarrow> bool" where
  "store_ok digest m \<longleftrightarrow> (\<forall>i e. m i = Some e \<longrightarrow> entry_ok digest i e)"

definition insert_all ::
  "(bytes \<Rightarrow> bytes) \<Rightarrow> (SourceAssetDescriptor \<times> bytes) list \<Rightarrow> MemoryAssetStore \<Rightarrow> MemoryAssetStore" where
  "insert_all digest = fold (\<lambda>(d, bs) m. snd (insert_verified digest d bs m))"

lemma store_ok_empty [simp]: "store_ok digest Map.empty"
  by (simp add: store_ok_def)

lemma insert_verified_ok [model_inv]:
  "store_ok digest m \<Longrightarrow> store_ok digest (snd (insert_verified digest d bs m))"
  by (auto simp: insert_verified_def store_ok_def entry_ok_def split: option.splits)

lemma insert_verified_keeps: "m \<subseteq>\<^sub>m snd (insert_verified digest d bs m)"
  by (auto simp: insert_verified_def map_le_def split: option.splits)

lemma insert_verified_Inr:
  assumes "insert_verified digest d bs m = (Inr oc, m')"
  shows "m' (sad_asset_id d) = Some \<lparr>mar_descriptor = d, mar_bytes = bs\<rparr>"
  using assms by (auto simp: insert_verified_def split: option.splits if_splits)

lemma insert_all_ok [model_inv]: "store_ok digest m \<Longrightarrow> store_ok digest (insert_all digest xs m)"
  by (induction xs arbitrary: m) (auto simp: insert_all_def insert_verified_ok)

lemma insert_all_keeps: "m \<subseteq>\<^sub>m insert_all digest xs m"
proof (induction xs arbitrary: m)
  case Nil
  then show ?case by (simp add: insert_all_def)
next
  case (Cons x xs)
  obtain d bs where x: "x = (d, bs)" by fastforce
  have "m \<subseteq>\<^sub>m snd (insert_verified digest d bs m)" by (rule insert_verified_keeps)
  also have "\<dots> \<subseteq>\<^sub>m insert_all digest xs (snd (insert_verified digest d bs m))" by (rule Cons.IH)
  finally show ?case by (simp add: insert_all_def x)
qed


section \<open>A reader that serves its content is read back exactly\<close>

lemma u64_len_Some: "u64_len bs = Some n \<longleftrightarrow> unat n = length bs"
proof
  assume "u64_len bs = Some n"
  then show "unat n = length bs"
    by (auto simp: u64_len_def unsigned_of_nat take_bit_nat_eq_self split: if_splits)
next
  assume n: "unat n = length bs"
  then have "length bs < 2 ^ 64" using unsigned_less [of n, where ?'a = nat] by simp
  moreover have "word_of_nat (length bs) = n" unfolding n [symmetric] by simp
  ultimately show "u64_len bs = Some n" by (simp add: u64_len_def)
qed

lemma checked_add_Some_iff:
  "checked_add (a :: 'a::len word) b = Some c \<longleftrightarrow> unat c = unat a + unat b"
proof -
  have "unat c = unat a + unat b \<Longrightarrow> unat a + unat b < 2 ^ LENGTH('a)" by (metis unsigned_less)
  then show ?thesis by (auto simp: checked_add_def word_unat_eq_iff unat_word_ariths)
qed

locale range_reader =
  fixes P :: "'w asset_ports"
    and ok :: "'w \<Rightarrow> bool"
    and content :: "'w \<Rightarrow> AssetId \<Rightarrow> bytes option"
  assumes described: "ok w \<Longrightarrow> content w i = Some bs
      \<Longrightarrow> \<exists>d. ap_get_asset P i w = (Inr (Some d), w) \<and> u64_len bs = Some (sad_byte_length d)"
    and served: "ok w \<Longrightarrow> content w i = Some bs \<Longrightarrow> AssetByteRange_new off len = Inr r
      \<Longrightarrow> unat off + unat len \<le> length bs
      \<Longrightarrow> ap_read_range P i r w =
          Some (Inr \<lparr>abc_offset = off, abc_bytes = take (unat len) (drop (unat off) bs),
                     abc_total_length = word_of_nat (length bs)\<rparr>, w)"
begin

lemma step_serves:
  assumes "ok w" "content w i = Some bs" "u64_len bs = Some full" "off < full"
  shows "\<exists>nxt. read_step P i full off w = Some (Inr (take (unat nxt - unat off) (drop (unat off) bs), nxt), w)
     \<and> off < nxt \<and> nxt \<le> full"
proof -
  define len where "len = min (full - off) READ_CHUNK_SIZE"
  have full: "unat full = length bs" using assms(3) by (simp add: u64_len_Some)
  have diff: "unat (full - off) = unat full - unat off"
    using assms(4) by (simp add: unat_sub)
  have len: "0 < unat len" "unat off + unat len \<le> length bs"
    using assms(4) full diff
    by (auto simp: len_def min_def READ_CHUNK_SIZE_def word_less_nat_alt word_le_nat_alt)
  have small: "unat off + unat len < 2 ^ 64"
    using len(2) full unsigned_less [of full, where ?'a = nat] by simp
  define nxt where "nxt = off + len"
  have nxt: "unat nxt = unat off + unat len" using small by (simp add: nxt_def unat_word_ariths)
  have r: "AssetByteRange_new off len = Inr \<lparr>abr_offset = off, abr_length = len\<rparr>"
    using small len(1) by (auto simp: AssetByteRange_new_def checked_add_def)
  define c where "c = \<lparr>abc_offset = off, abc_bytes = take (unat len) (drop (unat off) bs),
                     abc_total_length = full\<rparr>"
  have read: "ap_read_range P i \<lparr>abr_offset = off, abr_length = len\<rparr> w = Some (Inr c, w)"
    using served [OF assms(1,2) r len(2)] by (simp add: c_def full [symmetric])
  have clen: "u64_len (abc_bytes c) = Some len" using len by (simp add: c_def u64_len_Some)
  have c: "abc_offset c = off" "abc_total_length c = full"
    "abc_bytes c = take (unat nxt - unat off) (drop (unat off) bs)"
    by (simp_all add: c_def nxt)
  have "next_offset c = Some nxt" unfolding next_offset_def clen c(1) by (simp add: checked_add_Some_iff nxt)
  moreover have bounds: "off < nxt" "nxt \<le> full" using nxt len full
    by (auto simp: word_less_nat_alt word_le_nat_alt)
  ultimately have "read_step P i full off w = Some (Inr (abc_bytes c, nxt), w)"
    by (auto simp: read_step_def Let_def len_def [symmetric] r read clen c(1,2))
  then show ?thesis using bounds c(3) by auto
qed

lemma loop_serves:
  assumes "ok w" "content w i = Some bs" "u64_len bs = Some full"
  shows "off \<le> full \<Longrightarrow> read_loop P i full off (take (unat off) bs) w = Some (Inr bs, w)"
proof (induction "unat full - unat off" arbitrary: off rule: less_induct)
  case less
  have full: "unat full = length bs" using assms(3) by (simp add: u64_len_Some)
  show ?case
  proof (cases "off < full")
    case False
    then have "off = full" using less.prems by simp
    then show ?thesis using full by (simp add: read_loop.simps)
  next
    case True
    then obtain nxt where st: "off < nxt" "nxt \<le> full"
      "read_step P i full off w = Some (Inr (take (unat nxt - unat off) (drop (unat off) bs), nxt), w)"
      using step_serves [OF assms True] by auto
    have "take (unat off) bs @ take (unat nxt - unat off) (drop (unat off) bs) = take (unat nxt) bs"
      using st(1) by (simp add: take_add [symmetric] word_less_nat_alt)
    moreover have "unat full - unat nxt < unat full - unat off"
      using st True by (auto simp: word_less_nat_alt word_le_nat_alt)
    ultimately show ?thesis using less.hyps [of nxt] st True
      by (subst read_loop.simps) simp
  qed
qed

lemma reads_back:
  assumes "ok w" "content w i = Some bs"
  shows "read_asset_fully P i max_bytes w =
    Some (if length bs > unat max_bytes then Inl (AssetTooLarge i (word_of_nat (length bs)) max_bytes)
          else Inr bs, w)"
proof -
  obtain d where d: "ap_get_asset P i w = (Inr (Some d), w)" "u64_len bs = Some (sad_byte_length d)"
    using described [OF assms] by auto
  have n: "unat (sad_byte_length d) = length bs" using d(2) by (simp add: u64_len_Some)
  have "read_loop P i (sad_byte_length d) 0 [] w = Some (Inr bs, w)"
    using loop_serves [OF assms d(2), of 0] by simp
  moreover have "word_of_nat (length bs) = sad_byte_length d" unfolding n [symmetric] by simp
  ultimately show ?thesis
    using d n by (simp add: read_asset_fully_def Let_def word_less_nat_alt)
qed

end


text \<open>Inside the bounds of a stored asset a range read returns exactly the bytes asked for.\<close>

lemma read_range_serves:
  assumes "m i = Some e" "u64_len (mar_bytes e) = Some (sad_byte_length (mar_descriptor e))"
    "AssetByteRange_new off len = Inr r" "unat off + unat len \<le> length (mar_bytes e)"
  shows "read_range m i r =
    Some (Inr \<lparr>abc_offset = off, abc_bytes = take (unat len) (drop (unat off) (mar_bytes e)),
               abc_total_length = sad_byte_length (mar_descriptor e)\<rparr>)"
proof -
  define full where "full = sad_byte_length (mar_descriptor e)"
  have full: "unat full = length (mar_bytes e)" using assms(2) by (simp add: u64_len_Some full_def)
  have r: "r = \<lparr>abr_offset = off, abr_length = len\<rparr>" and pos: "len \<noteq> 0"
    using assms(3) by (auto simp: AssetByteRange_new_def result_simps split: if_splits)
  have len: "0 < unat len" using pos by (simp add: unat_gt_0)
  obtain nxt where nxt: "checked_add off len = Some nxt"
    using assms(3) by (auto simp: AssetByteRange_new_def result_simps split: if_splits)
  have unxt: "unat nxt = unat off + unat len" using nxt by (rule checked_add_unat)
  have b: "off < full" "nxt \<le> full"
    using len assms(4) full unxt by (auto simp: word_less_nat_alt word_le_nat_alt)
  define bs where "bs = take (unat len) (drop (unat off) (mar_bytes e))"
  have "bytes_slice (mar_bytes e) (unat off) (unat (min nxt full)) = Some bs"
    using b assms(4) unxt by (simp add: bytes_slice_def min_def bs_def)
  moreover have len_bs: "u64_len bs = Some len" using assms(4) by (simp add: u64_len_Some bs_def)
  then have "bs \<noteq> []" using len by (auto simp: u64_len_Some)
  then have "AssetByteChunk_new off bs full = Inr \<lparr>abc_offset = off, abc_bytes = bs, abc_total_length = full\<rparr>"
    using b nxt len_bs by (auto simp: AssetByteChunk_new_def)
  ultimately show ?thesis
    using assms(1) b nxt
    by (auto simp: read_range_def Let_def full_def [symmetric] r end_offset_def bs_def [symmetric])
qed

interpretation memory_reader: range_reader memory_asset_ports "store_ok digest" "\<lambda>m i. map_option mar_bytes (m i)"
proof (unfold_locales, goal_cases)
  case (1 m i bs)
  then show ?case by (auto simp: memory_asset_ports_def get_asset_def store_ok_def entry_ok_def)
next
  case (2 m i bs off len r)
  then obtain e where e: "m i = Some e" "bs = mar_bytes e" by auto
  then have l: "u64_len (mar_bytes e) = Some (sad_byte_length (mar_descriptor e))"
    using 2(1) by (auto simp: store_ok_def entry_ok_def)
  then have "word_of_nat (length bs) = sad_byte_length (mar_descriptor e)"
    by (simp add: u64_len_def e split: if_splits)
  then show ?case using read_range_serves [of m i e off len r] 2(3,4) e l
    by (simp add: memory_asset_ports_def)
qed

text \<open>What an accepted insertion leaves in the store for good.\<close>

lemma accepted_asset:
  assumes "insert_verified digest d bs (insert_all digest before Map.empty) = (Inr oc, m)"
  shows "store_ok digest (insert_all digest later m)"
    "insert_all digest later m (sad_asset_id d) = Some \<lparr>mar_descriptor = d, mar_bytes = bs\<rparr>"
    "unat (sad_byte_length d) = length bs"
proof -
  define e where "e = \<lparr>mar_descriptor = d, mar_bytes = bs\<rparr>"
  have m: "m = snd (insert_verified digest d bs (insert_all digest before Map.empty))" using assms by simp
  then have ok: "store_ok digest m" by (simp add: insert_verified_ok insert_all_ok)
  then show "store_ok digest (insert_all digest later m)" by (rule insert_all_ok)
  have at: "m (sad_asset_id d) = Some e" using insert_verified_Inr [OF assms] by (simp add: e_def)
  then have "entry_ok digest (sad_asset_id d) e" using ok by (simp add: store_ok_def)
  then show "unat (sad_byte_length d) = length bs" by (simp add: entry_ok_def e_def u64_len_Some)
  show "insert_all digest later m (sad_asset_id d) = Some \<lparr>mar_descriptor = d, mar_bytes = bs\<rparr>"
    using insert_all_keeps [of m digest later] at by (force simp: map_le_def dom_def e_def)
qed

lemma accepted_asset_reads:
  assumes "insert_verified digest d bs (insert_all digest before Map.empty) = (Inr oc, m)"
  shows "read_asset_fully memory_asset_ports (sad_asset_id d) max_bytes (insert_all digest later m) =
    Some (if sad_byte_length d > max_bytes
          then Inl (AssetTooLarge (sad_asset_id d) (sad_byte_length d) max_bytes)
          else Inr bs, insert_all digest later m)"
proof -
  have n: "word_of_nat (length bs) = sad_byte_length d" unfolding accepted_asset(3) [OF assms, symmetric] by simp
  show ?thesis
    using memory_reader.reads_back [OF accepted_asset(1) [OF assms, of later], of "sad_asset_id d" bs max_bytes]
      accepted_asset(2) [OF assms, of later] accepted_asset(3) [OF assms] n
    by (simp add: word_less_nat_alt)
qed

text \<open>C16. An asset the in-memory store accepted is read back byte for byte. After any history of insertion
  attempts, an accepted insertion, and any further insertion attempts - of the same or other assets, with the
  same or different content - reading the asset in full returns exactly the inserted bytes, without a panic,
  or reports that it is too large if it is longer than the limit of the caller.\<close>

theorem stored_asset_reads_back:
  assumes "insert_verified digest d bs (insert_all digest before Map.empty) = (Inr oc, m)"
  shows "read_asset_fully memory_asset_ports (sad_asset_id d) max_bytes (insert_all digest later m) =
    Some (if sad_byte_length d > max_bytes
          then Inl (AssetTooLarge (sad_asset_id d) (sad_byte_length d) max_bytes)
          else Inr bs, insert_all digest later m)"
  by (rule accepted_asset_reads [OF assms])

text \<open>Reading from the empty history, with the digest of 32 zero bytes standing for SHA-256.\<close>

definition zero_hash :: ContentHash where
  "zero_hash = ContentHash (replicate 64 CHR ''0'')"

definition small_asset :: SourceAssetDescriptor where
  "small_asset = \<lparr>sad_asset_id = AssetId (EntityId 7), sad_media_type = ''application/pdf'', sad_byte_length = 3,
     sad_content_hash = zero_hash, sad_original_filename = None\<rparr>"

lemma zero_sha256: "sha256 (\<lambda>_. replicate 32 0) bs = zero_hash"
  by (simp add: sha256_def ContentHash_from_bytes_def zero_hash_def hex_byte_def HEX_def numeral_eq_Suc)

lemma insert_small_asset:
  "insert_verified (\<lambda>_. replicate 32 0) small_asset [1, 2, 3] (insert_all (\<lambda>_. replicate 32 0) [] Map.empty) =
    (Inr Inserted, Map.empty(AssetId (EntityId 7) \<mapsto> \<lparr>mar_descriptor = small_asset, mar_bytes = [1, 2, 3]\<rparr>))"
  by (simp add: insert_verified_def insert_all_def small_asset_def u64_len_def zero_sha256)

theorem stored_asset_reads_back_witness:
  "read_asset_fully memory_asset_ports (AssetId (EntityId 7)) 3
     (insert_all (\<lambda>_. replicate 32 0) [(small_asset, [9, 9, 9])]
       (Map.empty(AssetId (EntityId 7) \<mapsto> \<lparr>mar_descriptor = small_asset, mar_bytes = [1, 2, 3]\<rparr>))) =
   Some (Inr [1, 2, 3],
     insert_all (\<lambda>_. replicate 32 0) [(small_asset, [9, 9, 9])]
       (Map.empty(AssetId (EntityId 7) \<mapsto> \<lparr>mar_descriptor = small_asset, mar_bytes = [1, 2, 3]\<rparr>)))"
  using stored_asset_reads_back [OF insert_small_asset, of 3] by (simp add: small_asset_def)


section \<open>Hashes identify digests\<close>

lemma HEX_digits: "set HEX = set ''0123456789abcdef''"
  by (simp add: HEX_def)

lemma HEX_nth_hexdigit: "n < 16 \<Longrightarrow> is_ascii_hexdigit (HEX ! n) \<and> to_ascii_lowercase (HEX ! n) = HEX ! n"
proof -
  assume n: "n < 16"
  have all: "\<forall>c \<in> set HEX. is_ascii_hexdigit c \<and> to_ascii_lowercase c = c"
    by (simp add: HEX_def) (simp add: is_ascii_hexdigit_def to_ascii_lowercase_def)
  have "HEX ! n \<in> set HEX" using n by (intro nth_mem) (simp add: HEX_def)
  then show ?thesis using all by blast
qed

lemma HEX_nth_inj: "a < 16 \<Longrightarrow> b < 16 \<Longrightarrow> HEX ! a = HEX ! b \<Longrightarrow> a = b"
proof -
  have "distinct HEX" by (simp add: HEX_def)
  moreover assume "a < 16" "b < 16" "HEX ! a = HEX ! b"
  ultimately show "a = b" by (simp add: nth_eq_iff_index_eq HEX_def)
qed

lemma nibbles: "unat (drop_bit 4 (b :: u8)) < 16" "unat (and b 0x0F) < 16"
  "unat b = 16 * unat (drop_bit 4 b) + unat (and b 0x0F)"
proof -
  have b8: "unat b < 256" using unsigned_less [of b, where ?'a = nat] by simp
  have m: "(0x0F :: u8) = mask 4" by (simp add: mask_eq_exp_minus_1)
  have lo: "unat (and b 0x0F) = unat b mod 16"
    unfolding m take_bit_eq_mask [symmetric] unsigned_take_bit_eq by (simp add: take_bit_eq_mod)
  have hi: "unat (drop_bit 4 b) = unat b div 16"
    using b8 unfolding unsigned_drop_bit_eq by (simp add: drop_bit_eq_div take_bit_nat_eq_self)
  show "unat (drop_bit 4 b) < 16" using b8 unfolding hi by (simp add: div_less_iff_less_mult)
  show "unat (and b 0x0F) < 16" unfolding lo by simp
  show "unat b = 16 * unat (drop_bit 4 b) + unat (and b 0x0F)" unfolding lo hi by simp
qed


lemma hex_byte_inject: "hex_byte a = hex_byte b \<Longrightarrow> a = b"
proof -
  assume "hex_byte a = hex_byte b"
  then have "unat (drop_bit 4 a) = unat (drop_bit 4 b)" "unat (and a 0x0F) = unat (and b 0x0F)"
    using HEX_nth_inj [OF nibbles(1) [of a] nibbles(1) [of b]] HEX_nth_inj [OF nibbles(2) [of a] nibbles(2) [of b]]
    by (simp_all add: hex_byte_def)
  then have "unat a = unat b" using nibbles(3) [of a] nibbles(3) [of b] by simp
  then show "a = b" by (simp add: word_unat_eq_iff)
qed

lemma hex_bytes_inject:
  "concat (map hex_byte as) = concat (map hex_byte bs) \<Longrightarrow> as = bs"
proof (induction as arbitrary: bs)
  case Nil
  then show ?case by (cases bs) (auto simp: hex_byte_def)
next
  case (Cons a as)
  then obtain b bs' where bs: "bs = b # bs'" by (cases bs) (auto simp: hex_byte_def)
  have l: "length (hex_byte a) = length (hex_byte b)" by (simp add: hex_byte_def)
  from Cons.prems have "hex_byte a @ concat (map hex_byte as) = hex_byte b @ concat (map hex_byte bs')"
    by (simp add: bs)
  then have "hex_byte a = hex_byte b" "concat (map hex_byte as) = concat (map hex_byte bs')"
    using l by simp_all
  then show ?case using Cons.IH [of bs'] hex_byte_inject by (simp add: bs)
qed

lemma hash_digits_eq_Inr: "hash_digits s = Inr ds \<longleftrightarrow> list_all is_ascii_hexdigit s \<and> ds = map to_ascii_lowercase s"
  by (induction s arbitrary: ds) (auto simp: result_simps)

lemma char_of_nat_le: "c \<le> d \<longleftrightarrow> (of_char c :: nat) \<le> of_char d"
  by (simp add: less_eq_char_def)

lemma of_char_lowercase:
  "(of_char (to_ascii_lowercase c) :: nat) = (if 65 \<le> (of_char c :: nat) \<and> of_char c \<le> (90 :: nat) then of_char c + 32 else of_char c)"
  by (simp add: to_ascii_lowercase_def char_of_nat_le of_char_of)

lemma hexdigit_lowercase [simp]: "is_ascii_hexdigit (to_ascii_lowercase c) = is_ascii_hexdigit c"
  by (simp add: is_ascii_hexdigit_def char_of_nat_le of_char_lowercase)

lemma hex_bytes_digits:
  "list_all is_ascii_hexdigit (concat (map hex_byte bs))"
  "map to_ascii_lowercase (concat (map hex_byte bs)) = concat (map hex_byte bs)"
  by (induction bs) (simp_all add: hex_byte_def HEX_nth_hexdigit nibbles(1,2))

lemma hexdigits_of_lowercase: "list_all is_ascii_hexdigit (map to_ascii_lowercase s) = list_all is_ascii_hexdigit s"
  by (simp add: list_all_iff)

lemma length_hex_bytes: "length (concat (map hex_byte bs)) = 2 * length bs"
  by (induction bs) (simp_all add: hex_byte_def)

text \<open>C38. A content hash stands for exactly one digest and survives its textual form: the hash of 32 digest
  bytes is what the parser returns for its text in any mixture of lower and upper case and for no other
  text, and two different digests never have the same hash.\<close>

theorem content_hash_identifies_digest:
  assumes "length bs = 32"
  shows "(ContentHash_parse s = Inr (ContentHash_from_bytes bs)
      \<longleftrightarrow> map to_ascii_lowercase s = hash_str (ContentHash_from_bytes bs))
    \<and> (ContentHash_from_bytes bs' = ContentHash_from_bytes bs \<longleftrightarrow> bs' = bs)"
proof -
  let ?h = "concat (map hex_byte bs)"
  have "map to_ascii_lowercase s = ?h \<Longrightarrow> length s = 64 \<and> list_all is_ascii_hexdigit s"
    using assms length_hex_bytes [of bs] hex_bytes_digits(1) [of bs] hexdigits_of_lowercase [of s]
    by (metis (no_types) length_map mult_2 numeral_Bit0)
  then show ?thesis using hex_bytes_inject [of bs' bs]
    by (auto simp: ContentHash_parse_def ContentHash_from_bytes_def hash_digits_eq_Inr result_simps)
qed

theorem content_hash_identifies_digest_witness:
  "ContentHash_parse (replicate 64 CHR ''A'') = Inr (ContentHash_from_bytes (replicate 32 0xAA))
    \<and> ContentHash_from_bytes (replicate 32 0) \<noteq> ContentHash_from_bytes (replicate 32 0xAA)"
proof -
  have l: "length (replicate 32 (0xAA :: u8)) = 32" by simp
  have h: "hex_byte 0xAA = ''aa''" by (simp add: hex_byte_def HEX_def)
  have c: "to_ascii_lowercase CHR ''A'' = CHR ''a''"
    using of_char_lowercase [of "CHR ''A''"] by (simp add: of_char_eq_iff [of "to_ascii_lowercase CHR ''A''" "CHR ''a''", where ?'a = nat, symmetric] del: of_char_eq_iff)
  have "map to_ascii_lowercase (replicate 64 CHR ''A'') = hash_str (ContentHash_from_bytes (replicate 32 0xAA))"
    by (simp add: ContentHash_from_bytes_def h c numeral_eq_Suc)
  then show ?thesis
    using content_hash_identifies_digest [OF l, of "replicate 64 CHR ''A''" "replicate 32 0"] by simp
qed

end
