(* ===== verification/Document_Model.thy ===== *)
theory Document_Model
  imports Asset_Model Canvas_Model
begin

text \<open>
  \<open>orbitrelay-document\<close>: page geometry, page rotation and document descriptors with their validation.
  Derived equality of floating-point fields is IEEE equality and written out (\<open>geometry_eq\<close>, \<open>page_eq\<close>,
  \<open>document_eq\<close>); it coincides with HOL equality on the geometries the constructor accepts.
\<close>

section \<open>Document values\<close>

type_synonym u32 = "32 word"

definition u32_of :: "nat \<Rightarrow> u32 option" where
  "u32_of n = (if n < 2 ^ 32 then Some (word_of_nat n) else None)"

datatype DocumentId = DocumentId EntityId
datatype PageId = PageId EntityId

datatype DocumentType = Pdf

datatype DocumentError =
    InvalidTitle
  | InvalidPageGeometry string
  | InvalidPageRotation u16
  | EmptyPages
  | DuplicatePageId PageId
  | DuplicatePageIndex u32
  | NonContiguousPageIndex u32 u32
  | DuplicateCanvasId CanvasId
  | InvalidDescriptor string

datatype PageRotation = Deg0 | Deg90 | Deg180 | Deg270

definition from_degrees :: "u16 \<Rightarrow> (DocumentError, PageRotation) result" where
  "from_degrees d =
     (if d = 0 then Inr Deg0
      else if d = 90 then Inr Deg90
      else if d = 180 then Inr Deg180
      else if d = 270 then Inr Deg270
      else Inl (InvalidPageRotation d))"

primrec degrees :: "PageRotation \<Rightarrow> u16" where
  "degrees Deg0 = 0"
| "degrees Deg90 = 90"
| "degrees Deg180 = 180"
| "degrees Deg270 = 270"

record PageDisplayGeometry =
  pg_width :: f64
  pg_height :: f64
  pg_rotation :: PageRotation

definition PageDisplayGeometry_new :: "f64 \<Rightarrow> f64 \<Rightarrow> PageRotation \<Rightarrow> (DocumentError, PageDisplayGeometry) result" where
  "PageDisplayGeometry_new w h r =
     (if \<not> f64_is_finite w \<or> f64_le w 0 then Inl (InvalidPageGeometry ''width'')
      else if \<not> f64_is_finite h \<or> f64_le h 0 then Inl (InvalidPageGeometry ''height'')
      else Inr \<lparr>pg_width = w, pg_height = h, pg_rotation = r\<rparr>)"

definition geometry_eq :: "PageDisplayGeometry \<Rightarrow> PageDisplayGeometry \<Rightarrow> bool" where
  "geometry_eq g h \<longleftrightarrow>
     f64_eq (pg_width g) (pg_width h) \<and> f64_eq (pg_height g) (pg_height h) \<and> pg_rotation g = pg_rotation h"

record DocumentPageDescriptor =
  dpd_page_id :: PageId
  dpd_page_index :: u32
  dpd_display_geometry :: PageDisplayGeometry
  dpd_overlay_canvas_id :: CanvasId

definition page_eq :: "DocumentPageDescriptor \<Rightarrow> DocumentPageDescriptor \<Rightarrow> bool" where
  "page_eq p q \<longleftrightarrow>
     dpd_page_id p = dpd_page_id q \<and> dpd_page_index p = dpd_page_index q
     \<and> geometry_eq (dpd_display_geometry p) (dpd_display_geometry q)
     \<and> dpd_overlay_canvas_id p = dpd_overlay_canvas_id q"

record DocumentDescriptor =
  dd_document_id :: DocumentId
  dd_session_id :: SessionId
  dd_document_type :: DocumentType
  dd_source_asset_id :: AssetId
  dd_title :: string
  dd_pages :: "DocumentPageDescriptor list"

definition document_eq :: "DocumentDescriptor \<Rightarrow> DocumentDescriptor \<Rightarrow> bool" where
  "document_eq d e \<longleftrightarrow>
     dd_document_id d = dd_document_id e \<and> dd_session_id d = dd_session_id e
     \<and> dd_document_type d = dd_document_type e \<and> dd_source_asset_id d = dd_source_asset_id e
     \<and> dd_title d = dd_title e \<and> list_all2 page_eq (dd_pages d) (dd_pages e)"

text \<open>The loop over the pages, with the three sets of values already seen.\<close>

fun check_pages ::
  "nat \<Rightarrow> PageId set \<Rightarrow> u32 set \<Rightarrow> CanvasId set \<Rightarrow> DocumentPageDescriptor list \<Rightarrow> (DocumentError, unit) result" where
  "check_pages position page_ids page_indexes canvas_ids [] = Inr ()"
| "check_pages position page_ids page_indexes canvas_ids (page # pages) =
     rbind (ok_or (u32_of position) (InvalidDescriptor ''page vector is too large for a u32 page index''))
       (\<lambda>expected_index.
     if dpd_page_id page \<in> page_ids then Inl (DuplicatePageId (dpd_page_id page))
     else if dpd_page_index page \<in> page_indexes then Inl (DuplicatePageIndex (dpd_page_index page))
     else if dpd_page_index page \<noteq> expected_index
     then Inl (NonContiguousPageIndex expected_index (dpd_page_index page))
     else if dpd_overlay_canvas_id page \<in> canvas_ids then Inl (DuplicateCanvasId (dpd_overlay_canvas_id page))
     else check_pages (Suc position) (insert (dpd_page_id page) page_ids)
            (insert (dpd_page_index page) page_indexes) (insert (dpd_overlay_canvas_id page) canvas_ids) pages)"

definition DocumentDescriptor_new ::
  "DocumentId \<Rightarrow> SessionId \<Rightarrow> DocumentType \<Rightarrow> AssetId \<Rightarrow> string \<Rightarrow> DocumentPageDescriptor list
     \<Rightarrow> (DocumentError, DocumentDescriptor) result" where
  "DocumentDescriptor_new i s ty a title pages =
     (if blank title then Inl InvalidTitle
      else if pages = [] then Inl EmptyPages
      else rbind (check_pages 0 {} {} {} pages) (\<lambda>_.
           Inr \<lparr>dd_document_id = i, dd_session_id = s, dd_document_type = ty, dd_source_asset_id = a,
                dd_title = title, dd_pages = pages\<rparr>))"


section \<open>What a descriptor guarantees\<close>

lemma u32_of_Some: "u32_of n = Some w \<longleftrightarrow> unat w = n"
proof
  assume "u32_of n = Some w"
  then show "unat w = n"
    by (auto simp: u32_of_def unsigned_of_nat take_bit_nat_eq_self split: if_splits)
next
  assume n: "unat w = n"
  then have "n < 2 ^ 32" using unsigned_less [of w, where ?'a = nat] by simp
  moreover have "word_of_nat n = w" unfolding n [symmetric] by simp
  ultimately show "u32_of n = Some w" by (simp add: u32_of_def)
qed

lemma check_pages_Inr:
  "check_pages n I X C pages = Inr () \<longleftrightarrow>
     map (\<lambda>p. unat (dpd_page_index p)) pages = [n..<n + length pages]
     \<and> distinct (map dpd_page_id pages) \<and> set (map dpd_page_id pages) \<inter> I = {}
     \<and> set (map dpd_page_index pages) \<inter> X = {}
     \<and> distinct (map dpd_overlay_canvas_id pages) \<and> set (map dpd_overlay_canvas_id pages) \<inter> C = {}"
proof (induction pages arbitrary: n I X C)
  case Nil
  then show ?case by simp
next
  case (Cons p pages)
  have upt: "[n..<n + length (p # pages)] = n # [Suc n..<Suc n + length pages]"
    by (subst upt_conv_Cons) (auto simp del: upt_Suc)
  have fresh: "dpd_page_index p \<notin> set (map dpd_page_index pages)"
    if "map (\<lambda>p. unat (dpd_page_index p)) pages = [Suc n..<Suc n + length pages]" "unat (dpd_page_index p) = n"
  proof
    assume "dpd_page_index p \<in> set (map dpd_page_index pages)"
    then have "unat (dpd_page_index p) \<in> set (map (\<lambda>p. unat (dpd_page_index p)) pages)" by auto
    then have "n \<in> {Suc n..<Suc n + length pages}" unfolding that(1) set_upt that(2) .
    then show False by simp
  qed
  show ?case unfolding upt using fresh
    by (auto simp: Cons.IH result_simps u32_of_Some split: if_splits)
qed


lemma check_pages_fresh:
  "check_pages 0 {} {} {} pages = Inr () \<longleftrightarrow>
     map (\<lambda>p. unat (dpd_page_index p)) pages = [0..<length pages]
     \<and> distinct (map dpd_page_id pages) \<and> distinct (map dpd_overlay_canvas_id pages)"
  by (auto simp: check_pages_Inr)

text \<open>A document descriptor exists exactly for a title that is not blank and a non-empty list of pages
  whose indices are \<open>0, 1, 2, ...\<close> in order and whose page identifiers and overlay canvases are pairwise
  different; it then holds exactly the given values.\<close>

theorem document_descriptor_accepts:
  "DocumentDescriptor_new i s ty a title pages = Inr d \<longleftrightarrow>
     trim title \<noteq> [] \<and> pages \<noteq> []
     \<and> map (\<lambda>p. unat (dpd_page_index p)) pages = [0..<length pages]
     \<and> distinct (map dpd_page_id pages) \<and> distinct (map dpd_overlay_canvas_id pages)
     \<and> d = \<lparr>dd_document_id = i, dd_session_id = s, dd_document_type = ty, dd_source_asset_id = a,
            dd_title = title, dd_pages = pages\<rparr>"
  by (auto simp: DocumentDescriptor_new_def blank_def result_simps check_pages_fresh)

text \<open>Equality of valid geometries is exact: a positive finite number is determined by its order key.\<close>

definition geometry_ok :: "PageDisplayGeometry \<Rightarrow> bool" where
  "geometry_ok g \<longleftrightarrow> f64_is_finite (pg_width g) \<and> f64_lt 0 (pg_width g)
     \<and> f64_is_finite (pg_height g) \<and> f64_lt 0 (pg_height g)"

lemma geometry_new_Inr:
  "PageDisplayGeometry_new w h r = Inr g \<longleftrightarrow>
     g = \<lparr>pg_width = w, pg_height = h, pg_rotation = r\<rparr> \<and> geometry_ok g"
  using f64_not_lt [of 0 w] f64_not_lt [of 0 h]
  by (auto simp: PageDisplayGeometry_new_def geometry_ok_def)

lemma f64_key_pos_inject:
  assumes "f64_lt 0 a" "f64_lt 0 b" "f64_key a = f64_key b"
  shows "a = b"
  using assms by (auto simp: f64_lt_def f64_key_def word_uint_eq_iff split: if_splits)

lemma geometry_eq_exact: "geometry_ok g \<Longrightarrow> geometry_ok h \<Longrightarrow> geometry_eq g h \<longleftrightarrow> g = h"
  by (cases g; cases h) (auto simp: geometry_eq_def geometry_ok_def f64_eq_def intro: f64_key_pos_inject)

definition document_ok :: "DocumentDescriptor \<Rightarrow> bool" where
  "document_ok d \<longleftrightarrow>
     trim (dd_title d) \<noteq> [] \<and> dd_pages d \<noteq> []
     \<and> map (\<lambda>p. unat (dpd_page_index p)) (dd_pages d) = [0..<length (dd_pages d)]
     \<and> distinct (map dpd_page_id (dd_pages d)) \<and> distinct (map dpd_overlay_canvas_id (dd_pages d))
     \<and> (\<forall>p \<in> set (dd_pages d). geometry_ok (dpd_display_geometry p))"

lemma page_eq_exact:
  "geometry_ok (dpd_display_geometry p) \<Longrightarrow> geometry_ok (dpd_display_geometry q) \<Longrightarrow> page_eq p q \<longleftrightarrow> p = q"
  by (cases p; cases q) (auto simp: page_eq_def geometry_eq_exact)

lemma document_eq_exact:
  assumes "document_ok d" "document_ok e"
  shows "document_eq d e \<longleftrightarrow> d = e"
proof -
  have "list_all2 page_eq (dd_pages d) (dd_pages e) \<longleftrightarrow> list_all2 (=) (dd_pages d) (dd_pages e)"
    using assms by (intro list.rel_cong) (auto simp: document_ok_def page_eq_exact)
  then show ?thesis by (cases d; cases e) (auto simp: document_eq_def list.rel_eq)
qed

lemma document_ok_length: "document_ok d \<Longrightarrow> length (dd_pages d) \<le> 2 ^ 32"
proof -
  assume ok: "document_ok d"
  define n where "n = length (dd_pages d)"
  have "set (map (\<lambda>p. unat (dpd_page_index p)) (dd_pages d)) = {0..<n}" and "0 < n"
    using ok by (simp_all add: document_ok_def n_def)
  then have "n - 1 \<in> set (map (\<lambda>p. unat (dpd_page_index p)) (dd_pages d))" by simp
  then obtain p :: DocumentPageDescriptor where "n - 1 = unat (dpd_page_index p)" unfolding set_map by blast
  then show "length (dd_pages d) \<le> 2 ^ 32" using unsigned_less [of "dpd_page_index p", where ?'a = nat]
    by (simp add: n_def)
qed

text \<open>Page rotations are exactly the four quarter turns: reading the degrees of a rotation gives the
  rotation back, and no other number of degrees is accepted.\<close>

lemma rotation_roundtrip:
  "from_degrees d = Inr r \<longleftrightarrow> d = degrees r"
  by (cases r) (auto simp: from_degrees_def)

end
