(* ===== verification/Document_Composition.thy ===== *)
theory Document_Composition
  imports Document_Model
begin

text \<open>
  The composer of \<open>orbitrelay-document-runtime\<close> (\<open>composition.rs\<close>): from a source asset and neutral source
  pages to a document with one overlay canvas per page. The identifiers a composition generates are an
  argument: \<open>ids n\<close> is the \<open>n\<close>-th random identifier of the call, three per page and one for the document.
\<close>

section \<open>Composition\<close>

datatype DocumentCompositionError =
    InvalidInput string
  | InvalidPageSequence u32 u32
  | CanvasDescriptorFailed CanvasError
  | DocumentDescriptorFailed DocumentError
  | CompositionInvariantViolation string

record DocumentSourcePage =
  dsp_page_index :: u32
  dsp_display_geometry :: PageDisplayGeometry

record DocumentComposeInput =
  dci_session_id :: SessionId
  dci_document_type :: DocumentType
  dci_source_asset :: SourceAssetDescriptor
  dci_source_title :: "string option"
  dci_pages :: "DocumentSourcePage list"

primrec check_source_pages :: "nat \<Rightarrow> DocumentSourcePage list \<Rightarrow> (DocumentCompositionError, unit) result" where
  "check_source_pages position [] = Inr ()"
| "check_source_pages position (page # pages) =
     rbind (ok_or (u32_of position) (InvalidInput ''source page count exceeds u32 capacity'')) (\<lambda>expected.
     if dsp_page_index page \<noteq> expected then Inl (InvalidPageSequence expected (dsp_page_index page))
     else check_source_pages (Suc position) pages)"

definition trimmed_title :: "string \<Rightarrow> string option" where
  "trimmed_title s = (if trim s = [] then None else Some (trim s))"

definition DocumentComposeInput_new ::
  "SessionId \<Rightarrow> DocumentType \<Rightarrow> SourceAssetDescriptor \<Rightarrow> string option \<Rightarrow> DocumentSourcePage list
     \<Rightarrow> (DocumentCompositionError, DocumentComposeInput) result" where
  "DocumentComposeInput_new s ty asset title pages =
     (if pages = [] then Inl (InvalidInput ''at least one source page is required'')
      else rbind (check_source_pages 0 pages) (\<lambda>_.
           Inr \<lparr>dci_session_id = s, dci_document_type = ty, dci_source_asset = asset,
                dci_source_title = Option.bind title trimmed_title, dci_pages = pages\<rparr>))"

primrec default_title_for :: "DocumentType \<Rightarrow> string" where
  "default_title_for Pdf = ''Untitled PDF''"

record PageCanvasComposition =
  pcc_page_id :: PageId
  pcc_canvas :: CanvasDescriptor

record DocumentComposition =
  dc_document :: DocumentDescriptor
  dc_source_asset :: SourceAssetDescriptor
  dc_page_canvases :: "PageCanvasComposition list"

primrec validate_page_canvases ::
  "SessionId \<Rightarrow> (DocumentPageDescriptor \<times> PageCanvasComposition) list \<Rightarrow> (DocumentCompositionError, unit) result" where
  "validate_page_canvases s [] = Inr ()"
| "validate_page_canvases s (pc # rest) =
     (let page = fst pc; canvas = pcc_canvas (snd pc) in
      if dpd_page_id page \<noteq> pcc_page_id (snd pc)
      then Inl (CompositionInvariantViolation ''Page identity does not match its Canvas composition entry'')
      else if dpd_overlay_canvas_id page \<noteq> cd_canvas_id canvas
      then Inl (CompositionInvariantViolation ''Page overlay Canvas does not match Canvas descriptor'')
      else if s \<noteq> cd_session_id canvas
      then Inl (CompositionInvariantViolation ''Canvas belongs to a different Session'')
      else if \<not> f64_eq (pg_width (dpd_display_geometry page)) (sp_width (cd_space canvas))
           \<or> \<not> f64_eq (pg_height (dpd_display_geometry page)) (sp_height (cd_space canvas))
      then Inl (CompositionInvariantViolation ''Page geometry does not match Canvas space'')
      else if \<not> contains_layer canvas (cd_default_layer_id canvas)
      then Inl (CompositionInvariantViolation ''Canvas default layer is not in its layer set'')
      else validate_page_canvases s rest)"

definition DocumentComposition_validate :: "DocumentComposition \<Rightarrow> (DocumentCompositionError, unit) result" where
  "DocumentComposition_validate c =
     (if dd_source_asset_id (dc_document c) \<noteq> sad_asset_id (dc_source_asset c)
      then Inl (CompositionInvariantViolation ''Document source Asset does not match composition metadata'')
      else if length (dd_pages (dc_document c)) \<noteq> length (dc_page_canvases c)
      then Inl (CompositionInvariantViolation ''Document page count does not match Canvas count'')
      else validate_page_canvases (dd_session_id (dc_document c))
             (zip (dd_pages (dc_document c)) (dc_page_canvases c)))"

definition DocumentComposition_new ::
  "DocumentDescriptor \<Rightarrow> SourceAssetDescriptor \<Rightarrow> PageCanvasComposition list
     \<Rightarrow> (DocumentCompositionError, DocumentComposition) result" where
  "DocumentComposition_new d a pcs =
     (let composition = \<lparr>dc_document = d, dc_source_asset = a, dc_page_canvases = pcs\<rparr> in
      rbind (DocumentComposition_validate composition) (\<lambda>_. Inr composition))"

text \<open>The loop of \<open>compose\<close>: three identifiers per page, from the \<open>n\<close>-th on.\<close>

primrec compose_pages ::
  "(nat \<Rightarrow> EntityId) \<Rightarrow> SessionId \<Rightarrow> nat \<Rightarrow> DocumentSourcePage list
     \<Rightarrow> (DocumentCompositionError, DocumentPageDescriptor list \<times> PageCanvasComposition list) result" where
  "compose_pages ids s n [] = Inr ([], [])"
| "compose_pages ids s n (page # pages) =
     (let page_id = PageId (ids n); canvas_id = CanvasId (ids (n + 1)); layer_id = LayerId (ids (n + 2));
          geometry = dsp_display_geometry page in
      rbind (map_err CanvasDescriptorFailed (CanvasSpace_new (pg_width geometry) (pg_height geometry)))
        (\<lambda>space.
      rbind (map_err CanvasDescriptorFailed (CanvasDescriptor_new canvas_id s space [layer_id] layer_id))
        (\<lambda>canvas.
      rbind (compose_pages ids s (n + 3) pages) (\<lambda>(ps, pcs).
      Inr (\<lparr>dpd_page_id = page_id, dpd_page_index = dsp_page_index page, dpd_display_geometry = geometry,
            dpd_overlay_canvas_id = canvas_id\<rparr> # ps,
           \<lparr>pcc_page_id = page_id, pcc_canvas = canvas\<rparr> # pcs)))))"

definition compose_title :: "DocumentComposeInput \<Rightarrow> string" where
  "compose_title input =
     (case dci_source_title input of
        Some t \<Rightarrow> t
      | None \<Rightarrow>
          (case Option.bind (sad_original_filename (dci_source_asset input)) trimmed_title of
             Some t \<Rightarrow> t
           | None \<Rightarrow> default_title_for (dci_document_type input)))"

definition compose ::
  "(nat \<Rightarrow> EntityId) \<Rightarrow> DocumentComposeInput \<Rightarrow> (DocumentCompositionError, DocumentComposition) result" where
  "compose ids input =
     rbind (compose_pages ids (dci_session_id input) 0 (dci_pages input)) (\<lambda>(ps, pcs).
     rbind (map_err DocumentDescriptorFailed
       (DocumentDescriptor_new (DocumentId (ids (3 * length (dci_pages input)))) (dci_session_id input)
          (dci_document_type input) (sad_asset_id (dci_source_asset input)) (compose_title input) ps))
       (\<lambda>document.
     DocumentComposition_new document (dci_source_asset input) pcs))"


section \<open>What a composition is\<close>

lemma check_source_pages_Inr:
  "check_source_pages n pages = Inr () \<longleftrightarrow> map (\<lambda>p. unat (dsp_page_index p)) pages = [n..<n + length pages]"
proof (induction pages arbitrary: n)
  case Nil
  then show ?case by simp
next
  case (Cons p pages)
  have upt: "[n..<n + length (p # pages)] = n # [Suc n..<Suc n + length pages]"
    by (subst upt_conv_Cons) (auto simp del: upt_Suc)
  show ?case unfolding upt by (auto simp: Cons.IH result_simps u32_of_Some split: if_splits)
qed

lemma compose_input_Inr:
  "DocumentComposeInput_new s ty asset title pages = Inr input \<longleftrightarrow>
     pages \<noteq> [] \<and> map (\<lambda>p. unat (dsp_page_index p)) pages = [0..<length pages]
     \<and> input = \<lparr>dci_session_id = s, dci_document_type = ty, dci_source_asset = asset,
                dci_source_title = Option.bind title trimmed_title, dci_pages = pages\<rparr>"
  by (auto simp: DocumentComposeInput_new_def result_simps check_source_pages_Inr)

text \<open>The canvas of a page: its own identifier, the session of the document, the size of the page and one
  layer, the default one.\<close>

definition page_canvas_ok :: "SessionId \<Rightarrow> DocumentPageDescriptor \<Rightarrow> PageCanvasComposition \<Rightarrow> bool" where
  "page_canvas_ok s p pc \<longleftrightarrow>
     pcc_page_id pc = dpd_page_id p \<and> cd_canvas_id (pcc_canvas pc) = dpd_overlay_canvas_id p
     \<and> cd_session_id (pcc_canvas pc) = s
     \<and> cd_space (pcc_canvas pc) = \<lparr>sp_width = pg_width (dpd_display_geometry p),
                                   sp_height = pg_height (dpd_display_geometry p)\<rparr>
     \<and> cd_layer_ids (pcc_canvas pc) = [cd_default_layer_id (pcc_canvas pc)]"

lemma space_of_geometry:
  "geometry_ok g \<Longrightarrow> CanvasSpace_new (pg_width g) (pg_height g) = Inr \<lparr>sp_width = pg_width g, sp_height = pg_height g\<rparr>"
  using f64_not_lt [of 0 "pg_width g"] f64_not_lt [of 0 "pg_height g"]
  by (auto simp: CanvasSpace_new_def geometry_ok_def)

lemma canvas_of_layer:
  "CanvasDescriptor_new c s sp [l] l = Inr \<lparr>cd_canvas_id = c, cd_session_id = s, cd_space = sp, cd_layer_ids = [l],
     cd_default_layer_id = l\<rparr>"
  by (simp add: CanvasDescriptor_new_def btree_set_of_def insort_insert_key_def)

lemma compose_pages_ok:
  assumes "\<forall>p \<in> set pages. geometry_ok (dsp_display_geometry p)"
  shows "\<exists>ps pcs. compose_pages ids s n pages = Inr (ps, pcs)
    \<and> map dpd_page_index ps = map dsp_page_index pages
    \<and> map dpd_display_geometry ps = map dsp_display_geometry pages
    \<and> map dpd_page_id ps = map (\<lambda>k. PageId (ids (n + 3 * k))) [0..<length pages]
    \<and> map dpd_overlay_canvas_id ps = map (\<lambda>k. CanvasId (ids (n + 3 * k + 1))) [0..<length pages]
    \<and> list_all2 (page_canvas_ok s) ps pcs"
  using assms
proof (induction pages arbitrary: n)
  case Nil
  then show ?case by simp
next
  case (Cons p pages)
  define g where "g = dsp_display_geometry p"
  define pg where "pg = \<lparr>dpd_page_id = PageId (ids n), dpd_page_index = dsp_page_index p,
    dpd_display_geometry = g, dpd_overlay_canvas_id = CanvasId (ids (n + 1))\<rparr>"
  define cv where "cv = \<lparr>pcc_page_id = PageId (ids n), pcc_canvas =
    \<lparr>cd_canvas_id = CanvasId (ids (n + 1)), cd_session_id = s,
     cd_space = \<lparr>sp_width = pg_width g, sp_height = pg_height g\<rparr>,
     cd_layer_ids = [LayerId (ids (n + 2))], cd_default_layer_id = LayerId (ids (n + 2))\<rparr>\<rparr>"
  obtain ps pcs where rest: "compose_pages ids s (n + 3) pages = Inr (ps, pcs)"
    "map dpd_page_index ps = map dsp_page_index pages"
    "map dpd_display_geometry ps = map dsp_display_geometry pages"
    "map dpd_page_id ps = map (\<lambda>k. PageId (ids (n + 3 + 3 * k))) [0..<length pages]"
    "map dpd_overlay_canvas_id ps = map (\<lambda>k. CanvasId (ids (n + 3 + 3 * k + 1))) [0..<length pages]"
    "list_all2 (page_canvas_ok s) ps pcs"
    using Cons.IH [of "n + 3"] Cons.prems by auto
  have "compose_pages ids s n (p # pages) = Inr (pg # ps, cv # pcs)"
    using rest(1) Cons.prems
    by (simp add: Let_def space_of_geometry canvas_of_layer pg_def cv_def g_def)
  moreover have "page_canvas_ok s pg cv" by (simp add: page_canvas_ok_def pg_def cv_def)
  ultimately show ?case using rest(2-6)
    by (intro exI [of _ "pg # ps"] exI [of _ "cv # pcs"])
      (simp add: map_upt_Suc pg_def g_def algebra_simps del: upt_Suc)
qed

lemma validate_page_canvases_ok:
  "list_all2 (page_canvas_ok s) ps pcs \<Longrightarrow> \<forall>p \<in> set ps. geometry_ok (dpd_display_geometry p)
    \<Longrightarrow> validate_page_canvases s (zip ps pcs) = Inr ()"
  by (induction ps pcs rule: list_all2_induct)
    (simp_all add: page_canvas_ok_def geometry_ok_def contains_layer_def Let_def)

text \<open>The title of the document: the title of the source, else the name of the file, else the default; always
  trimmed and never blank.\<close>

lemma trimmed_title_Some: "trimmed_title s = Some t \<longleftrightarrow> t = trim s \<and> t \<noteq> []"
  by (auto simp: trimmed_title_def)

lemma trim_default_title: "trim (default_title_for ty) = default_title_for ty" "default_title_for ty \<noteq> []"
  by (cases ty; simp; rule trim_fixed; simp add: leading_def white_space_def)+

lemma compose_title_trimmed:
  assumes "dci_source_title input = Option.bind title trimmed_title"
  shows "trim (compose_title input) = compose_title input \<and> compose_title input \<noteq> []"
  using assms
  by (auto simp: compose_title_def trimmed_title_Some trim_default_title bind_eq_Some_conv split: option.splits)

lemma compose_document_id:
  "compose ids input = Inr c \<Longrightarrow> dd_document_id (dc_document c) = DocumentId (ids (3 * length (dci_pages input)))"
  by (auto simp: compose_def DocumentDescriptor_new_def DocumentComposition_new_def Let_def result_simps split: if_splits)

lemma compose_document:
  assumes "DocumentComposeInput_new s ty asset title pages = Inr input"
    "list_all (\<lambda>p. geometry_ok (dsp_display_geometry p)) pages"
    "inj_on ids {..3 * length pages}"
  shows "\<exists>c. compose ids input = Inr c
    \<and> document_ok (dc_document c) \<and> dd_session_id (dc_document c) = s \<and> dd_document_type (dc_document c) = ty
    \<and> dd_source_asset_id (dc_document c) = sad_asset_id asset \<and> dc_source_asset c = asset
    \<and> dd_title (dc_document c) = compose_title input \<and> trim (compose_title input) = compose_title input
    \<and> map dpd_display_geometry (dd_pages (dc_document c)) = map dsp_display_geometry pages
    \<and> list_all2 (page_canvas_ok s) (dd_pages (dc_document c)) (dc_page_canvases c)"
proof -
  have input: "pages \<noteq> []" "map (\<lambda>p. unat (dsp_page_index p)) pages = [0..<length pages]"
    "input = \<lparr>dci_session_id = s, dci_document_type = ty, dci_source_asset = asset,
       dci_source_title = Option.bind title trimmed_title, dci_pages = pages\<rparr>"
    using assms(1) by (auto simp: compose_input_Inr)
  have geo: "\<forall>p \<in> set pages. geometry_ok (dsp_display_geometry p)" using assms(2) by (simp add: list_all_iff)
  obtain ps pcs where ps: "compose_pages ids s 0 pages = Inr (ps, pcs)"
    "map dpd_page_index ps = map dsp_page_index pages"
    "map dpd_display_geometry ps = map dsp_display_geometry pages"
    "map dpd_page_id ps = map (\<lambda>k. PageId (ids (3 * k))) [0..<length pages]"
    "map dpd_overlay_canvas_id ps = map (\<lambda>k. CanvasId (ids (3 * k + 1))) [0..<length pages]"
    "list_all2 (page_canvas_ok s) ps pcs"
    using compose_pages_ok [OF geo, of ids s 0] by auto
  define title' where "title' = compose_title input"
  have title: "trim title' = title'" "title' \<noteq> []"
    using compose_title_trimmed [of input title] by (simp_all add: title'_def input(3))
  define d where "d = \<lparr>dd_document_id = DocumentId (ids (3 * length pages)), dd_session_id = s,
    dd_document_type = ty, dd_source_asset_id = sad_asset_id asset, dd_title = title', dd_pages = ps\<rparr>"
  have len: "length ps = length pages" using map_eq_imp_length_eq [OF ps(2)] .
  have idx: "map (\<lambda>p. unat (dpd_page_index p)) ps = [0..<length ps]"
    using arg_cong [OF ps(2), of "map unat"] input(2) len by (simp add: comp_def)
  have inj: "ids i = ids j \<longleftrightarrow> i = j" if "i \<le> 3 * length pages" "j \<le> 3 * length pages" for i j
    using that assms(3) by (auto dest: inj_onD)
  have dist: "distinct (map dpd_page_id ps)" "distinct (map dpd_overlay_canvas_id ps)"
    unfolding ps(4,5) by (auto simp: distinct_map inj inj_on_def)
  have gok: "\<forall>p \<in> set ps. geometry_ok (dpd_display_geometry p)"
    using arg_cong [OF ps(3), of set] geo by (auto simp: image_iff) (metis image_iff)
  have new: "DocumentDescriptor_new (DocumentId (ids (3 * length pages))) s ty (sad_asset_id asset) title' ps = Inr d"
    using title input(1) len idx dist check_pages_fresh [of ps]
    by (auto simp: DocumentDescriptor_new_def blank_def d_def)
  have "compose ids input = Inr \<lparr>dc_document = d, dc_source_asset = asset, dc_page_canvases = pcs\<rparr>"
    using ps(1) new validate_page_canvases_ok [OF ps(6) gok] list_all2_lengthD [OF ps(6)]
    by (simp add: compose_def input(3) title'_def [unfolded input(3), symmetric] DocumentComposition_new_def
        DocumentComposition_validate_def Let_def d_def)
  moreover have "document_ok d" using title idx dist gok input(1) len by (auto simp: document_ok_def d_def)
  ultimately show ?thesis using ps(3,6) title by (simp add: d_def title'_def)
qed


text \<open>Composing a document from a validated input always succeeds when the generated identifiers are
  different and the page geometries were validated. The document belongs to the session and the source asset
  of the input, its title is trimmed and not blank, its pages are the source pages in order, and it satisfies
  every rule of a document descriptor; its canvases correspond one to one to its pages, each with the identifier
  the page refers to, the session of the document, the size of the page and exactly one layer.\<close>

theorem compose_builds_document:
  assumes "DocumentComposeInput_new s ty asset title pages = Inr input"
    "list_all (\<lambda>p. geometry_ok (dsp_display_geometry p)) pages"
    "inj_on ids {..3 * length pages}"
  shows "\<exists>c. compose ids input = Inr c
    \<and> document_ok (dc_document c) \<and> dd_session_id (dc_document c) = s \<and> dd_document_type (dc_document c) = ty
    \<and> dd_source_asset_id (dc_document c) = sad_asset_id asset \<and> dc_source_asset c = asset
    \<and> dd_title (dc_document c) = compose_title input \<and> trim (compose_title input) = compose_title input
    \<and> map dpd_display_geometry (dd_pages (dc_document c)) = map dsp_display_geometry pages
    \<and> list_all2 (page_canvas_ok s) (dd_pages (dc_document c)) (dc_page_canvases c)"
  by (rule compose_document [OF assms])

text \<open>A one-page document of size 1 by 1.\<close>

definition unit_geometry :: PageDisplayGeometry where
  "unit_geometry = \<lparr>pg_width = 0x3FF0000000000000, pg_height = 0x3FF0000000000000, pg_rotation = Deg0\<rparr>"

lemma unit_geometry_ok: "geometry_ok unit_geometry"
  by (simp add: geometry_ok_def unit_geometry_def f64_is_finite_def f64_is_nan_def f64_exponent_def
      f64_lt_def f64_key_def)

definition numbered :: "nat \<Rightarrow> EntityId" where
  "numbered n = EntityId (word_of_nat n)"

lemma numbered_inj: "inj_on numbered {..<2 ^ 128}"
proof (rule inj_onI)
  fix i j assume b: "i \<in> {..<2 ^ 128}" "j \<in> {..<2 ^ 128}" and "numbered i = numbered j"
  then have "unat (word_of_nat i :: 128 word) = unat (word_of_nat j :: 128 word)" by (simp add: numbered_def)
  then show "i = j" using b by (simp add: unsigned_of_nat take_bit_nat_eq_self)
qed

definition small_input :: DocumentComposeInput where
  "small_input = \<lparr>dci_session_id = SessionId (EntityId 1), dci_document_type = Pdf, dci_source_asset = small_asset,
     dci_source_title = None, dci_pages = [\<lparr>dsp_page_index = 0, dsp_display_geometry = unit_geometry\<rparr>]\<rparr>"

theorem compose_builds_document_witness:
  "\<exists>c. compose numbered small_input = Inr c \<and> document_ok (dc_document c)
     \<and> dd_title (dc_document c) = ''Untitled PDF''
     \<and> list_all2 (page_canvas_ok (SessionId (EntityId 1))) (dd_pages (dc_document c)) (dc_page_canvases c)"
proof -
  have "DocumentComposeInput_new (SessionId (EntityId 1)) Pdf small_asset None
      [\<lparr>dsp_page_index = 0, dsp_display_geometry = unit_geometry\<rparr>] = Inr small_input"
    by (simp add: compose_input_Inr small_input_def)
  moreover have "list_all (\<lambda>p. geometry_ok (dsp_display_geometry p))
      [\<lparr>dsp_page_index = 0, dsp_display_geometry = unit_geometry\<rparr>]"
    by (simp add: unit_geometry_ok)
  moreover have "inj_on numbered {..3 * length [\<lparr>dsp_page_index = 0, dsp_display_geometry = unit_geometry\<rparr>]}"
    by (rule inj_on_subset [OF numbered_inj]) auto
  ultimately have "\<exists>c. compose numbered small_input = Inr c \<and> document_ok (dc_document c)
      \<and> dd_title (dc_document c) = compose_title small_input
      \<and> list_all2 (page_canvas_ok (SessionId (EntityId 1))) (dd_pages (dc_document c)) (dc_page_canvases c)"
    using compose_builds_document by blast
  moreover have "compose_title small_input = ''Untitled PDF''"
    by (simp add: compose_title_def small_input_def small_asset_def)
  ultimately show ?thesis by simp
qed

end
