(* ===== verification/Document_Runtime.thy ===== *)
theory Document_Runtime
  imports Document_Composition Canvas_Service
begin

text \<open>
  The catalog and the read model of \<open>orbitrelay-document-runtime\<close> (\<open>catalog.rs\<close>, \<open>read_model.rs\<close>): the in-memory
  document catalog, document summaries and the view of a document assembled from three catalogs. Catalogs of the
  application are ports over a world; a call returns a result and the world it leaves. Locks are held for the
  whole of each catalog operation and recover from poisoning, so that operations are steps on the state;
  exhaustion of memory is not modelled.
\<close>

section \<open>The document catalog\<close>

datatype DocumentCatalogError = DocumentCatalogError string

datatype DocumentReadError =
    DocumentNotFound DocumentId
  | DocumentAssetNotFound AssetId
  | DocumentCanvasNotFound CanvasId
  | DocumentCatalogUnavailable string
  | InconsistentReadModel string
  | PageCountOverflow

record DocumentSummary =
  ds_document_id :: DocumentId
  ds_title :: string
  ds_document_type :: DocumentType
  ds_page_count :: u32
  ds_source_asset_id :: AssetId

definition DocumentSummary_from_document :: "DocumentDescriptor \<Rightarrow> (DocumentReadError, DocumentSummary) result" where
  "DocumentSummary_from_document d =
     rbind (ok_or (u32_of (length (dd_pages d))) PageCountOverflow) (\<lambda>page_count.
     Inr \<lparr>ds_document_id = dd_document_id d, ds_title = dd_title d, ds_document_type = dd_document_type d,
          ds_page_count = page_count, ds_source_asset_id = dd_source_asset_id d\<rparr>)"

datatype DocumentInsertOutcome = DocumentInserted | DocumentExisting | DocumentConflict

record CatalogState =
  documents :: "DocumentId \<rightharpoonup> DocumentDescriptor"
  session_order :: "SessionId \<rightharpoonup> DocumentId list"

definition CatalogState_default :: CatalogState where
  "CatalogState_default = \<lparr>documents = Map.empty, session_order = Map.empty\<rparr>"

definition catalog_insert :: "DocumentDescriptor \<Rightarrow> CatalogState \<Rightarrow> DocumentInsertOutcome \<times> CatalogState" where
  "catalog_insert d c =
     (case documents c (dd_document_id d) of
        Some existing \<Rightarrow> (if document_eq existing d then DocumentExisting else DocumentConflict, c)
      | None \<Rightarrow>
          (DocumentInserted,
           c\<lparr>documents := (documents c)(dd_document_id d \<mapsto> d),
             session_order := (session_order c)(dd_session_id d \<mapsto>
               (case session_order c (dd_session_id d) of None \<Rightarrow> [] | Some ids \<Rightarrow> ids) @ [dd_document_id d])\<rparr>))"

definition catalog_get_document ::
  "CatalogState \<Rightarrow> DocumentId \<Rightarrow> (DocumentCatalogError, DocumentDescriptor option) result" where
  "catalog_get_document c i = Inr (documents c i)"

primrec collect_summaries ::
  "CatalogState \<Rightarrow> DocumentId list \<Rightarrow> (DocumentCatalogError, DocumentSummary list) result" where
  "collect_summaries c [] = Inr []"
| "collect_summaries c (i # is) =
     rbind (ok_or (documents c i) (DocumentCatalogError ''session ordering references a missing Document'')) (\<lambda>d.
     rbind (map_err (\<lambda>_. DocumentCatalogError ''Document page count overflowed'') (DocumentSummary_from_document d))
       (\<lambda>summary.
     rbind (collect_summaries c is) (\<lambda>rest. Inr (summary # rest))))"

definition catalog_list_documents ::
  "CatalogState \<Rightarrow> SessionId \<Rightarrow> (DocumentCatalogError, DocumentSummary list) result" where
  "catalog_list_documents c s =
     (case session_order c s of
        None \<Rightarrow> Inr []
      | Some ids \<Rightarrow> collect_summaries c ids)"


section \<open>The read model\<close>

record PageCanvasView =
  pcv_page_id :: PageId
  pcv_canvas :: CanvasDescriptor

record DocumentView =
  dv_document :: DocumentDescriptor
  dv_source_asset :: SourceAssetDescriptor
  dv_page_canvases :: "PageCanvasView list"

record 'w DocumentReadService =
  rs_get_document :: "DocumentId \<Rightarrow> 'w \<Rightarrow> (DocumentCatalogError, DocumentDescriptor option) result \<times> 'w"
  rs_get_asset :: "AssetId \<Rightarrow> 'w \<Rightarrow> (AssetCatalogError, SourceAssetDescriptor option) result \<times> 'w"
  rs_get_canvas :: "CanvasId \<Rightarrow> 'w \<Rightarrow> (CanvasCatalogError, CanvasDescriptor option) result \<times> 'w"

definition validate_page_canvas ::
  "DocumentDescriptor \<Rightarrow> DocumentPageDescriptor \<Rightarrow> CanvasDescriptor \<Rightarrow> (DocumentReadError, unit) result" where
  "validate_page_canvas d page canvas =
     (if dpd_overlay_canvas_id page \<noteq> cd_canvas_id canvas
      then Inl (InconsistentReadModel ''Canvas identity does not match page overlay reference'')
      else if cd_session_id canvas \<noteq> dd_session_id d
      then Inl (InconsistentReadModel ''Canvas belongs to a different Session'')
      else if \<not> f64_eq (sp_width (cd_space canvas)) (pg_width (dpd_display_geometry page))
           \<or> \<not> f64_eq (sp_height (cd_space canvas)) (pg_height (dpd_display_geometry page))
      then Inl (InconsistentReadModel ''Canvas space does not match page display geometry'')
      else if \<not> contains_layer canvas (cd_default_layer_id canvas)
      then Inl (InconsistentReadModel ''Canvas default layer is not in its layer set'')
      else Inr ())"

primrec view_pages ::
  "'w DocumentReadService \<Rightarrow> DocumentDescriptor \<Rightarrow> DocumentPageDescriptor list \<Rightarrow> 'w
     \<Rightarrow> (DocumentReadError, PageCanvasView list) result \<times> 'w" where
  "view_pages R d [] w = (Inr [], w)"
| "view_pages R d (page # pages) w =
     sbind (smap_err (\<lambda>_. DocumentCatalogUnavailable ''canvas'') (rs_get_canvas R (dpd_overlay_canvas_id page))) (\<lambda>found.
     sbind (slift (ok_or found (DocumentCanvasNotFound (dpd_overlay_canvas_id page)))) (\<lambda>canvas.
     sbind (slift (validate_page_canvas d page canvas)) (\<lambda>_.
     sbind (view_pages R d pages) (\<lambda>rest.
     slift (Inr (\<lparr>pcv_page_id = dpd_page_id page, pcv_canvas = canvas\<rparr> # rest)))))) w"

definition get_document_view ::
  "'w DocumentReadService \<Rightarrow> DocumentId \<Rightarrow> 'w \<Rightarrow> (DocumentReadError, DocumentView) result \<times> 'w" where
  "get_document_view R i =
     sbind (smap_err (\<lambda>_. DocumentCatalogUnavailable ''document'') (rs_get_document R i)) (\<lambda>found.
     sbind (slift (ok_or found (DocumentNotFound i))) (\<lambda>document.
     sbind (smap_err (\<lambda>_. DocumentCatalogUnavailable ''asset'') (rs_get_asset R (dd_source_asset_id document))) (\<lambda>asset.
     sbind (slift (ok_or asset (DocumentAssetNotFound (dd_source_asset_id document)))) (\<lambda>source_asset.
     if sad_asset_id source_asset \<noteq> dd_source_asset_id document
     then slift (Inl (InconsistentReadModel ''Asset catalog returned a different Asset identity''))
     else
       sbind (view_pages R document (dd_pages document)) (\<lambda>page_canvases.
       if length page_canvases \<noteq> length (dd_pages document)
       then slift (Inl (InconsistentReadModel ''Document page count does not match read model Canvas count''))
       else slift (Inr \<lparr>dv_document = document, dv_source_asset = source_asset,
                        dv_page_canvases = page_canvases\<rparr>))))))"


section \<open>The catalog is a log of documents\<close>

text \<open>The documents that were accepted, in the order of their insertion.\<close>

definition log_insert :: "DocumentDescriptor \<Rightarrow> DocumentDescriptor list \<Rightarrow> DocumentDescriptor list" where
  "log_insert d ds = (if dd_document_id d \<in> dd_document_id ` set ds then ds else ds @ [d])"

locale document_catalog =
  fixes ok :: "'c \<Rightarrow> bool"
    and ins :: "DocumentDescriptor \<Rightarrow> 'c \<Rightarrow> 'c"
    and look :: "'c \<Rightarrow> DocumentId \<Rightarrow> DocumentDescriptor option"
    and listing :: "'c \<Rightarrow> SessionId \<Rightarrow> DocumentDescriptor list"
  assumes ok_ins: "ok c \<Longrightarrow> ok (ins d c)"
    and look_ins: "ok c \<Longrightarrow> look (ins d c) i =
      (case look c i of Some e \<Rightarrow> Some e | None \<Rightarrow> if i = dd_document_id d then Some d else None)"
    and listing_ins: "ok c \<Longrightarrow> listing (ins d c) s =
      listing c s @ (if look c (dd_document_id d) = None \<and> dd_session_id d = s then [d] else [])"
begin

text \<open>A catalog with these laws behaves like the log of its documents.\<close>

definition represents :: "'c \<Rightarrow> DocumentDescriptor list \<Rightarrow> bool" where
  "represents c ds \<longleftrightarrow> ok c \<and> (\<forall>i. look c i = find (\<lambda>d. dd_document_id d = i) ds)
     \<and> (\<forall>s. listing c s = filter (\<lambda>d. dd_session_id d = s) ds)"

lemma represents_ins:
  assumes "represents c ds"
  shows "represents (ins d c) (log_insert d ds)"
proof -
  have laws: "ok c" "\<And>i. look c i = find (\<lambda>d. dd_document_id d = i) ds"
    "\<And>s. listing c s = filter (\<lambda>d. dd_session_id d = s) ds"
    using assms by (auto simp: represents_def)
  have known: "look c (dd_document_id d) = None \<longleftrightarrow> dd_document_id d \<notin> dd_document_id ` set ds"
    unfolding laws(2) find_None_iff by (metis (no_types, lifting) image_iff)
  show ?thesis
  proof (cases "dd_document_id d \<in> dd_document_id ` set ds")
    case True
    then have "look (ins d c) i = look c i" "listing (ins d c) s = listing c s" for i s
      using known look_ins [OF laws(1), of d i] listing_ins [OF laws(1), of d s]
      by (auto split: option.splits)
    then show ?thesis using True laws ok_ins by (simp add: represents_def log_insert_def)
  next
    case False
    then show ?thesis using known laws ok_ins
      by (auto simp: represents_def log_insert_def look_ins listing_ins find_append split: option.splits)
  qed
qed

lemma represents_fold:
  "represents c ds \<Longrightarrow> represents (fold ins xs c) (fold log_insert xs ds)"
  by (induction xs arbitrary: c ds) (simp_all add: represents_ins)

end

text \<open>The in-memory catalog: the listing of a session names documents that are present, each of that session.\<close>

definition order_of :: "CatalogState \<Rightarrow> SessionId \<Rightarrow> DocumentId list" where
  "order_of c s = (case session_order c s of None \<Rightarrow> [] | Some ids \<Rightarrow> ids)"

definition catalog_ok :: "CatalogState \<Rightarrow> bool" where
  "catalog_ok c \<longleftrightarrow>
     (\<forall>i d. documents c i = Some d \<longrightarrow> dd_document_id d = i)
     \<and> (\<forall>s. \<forall>i \<in> set (order_of c s). documents c i \<noteq> None)"

definition session_documents :: "CatalogState \<Rightarrow> SessionId \<Rightarrow> DocumentDescriptor list" where
  "session_documents c s = map (\<lambda>i. the (documents c i)) (order_of c s)"

lemma catalog_okD: "catalog_ok c \<Longrightarrow> i \<in> set (order_of c s) \<Longrightarrow> documents c i \<noteq> None"
  unfolding catalog_ok_def by blast

lemma order_of_default [simp]: "order_of CatalogState_default s = []"
  by (simp add: order_of_def CatalogState_default_def)

lemma catalog_insert_new:
  assumes "documents c (dd_document_id d) = None"
  shows "documents (snd (catalog_insert d c)) = (documents c)(dd_document_id d \<mapsto> d)"
    "order_of (snd (catalog_insert d c)) s =
       (if s = dd_session_id d then order_of c s @ [dd_document_id d] else order_of c s)"
  using assms by (auto simp: catalog_insert_def order_of_def split: option.splits)

lemma catalog_insert_known:
  "documents c (dd_document_id d) = Some e \<Longrightarrow> snd (catalog_insert d c) = c"
  by (simp add: catalog_insert_def)

lemma catalog_ok_default [simp]: "catalog_ok CatalogState_default"
  unfolding catalog_ok_def by simp (simp add: CatalogState_default_def)

lemma catalog_ok_insert [model_inv]: "catalog_ok c \<Longrightarrow> catalog_ok (snd (catalog_insert d c))"
  by (cases "documents c (dd_document_id d)")
    (auto simp: catalog_ok_def catalog_insert_new catalog_insert_known)

interpretation memory_catalog: document_catalog catalog_ok "\<lambda>d c. snd (catalog_insert d c)" documents session_documents
proof (unfold_locales, goal_cases)
  case (1 c d)
  then show ?case by (rule catalog_ok_insert)
next
  case (2 c d i)
  then show ?case
    by (cases "documents c (dd_document_id d)")
      (auto simp: catalog_insert_new catalog_insert_known split: option.splits)
next
  case (3 c d s)
  show ?case
  proof (cases "documents c (dd_document_id d)")
    case None
    then have "i \<noteq> dd_document_id d" if "i \<in> set (order_of c s)" for i
      using catalog_okD [OF 3 that] by metis
    then show ?thesis using None by (simp add: session_documents_def catalog_insert_new)
  qed (simp add: catalog_insert_known)
qed

text \<open>A session is listed as the summaries of its documents, if their pages can be counted.\<close>

definition summary_of :: "DocumentDescriptor \<Rightarrow> DocumentSummary" where
  "summary_of d = \<lparr>ds_document_id = dd_document_id d, ds_title = dd_title d, ds_document_type = dd_document_type d,
     ds_page_count = word_of_nat (length (dd_pages d)), ds_source_asset_id = dd_source_asset_id d\<rparr>"

lemma summary_from_document:
  "length (dd_pages d) < 2 ^ 32 \<Longrightarrow> DocumentSummary_from_document d = Inr (summary_of d)"
  by (simp add: DocumentSummary_from_document_def summary_of_def u32_of_def)

lemma catalog_list_order_of: "catalog_list_documents c s = collect_summaries c (order_of c s)"
  by (simp add: catalog_list_documents_def order_of_def split: option.splits)

lemma collect_summaries_Inr:
  "\<forall>i \<in> set is. \<exists>d. documents c i = Some d \<and> length (dd_pages d) < 2 ^ 32
    \<Longrightarrow> collect_summaries c is = Inr (map (\<lambda>i. summary_of (the (documents c i))) is)"
  by (induction "is") (auto simp: summary_from_document)

text \<open>C24. The in-memory catalog is a log of documents. After any sequence of insertion attempts into an empty
  catalog, a lookup returns the first inserted document with that identifier, and a session is listed as the
  summaries of its accepted documents in the order of insertion; later insertions under a known identifier
  change nothing. (Documents whose page count does not fit the summary are excluded.)\<close>

theorem document_catalog_refines:
  assumes "list_all (\<lambda>d. length (dd_pages d) < 2 ^ 32) ds"
  shows "catalog_get_document (fold (\<lambda>d c. snd (catalog_insert d c)) ds CatalogState_default) i
      = Inr (find (\<lambda>d. dd_document_id d = i) ds)
    \<and> catalog_list_documents (fold (\<lambda>d c. snd (catalog_insert d c)) ds CatalogState_default) s
      = Inr (map summary_of (filter (\<lambda>d. dd_session_id d = s) (fold log_insert ds [])))"
proof -
  define c where "c = fold (\<lambda>d c. snd (catalog_insert d c)) ds CatalogState_default"
  have "memory_catalog.represents CatalogState_default []"
    by (simp add: memory_catalog.represents_def session_documents_def) (simp add: CatalogState_default_def)
  then have rep: "memory_catalog.represents c (fold log_insert ds [])"
    unfolding c_def by (rule memory_catalog.represents_fold)
  have look: "find (\<lambda>d. dd_document_id d = i) (fold log_insert ds es) = find (\<lambda>d. dd_document_id d = i) (es @ ds)" for es i
  proof (induction ds arbitrary: es)
    case (Cons d ds)
    have "find (\<lambda>d. dd_document_id d = i) (es @ ds) = find (\<lambda>d. dd_document_id d = i) (es @ d # ds)"
      if "dd_document_id d \<in> dd_document_id ` set es"
    proof (cases "find (\<lambda>d. dd_document_id d = i) es")
      case None
      then have "dd_document_id d \<noteq> i" using that by (auto simp: find_None_iff)
      then show ?thesis using None by (simp add: find_append)
    qed (simp add: find_append)
    then show ?case using Cons.IH [of es] Cons.IH [of "es @ [d]"] by (simp add: log_insert_def)
  qed simp
  have docs: "documents c i = find (\<lambda>d. dd_document_id d = i) ds" for i
    using rep look [of i "[]"] by (simp add: memory_catalog.represents_def)
  have listed: "session_documents c s = filter (\<lambda>d. dd_session_id d = s) (fold log_insert ds [])"
    using rep by (simp add: memory_catalog.represents_def)
  have ok: "catalog_ok c" using rep by (simp add: memory_catalog.represents_def)
  have small: "\<exists>d. documents c i = Some d \<and> length (dd_pages d) < 2 ^ 32" if listed_id: "i \<in> set (order_of c s)" for i
  proof -
    obtain d where d: "documents c i = Some d" using catalog_okD [OF ok listed_id] by auto
    then have "d \<in> set ds" unfolding docs by (auto simp: find_Some_iff)
    then show ?thesis using d assms by (auto simp: list_all_iff)
  qed
  have "catalog_list_documents c s = Inr (map summary_of (session_documents c s))"
    using small by (simp add: catalog_list_order_of collect_summaries_Inr session_documents_def)
  then show ?thesis using docs listed by (simp add: catalog_get_document_def c_def)
qed


text \<open>Two attempts under one identifier and a document of another session.\<close>

definition tiny_document :: "nat \<Rightarrow> nat \<Rightarrow> string \<Rightarrow> DocumentDescriptor" where
  "tiny_document i s t = \<lparr>dd_document_id = DocumentId (numbered i), dd_session_id = SessionId (numbered s),
     dd_document_type = Pdf, dd_source_asset_id = AssetId (EntityId 7), dd_title = t,
     dd_pages = [\<lparr>dpd_page_id = PageId (numbered 0), dpd_page_index = 0, dpd_display_geometry = unit_geometry,
                  dpd_overlay_canvas_id = CanvasId (numbered 1)\<rparr>]\<rparr>"

theorem document_catalog_refines_witness:
  "catalog_list_documents (fold (\<lambda>d c. snd (catalog_insert d c))
      [tiny_document 1 5 ''a'', tiny_document 1 5 ''b'', tiny_document 2 6 ''c''] CatalogState_default)
      (SessionId (numbered 5)) = Inr [summary_of (tiny_document 1 5 ''a'')]
   \<and> catalog_get_document (fold (\<lambda>d c. snd (catalog_insert d c))
      [tiny_document 1 5 ''a'', tiny_document 1 5 ''b'', tiny_document 2 6 ''c''] CatalogState_default)
      (DocumentId (numbered 1)) = Inr (Some (tiny_document 1 5 ''a''))"
proof -
  have "list_all (\<lambda>d. length (dd_pages d) < 2 ^ 32)
      [tiny_document 1 5 ''a'', tiny_document 1 5 ''b'', tiny_document 2 6 ''c'']"
    by (simp add: tiny_document_def)
  from document_catalog_refines [OF this, of "DocumentId (numbered 1)" "SessionId (numbered 5)"]
  show ?thesis by (simp add: log_insert_def tiny_document_def numbered_def)
qed


section \<open>Views are consistent\<close>

definition page_view_ok :: "DocumentDescriptor \<Rightarrow> DocumentPageDescriptor \<Rightarrow> PageCanvasView \<Rightarrow> bool" where
  "page_view_ok d page v \<longleftrightarrow>
     pcv_page_id v = dpd_page_id page \<and> cd_canvas_id (pcv_canvas v) = dpd_overlay_canvas_id page
     \<and> cd_session_id (pcv_canvas v) = dd_session_id d
     \<and> f64_eq (sp_width (cd_space (pcv_canvas v))) (pg_width (dpd_display_geometry page))
     \<and> f64_eq (sp_height (cd_space (pcv_canvas v))) (pg_height (dpd_display_geometry page))
     \<and> contains_layer (pcv_canvas v) (cd_default_layer_id (pcv_canvas v))"

lemma validate_page_canvas_Inr:
  "validate_page_canvas d page canvas = Inr () \<longleftrightarrow>
     page_view_ok d page \<lparr>pcv_page_id = dpd_page_id page, pcv_canvas = canvas\<rparr>"
  by (auto simp: validate_page_canvas_def page_view_ok_def)

lemma view_pages_Inr:
  "view_pages R d pages w = (Inr vs, w') \<Longrightarrow> list_all2 (page_view_ok d) pages vs"
  by (induction pages arbitrary: w vs w') (auto simp: result_simps validate_page_canvas_Inr)

lemma get_document_view_Inr:
  assumes "get_document_view R i w = (Inr v, w')"
  shows "(\<exists>w1. rs_get_document R i w = (Inr (Some (dv_document v)), w1)
      \<and> (\<exists>w2. rs_get_asset R (dd_source_asset_id (dv_document v)) w1 = (Inr (Some (dv_source_asset v)), w2)))
    \<and> sad_asset_id (dv_source_asset v) = dd_source_asset_id (dv_document v)
    \<and> list_all2 (page_view_ok (dv_document v)) (dd_pages (dv_document v)) (dv_page_canvases v)"
  using assms view_pages_Inr
  by (auto simp: get_document_view_def result_simps split: if_splits) (fastforce simp: result_simps)+

text \<open>Whatever the three catalogs return, a document view that is delivered is consistent: the document and
  its source asset are the ones the catalogs returned, the asset has the identity the document names, and there
  is exactly one canvas per page, in page order, with the identity the page refers to, of the session of the
  document, of the size of the page and with its default layer among its layers.\<close>

theorem document_view_consistent:
  assumes "get_document_view R i w = (Inr v, w')"
  shows "(\<exists>w1 w2. rs_get_document R i w = (Inr (Some (dv_document v)), w1)
      \<and> rs_get_asset R (dd_source_asset_id (dv_document v)) w1 = (Inr (Some (dv_source_asset v)), w2))
    \<and> sad_asset_id (dv_source_asset v) = dd_source_asset_id (dv_document v)
    \<and> list_all2 (page_view_ok (dv_document v)) (dd_pages (dv_document v)) (dv_page_canvases v)"
  using get_document_view_Inr [OF assms] by blast


section \<open>A composed document is served\<close>

text \<open>The read service over the in-memory catalog, the in-memory asset store and a canvas catalog \<open>cvs\<close>.\<close>

definition memory_read_service ::
  "(CanvasId \<rightharpoonup> CanvasDescriptor) \<Rightarrow> (CatalogState \<times> MemoryAssetStore) DocumentReadService" where
  "memory_read_service cvs =
     \<lparr>rs_get_document = (\<lambda>i w. (catalog_get_document (fst w) i, w)),
      rs_get_asset = (\<lambda>a w. (get_asset (snd w) a, w)),
      rs_get_canvas = (\<lambda>c w. (Inr (cvs c), w))\<rparr>"

lemma memory_read_service_simps [simp]:
  "rs_get_document (memory_read_service cvs) i w = (Inr (documents (fst w) i), w)"
  "rs_get_asset (memory_read_service cvs) a w = (Inr (map_option mar_descriptor (snd w a)), w)"
  "rs_get_canvas (memory_read_service cvs) c w = (Inr (cvs c), w)"
  by (simp_all add: memory_read_service_def catalog_get_document_def get_asset_def)

definition view_of_composition :: "DocumentComposition \<Rightarrow> DocumentView" where
  "view_of_composition c =
     \<lparr>dv_document = dc_document c, dv_source_asset = dc_source_asset c,
      dv_page_canvases = map (\<lambda>pc. \<lparr>pcv_page_id = pcc_page_id pc, pcv_canvas = pcc_canvas pc\<rparr>) (dc_page_canvases c)\<rparr>"

lemma f64_eq_sym: "f64_eq a b \<longleftrightarrow> f64_eq b a"
  by (auto simp: f64_eq_def)

lemma view_pages_memory:
  assumes "length pages = length pcs"
    "validate_page_canvases (dd_session_id d) (zip pages pcs) = Inr ()"
    "\<forall>pc \<in> set pcs. cvs (cd_canvas_id (pcc_canvas pc)) = Some (pcc_canvas pc)"
  shows "view_pages (memory_read_service cvs) d pages w =
    (Inr (map (\<lambda>pc. \<lparr>pcv_page_id = pcc_page_id pc, pcv_canvas = pcc_canvas pc\<rparr>) pcs), w)"
  using assms
proof (induction pages pcs rule: list_induct2)
  case Nil
  then show ?case by simp
next
  case (Cons page pages pc pcs)
  have page: "dpd_page_id page = pcc_page_id pc" "dpd_overlay_canvas_id page = cd_canvas_id (pcc_canvas pc)"
    "validate_page_canvas d page (pcc_canvas pc) = Inr ()"
    and rest: "validate_page_canvases (dd_session_id d) (zip pages pcs) = Inr ()"
    using Cons.prems(1) by (auto simp: Let_def validate_page_canvas_def f64_eq_sym split: if_splits)
  then show ?case using Cons.IH [OF rest] Cons.prems(2)
    by (simp add: sbind_def slift_def)
qed

lemma composition_served:
  assumes "compose ids input = Inr c"
    "catalog_insert (dc_document c) cat = (DocumentInserted, cat')"
    "insert_verified digest (dc_source_asset c) bs (insert_all digest before Map.empty) = (Inr oc, store)"
    "list_all (\<lambda>pc. cvs (cd_canvas_id (pcc_canvas pc)) = Some (pcc_canvas pc)) (dc_page_canvases c)"
  shows "get_document_view (memory_read_service cvs) (dd_document_id (dc_document c))
      (fold (\<lambda>d c. snd (catalog_insert d c)) ds cat', insert_all digest later store)
    = (Inr (view_of_composition c),
       (fold (\<lambda>d c. snd (catalog_insert d c)) ds cat', insert_all digest later store))"
proof -
  define d where "d = dc_document c"
  define final where "final = fold (\<lambda>d c. snd (catalog_insert d c)) ds cat'"
  define assets where "assets = insert_all digest later store"
  have valid: "DocumentComposition_validate c = Inr ()"
    using assms(1) by (auto simp: compose_def DocumentComposition_new_def Let_def result_simps)
  then have len: "length (dd_pages d) = length (dc_page_canvases c)"
    and asset: "dd_source_asset_id d = sad_asset_id (dc_source_asset c)"
    and pages: "validate_page_canvases (dd_session_id d) (zip (dd_pages d) (dc_page_canvases c)) = Inr ()"
    by (auto simp: DocumentComposition_validate_def d_def split: if_splits)
  have "documents cat' (dd_document_id d) = Some d"
    using assms(2) by (auto simp: catalog_insert_def d_def split: option.splits if_splits)
  moreover have "documents (fold (\<lambda>d c. snd (catalog_insert d c)) ds e) i = Some x" if "documents e i = Some x" for e i x
    using that
  proof (induction ds arbitrary: e)
    case (Cons y ys)
    have "documents (snd (catalog_insert y e)) i = Some x"
      using Cons.prems by (cases "documents e (dd_document_id y)") (auto simp: catalog_insert_new catalog_insert_known)
    then show ?case using Cons.IH by simp
  qed simp
  ultimately have doc: "documents final (dd_document_id d) = Some d" by (simp add: final_def)
  have "store (sad_asset_id (dc_source_asset c)) = Some \<lparr>mar_descriptor = dc_source_asset c, mar_bytes = bs\<rparr>"
    using insert_verified_Inr [OF assms(3)] .
  then have st: "assets (sad_asset_id (dc_source_asset c)) = Some \<lparr>mar_descriptor = dc_source_asset c, mar_bytes = bs\<rparr>"
    using insert_all_keeps [of store digest later] by (force simp: map_le_def dom_def assets_def)
  have views: "view_pages (memory_read_service cvs) d (dd_pages d) w =
      (Inr (map (\<lambda>pc. \<lparr>pcv_page_id = pcc_page_id pc, pcv_canvas = pcc_canvas pc\<rparr>) (dc_page_canvases c)), w)" for w
    using view_pages_memory [OF len pages] assms(4) by (simp add: list_all_iff)
  have "get_document_view (memory_read_service cvs) (dd_document_id d) (final, assets) =
      (Inr (view_of_composition c), (final, assets))"
    unfolding get_document_view_def using doc st asset views len
    by (simp add: sbind_def slift_def view_of_composition_def d_def)
  then show ?thesis by (simp add: final_def assets_def d_def)
qed


text \<open>C15. What the composer built is what readers see. Once the document of a composition was inserted in the
  catalog, its source asset in the asset store and its canvases in the canvas catalog, the view of the document
  is exactly the composition - whatever further documents and assets are inserted, or attempted to be inserted,
  afterwards.\<close>

theorem composed_document_is_served:
  assumes "compose ids input = Inr c"
    "catalog_insert (dc_document c) cat = (DocumentInserted, cat')"
    "insert_verified digest (dc_source_asset c) bs (insert_all digest before Map.empty) = (Inr oc, store)"
    "list_all (\<lambda>pc. cvs (cd_canvas_id (pcc_canvas pc)) = Some (pcc_canvas pc)) (dc_page_canvases c)"
  shows "get_document_view (memory_read_service cvs) (dd_document_id (dc_document c))
      (fold (\<lambda>d c. snd (catalog_insert d c)) ds cat', insert_all digest later store)
    = (Inr (view_of_composition c),
       (fold (\<lambda>d c. snd (catalog_insert d c)) ds cat', insert_all digest later store))"
  by (rule composition_served [OF assms])

text \<open>The composition of a one-page document, its canvas catalog and its asset.\<close>

definition small_page :: DocumentPageDescriptor where
  "small_page = \<lparr>dpd_page_id = PageId (numbered 0), dpd_page_index = 0, dpd_display_geometry = unit_geometry,
     dpd_overlay_canvas_id = CanvasId (numbered 1)\<rparr>"

definition small_canvas :: CanvasDescriptor where
  "small_canvas = \<lparr>cd_canvas_id = CanvasId (numbered 1), cd_session_id = SessionId (EntityId 1),
     cd_space = \<lparr>sp_width = pg_width unit_geometry, sp_height = pg_height unit_geometry\<rparr>,
     cd_layer_ids = [LayerId (numbered 2)], cd_default_layer_id = LayerId (numbered 2)\<rparr>"

definition small_composition :: DocumentComposition where
  "small_composition =
     \<lparr>dc_document = \<lparr>dd_document_id = DocumentId (numbered 3), dd_session_id = SessionId (EntityId 1),
        dd_document_type = Pdf, dd_source_asset_id = AssetId (EntityId 7), dd_title = ''Untitled PDF'',
        dd_pages = [small_page]\<rparr>,
      dc_source_asset = small_asset,
      dc_page_canvases = [\<lparr>pcc_page_id = PageId (numbered 0), pcc_canvas = small_canvas\<rparr>]\<rparr>"

definition small_cvs :: "CanvasId \<rightharpoonup> CanvasDescriptor" where
  "small_cvs = [CanvasId (numbered 1) \<mapsto> small_canvas]"

lemma compose_small: "compose numbered small_input = Inr small_composition"
proof -
  have t: "compose_title small_input = ''Untitled PDF''"
    by (simp add: compose_title_def small_input_def small_asset_def)
  have b: "trim ''Untitled PDF'' \<noteq> []" using trim_default_title [of Pdf] by simp
  have f: "f64_eq (pg_width unit_geometry) (pg_width unit_geometry)"
    "f64_eq (pg_height unit_geometry) (pg_height unit_geometry)"
    using unit_geometry_ok by (simp_all add: geometry_ok_def)
  have i: "dci_session_id small_input = SessionId (EntityId 1)" "dci_document_type small_input = Pdf"
    "dci_source_asset small_input = small_asset" "sad_asset_id small_asset = AssetId (EntityId 7)"
    "dci_pages small_input = [\<lparr>dsp_page_index = 0, dsp_display_geometry = unit_geometry\<rparr>]"
    by (simp_all add: small_input_def small_asset_def)
  have pages: "compose_pages numbered (SessionId (EntityId 1)) 0 [\<lparr>dsp_page_index = 0, dsp_display_geometry = unit_geometry\<rparr>]
      = Inr ([small_page], [\<lparr>pcc_page_id = PageId (numbered 0), pcc_canvas = small_canvas\<rparr>])"
    by (simp add: Let_def space_of_geometry [OF unit_geometry_ok] canvas_of_layer small_page_def small_canvas_def numeral_2_eq_2)
  have doc: "DocumentDescriptor_new (DocumentId (numbered 3)) (SessionId (EntityId 1)) Pdf (AssetId (EntityId 7))
      ''Untitled PDF'' [small_page] = Inr (dc_document small_composition)"
    using b by (simp add: DocumentDescriptor_new_def blank_def u32_of_def small_page_def small_composition_def)
  have "DocumentComposition_new (dc_document small_composition) small_asset
      [\<lparr>pcc_page_id = PageId (numbered 0), pcc_canvas = small_canvas\<rparr>] = Inr small_composition"
    using f by (simp add: DocumentComposition_new_def DocumentComposition_validate_def contains_layer_def Let_def i
        small_composition_def small_page_def small_canvas_def)
  then show ?thesis unfolding compose_def t i using pages doc by simp
qed

theorem composed_document_is_served_witness:
  "get_document_view (memory_read_service small_cvs) (DocumentId (numbered 3))
     (fold (\<lambda>d c. snd (catalog_insert d c)) [tiny_document 3 9 ''other'']
        (snd (catalog_insert (dc_document small_composition) CatalogState_default)),
      insert_all (\<lambda>_. replicate 32 0) [] (Map.empty(AssetId (EntityId 7) \<mapsto> \<lparr>mar_descriptor = small_asset, mar_bytes = [1, 2, 3]\<rparr>)))
   = (Inr (view_of_composition small_composition),
      (fold (\<lambda>d c. snd (catalog_insert d c)) [tiny_document 3 9 ''other'']
        (snd (catalog_insert (dc_document small_composition) CatalogState_default)),
      insert_all (\<lambda>_. replicate 32 0) [] (Map.empty(AssetId (EntityId 7) \<mapsto> \<lparr>mar_descriptor = small_asset, mar_bytes = [1, 2, 3]\<rparr>))))"
proof -
  have c: "catalog_insert (dc_document small_composition) CatalogState_default =
      (DocumentInserted, snd (catalog_insert (dc_document small_composition) CatalogState_default))"
    by (simp add: catalog_insert_def CatalogState_default_def)
  have a: "insert_verified (\<lambda>_. replicate 32 0) (dc_source_asset small_composition) [1, 2, 3]
      (insert_all (\<lambda>_. replicate 32 0) [] Map.empty) =
    (Inr Inserted, Map.empty(AssetId (EntityId 7) \<mapsto> \<lparr>mar_descriptor = small_asset, mar_bytes = [1, 2, 3]\<rparr>))"
    using insert_small_asset by (simp add: small_composition_def)
  have v: "list_all (\<lambda>pc. small_cvs (cd_canvas_id (pcc_canvas pc)) = Some (pcc_canvas pc)) (dc_page_canvases small_composition)"
    by (simp add: small_composition_def small_cvs_def small_canvas_def)
  have i: "dd_document_id (dc_document small_composition) = DocumentId (numbered 3)"
    by (simp add: small_composition_def)
  show ?thesis
    using composed_document_is_served [OF compose_small c a v, of "[tiny_document 3 9 ''other'']" "[]"] unfolding i .
qed

definition small_world :: "CatalogState \<times> MemoryAssetStore" where
  "small_world = (snd (catalog_insert (dc_document small_composition) CatalogState_default),
     [AssetId (EntityId 7) \<mapsto> \<lparr>mar_descriptor = small_asset, mar_bytes = [1, 2, 3]\<rparr>])"

lemma small_world_simps [simp]:
  "documents (fst small_world) (DocumentId (numbered 3)) = Some (dc_document small_composition)"
  "snd small_world (AssetId (EntityId 7)) = Some \<lparr>mar_descriptor = small_asset, mar_bytes = [1, 2, 3]\<rparr>"
  by (simp_all add: small_world_def catalog_insert_def CatalogState_default_def small_composition_def)

lemma small_composition_simps [simp]:
  "dd_source_asset_id (dc_document small_composition) = AssetId (EntityId 7)"
  "dd_session_id (dc_document small_composition) = SessionId (EntityId 1)"
  "dd_pages (dc_document small_composition) = [small_page]" "dpd_overlay_canvas_id small_page = CanvasId (numbered 1)"
  "sad_asset_id small_asset = AssetId (EntityId 7)" "dpd_page_id small_page = PageId (numbered 0)"
  by (simp_all add: small_composition_def small_page_def small_asset_def)

definition small_view :: DocumentView where
  "small_view = \<lparr>dv_document = dc_document small_composition, dv_source_asset = small_asset,
     dv_page_canvases = [\<lparr>pcv_page_id = PageId (numbered 0), pcv_canvas = small_canvas\<rparr>]\<rparr>"

lemma get_small_view:
  "get_document_view (memory_read_service small_cvs) (DocumentId (numbered 3)) small_world = (Inr small_view, small_world)"
proof -
  have c: "validate_page_canvas (dc_document small_composition) small_page small_canvas = Inr ()"
    using unit_geometry_ok
    by (simp add: validate_page_canvas_def small_composition_def small_page_def small_canvas_def
        contains_layer_def geometry_ok_def)
  have p: "view_pages (memory_read_service small_cvs) (dc_document small_composition) [small_page] w =
      (Inr [\<lparr>pcv_page_id = PageId (numbered 0), pcv_canvas = small_canvas\<rparr>], w)" for w
    using c by (simp add: sbind_def slift_def small_cvs_def)
  show ?thesis unfolding get_document_view_def using p
    by (simp add: sbind_def slift_def small_view_def del: view_pages.simps)
qed

theorem document_view_consistent_witness:
  "list_all2 (page_view_ok (dc_document small_composition)) [small_page]
     [\<lparr>pcv_page_id = PageId (numbered 0), pcv_canvas = small_canvas\<rparr>]"
  using document_view_consistent [OF get_small_view] by (simp add: small_view_def)

end
