(* ===== verification/Document_Query.thy ===== *)
theory Document_Query
  imports Document_Runtime Query_Model
begin

text \<open>
  The query handlers of \<open>orbitrelay-document-runtime\<close> (\<open>query.rs\<close>): the transfer objects, \<open>document.list\<close> and
  \<open>document.get\<close> with their authorization, the mapping of errors and the registration. The JSON form of the
  request payloads and of the results is a parameter (\<open>document_serde\<close>); the handler of \<open>document.get\<close> has its own
  document catalog beside the one of the read service, as in the code.
\<close>

section \<open>Transfer objects\<close>

definition DOCUMENT_LIST_QUERY_TYPE :: string where
  "DOCUMENT_LIST_QUERY_TYPE = ''document.list''"

definition DOCUMENT_GET_QUERY_TYPE :: string where
  "DOCUMENT_GET_QUERY_TYPE = ''document.get''"

datatype DocumentReadAuthorizationError = ReadUnauthorized | ReadAuthorizationUnavailable | ReadAuthorizationInternal

record ListDocumentsPayload =
  ldp_session_id :: SessionId

record GetDocumentPayload =
  gdp_document_id :: DocumentId

record DocumentPageDto =
  pdto_page_id :: PageId
  pdto_page_index :: u32
  pdto_display_geometry :: PageDisplayGeometry
  pdto_overlay_canvas_id :: CanvasId

definition DocumentPageDto_from_domain :: "DocumentPageDescriptor \<Rightarrow> DocumentPageDto" where
  "DocumentPageDto_from_domain p =
     \<lparr>pdto_page_id = dpd_page_id p, pdto_page_index = dpd_page_index p,
      pdto_display_geometry = dpd_display_geometry p, pdto_overlay_canvas_id = dpd_overlay_canvas_id p\<rparr>"

record DocumentDto =
  ddto_document_id :: DocumentId
  ddto_session_id :: SessionId
  ddto_document_type :: DocumentType
  ddto_source_asset_id :: AssetId
  ddto_title :: string
  ddto_pages :: "DocumentPageDto list"

definition DocumentDto_from_document :: "DocumentDescriptor \<Rightarrow> DocumentDto" where
  "DocumentDto_from_document d =
     \<lparr>ddto_document_id = dd_document_id d, ddto_session_id = dd_session_id d,
      ddto_document_type = dd_document_type d, ddto_source_asset_id = dd_source_asset_id d,
      ddto_title = dd_title d, ddto_pages = map DocumentPageDto_from_domain (dd_pages d)\<rparr>"

record DocumentSummaryDto =
  sdto_document_id :: DocumentId
  sdto_title :: string
  sdto_document_type :: DocumentType
  sdto_page_count :: u32
  sdto_source_asset_id :: AssetId

definition DocumentSummaryDto_from :: "DocumentSummary \<Rightarrow> DocumentSummaryDto" where
  "DocumentSummaryDto_from s =
     \<lparr>sdto_document_id = ds_document_id s, sdto_title = ds_title s, sdto_document_type = ds_document_type s,
      sdto_page_count = ds_page_count s, sdto_source_asset_id = ds_source_asset_id s\<rparr>"

record DocumentListResultDto =
  ldto_documents :: "DocumentSummaryDto list"

record SourceAssetDto =
  adto_asset_id :: AssetId
  adto_media_type :: string
  adto_byte_length :: u64
  adto_content_hash :: ContentHash
  adto_original_filename :: "string option"

definition SourceAssetDto_from :: "SourceAssetDescriptor \<Rightarrow> SourceAssetDto" where
  "SourceAssetDto_from a =
     \<lparr>adto_asset_id = sad_asset_id a, adto_media_type = sad_media_type a, adto_byte_length = sad_byte_length a,
      adto_content_hash = sad_content_hash a, adto_original_filename = sad_original_filename a\<rparr>"

record CanvasSpaceDto =
  csdto_width :: f64
  csdto_height :: f64

record CanvasDto =
  cdto_canvas_id :: CanvasId
  cdto_session_id :: SessionId
  cdto_space :: CanvasSpaceDto
  cdto_layer_ids :: "LayerId list"
  cdto_default_layer_id :: LayerId

definition CanvasDto_from :: "CanvasDescriptor \<Rightarrow> CanvasDto" where
  "CanvasDto_from c =
     \<lparr>cdto_canvas_id = cd_canvas_id c, cdto_session_id = cd_session_id c,
      cdto_space = \<lparr>csdto_width = sp_width (cd_space c), csdto_height = sp_height (cd_space c)\<rparr>,
      cdto_layer_ids = cd_layer_ids c, cdto_default_layer_id = cd_default_layer_id c\<rparr>"

record PageCanvasDto =
  pcdto_page_id :: PageId
  pcdto_canvas :: CanvasDto

definition PageCanvasDto_from :: "PageCanvasView \<Rightarrow> PageCanvasDto" where
  "PageCanvasDto_from v = \<lparr>pcdto_page_id = pcv_page_id v, pcdto_canvas = CanvasDto_from (pcv_canvas v)\<rparr>"

record DocumentViewDto =
  vdto_document :: DocumentDto
  vdto_source_asset :: SourceAssetDto
  vdto_page_canvases :: "PageCanvasDto list"

definition DocumentViewDto_from :: "DocumentView \<Rightarrow> DocumentViewDto" where
  "DocumentViewDto_from v =
     \<lparr>vdto_document = DocumentDto_from_document (dv_document v),
      vdto_source_asset = SourceAssetDto_from (dv_source_asset v),
      vdto_page_canvases = map PageCanvasDto_from (dv_page_canvases v)\<rparr>"


section \<open>Handlers\<close>

record document_serde =
  dser_payload :: "Payload serde"
  dser_list :: "ListDocumentsPayload serde"
  dser_get :: "GetDocumentPayload serde"
  dser_list_result :: "DocumentListResultDto serde"
  dser_view :: "DocumentViewDto serde"

definition query_decode_payload :: "'a serde \<Rightarrow> Payload serde \<Rightarrow> Payload \<Rightarrow> (QueryHandlerError, 'a) result" where
  "query_decode_payload S P p =
     rbind (ok_or (to_value P p) QH_InvalidQuery) (\<lambda>v. ok_or (from_value S v) QH_InvalidQuery)"

definition query_encode_payload :: "'a serde \<Rightarrow> Payload serde \<Rightarrow> 'a \<Rightarrow> (QueryHandlerError, Payload) result" where
  "query_encode_payload S P x =
     rbind (ok_or (to_value S x) QH_Internal) (\<lambda>v. ok_or (from_value P v) QH_Internal)"

primrec map_authorization_error :: "DocumentReadAuthorizationError \<Rightarrow> QueryHandlerError" where
  "map_authorization_error ReadUnauthorized = QH_Unauthorized"
| "map_authorization_error ReadAuthorizationUnavailable = QH_Unavailable"
| "map_authorization_error ReadAuthorizationInternal = QH_Internal"

primrec map_document_read_error :: "DocumentReadError \<Rightarrow> QueryHandlerError" where
  "map_document_read_error (DocumentNotFound _) = QH_NotFound"
| "map_document_read_error (DocumentAssetNotFound _) = QH_Internal"
| "map_document_read_error (DocumentCanvasNotFound _) = QH_Internal"
| "map_document_read_error (InconsistentReadModel _) = QH_Internal"
| "map_document_read_error PageCountOverflow = QH_Internal"
| "map_document_read_error (DocumentCatalogUnavailable _) = QH_Unavailable"

record 'w DocumentCatalog =
  cat_get_document :: "DocumentId \<Rightarrow> 'w \<Rightarrow> (DocumentCatalogError, DocumentDescriptor option) result \<times> 'w"
  cat_list_documents :: "SessionId \<Rightarrow> 'w \<Rightarrow> (DocumentCatalogError, DocumentSummary list) result \<times> 'w"

type_synonym 'w DocumentReadAuthorizer =
  "QueryActorContext \<Rightarrow> SessionId \<Rightarrow> QueryType \<Rightarrow> 'w \<Rightarrow> (DocumentReadAuthorizationError, unit) result \<times> 'w"

definition document_list_execute ::
  "document_serde \<Rightarrow> 'w DocumentCatalog \<Rightarrow> 'w DocumentReadAuthorizer \<Rightarrow> QueryType
     \<Rightarrow> QueryActorContext \<Rightarrow> QueryRequest \<Rightarrow> 'w \<Rightarrow> (QueryHandlerError, Payload) result \<times> 'w" where
  "document_list_execute S cat auth qt actor request =
     sbind (slift (query_decode_payload (dser_list S) (dser_payload S) (qr_payload request))) (\<lambda>payload.
     sbind (smap_err map_authorization_error (auth actor (ldp_session_id payload) qt)) (\<lambda>_.
     sbind (smap_err (\<lambda>_. QH_Unavailable) (cat_list_documents cat (ldp_session_id payload))) (\<lambda>summaries.
     slift (query_encode_payload (dser_list_result S) (dser_payload S)
       \<lparr>ldto_documents = map DocumentSummaryDto_from summaries\<rparr>))))"

definition document_get_execute ::
  "document_serde \<Rightarrow> 'w DocumentCatalog \<Rightarrow> 'w DocumentReadService \<Rightarrow> 'w DocumentReadAuthorizer \<Rightarrow> QueryType
     \<Rightarrow> QueryActorContext \<Rightarrow> QueryRequest \<Rightarrow> 'w \<Rightarrow> (QueryHandlerError, Payload) result \<times> 'w" where
  "document_get_execute S cat R auth qt actor request =
     sbind (slift (query_decode_payload (dser_get S) (dser_payload S) (qr_payload request))) (\<lambda>payload.
     sbind (smap_err (\<lambda>_. QH_Unavailable) (cat_get_document cat (gdp_document_id payload))) (\<lambda>found.
     sbind (slift (ok_or found QH_NotFound)) (\<lambda>document.
     sbind (smap_err map_authorization_error (auth actor (dd_session_id document) qt)) (\<lambda>_.
     sbind (smap_err map_document_read_error (get_document_view R (gdp_document_id payload))) (\<lambda>view.
     slift (query_encode_payload (dser_view S) (dser_payload S) (DocumentViewDto_from view)))))))"

text \<open>\<open>new\<close> of the two handlers; \<open>expect\<close> on a static query type is a panic.\<close>

definition DocumentListQueryHandler_new ::
  "document_serde \<Rightarrow> 'w DocumentCatalog \<Rightarrow> 'w DocumentReadAuthorizer \<Rightarrow> (QueryTypeError, 'w QueryHandler) result" where
  "DocumentListQueryHandler_new S cat auth =
     rbind (QueryType_new DOCUMENT_LIST_QUERY_TYPE) (\<lambda>qt.
     Inr \<lparr>qh_query_type = qt, qh_execute = document_list_execute S cat auth qt\<rparr>)"

definition DocumentGetQueryHandler_new ::
  "document_serde \<Rightarrow> 'w DocumentCatalog \<Rightarrow> 'w DocumentReadService \<Rightarrow> 'w DocumentReadAuthorizer
     \<Rightarrow> (QueryTypeError, 'w QueryHandler) result" where
  "DocumentGetQueryHandler_new S cat R auth =
     rbind (QueryType_new DOCUMENT_GET_QUERY_TYPE) (\<lambda>qt.
     Inr \<lparr>qh_query_type = qt, qh_execute = document_get_execute S cat R auth qt\<rparr>)"

definition static_query_type_error :: "string \<Rightarrow> QueryRegistryError option" where
  "static_query_type_error s =
     (case QueryType_new s of Inl _ \<Rightarrow> None | Inr qt \<Rightarrow> Some (DuplicateQueryType qt))"

definition register_document_query_handlers ::
  "document_serde \<Rightarrow> 'w DocumentCatalog \<Rightarrow> 'w DocumentReadService \<Rightarrow> 'w DocumentReadAuthorizer \<Rightarrow> 'w QueryRegistry
     \<Rightarrow> ((QueryRegistryError, unit) result \<times> 'w QueryRegistry) option" where
  "register_document_query_handlers S cat R auth registry =
     (case DocumentListQueryHandler_new S cat auth of
        Inl _ \<Rightarrow> map_option (\<lambda>e. (Inl e, registry)) (static_query_type_error DOCUMENT_LIST_QUERY_TYPE)
      | Inr list_handler \<Rightarrow>
     (case DocumentGetQueryHandler_new S cat R auth of
        Inl _ \<Rightarrow> map_option (\<lambda>e. (Inl e, registry)) (static_query_type_error DOCUMENT_GET_QUERY_TYPE)
      | Inr get_handler \<Rightarrow>
          Some (sbind (query_register list_handler) (\<lambda>_. query_register get_handler) registry)))"


section \<open>Registration\<close>

definition list_type :: QueryType where
  "list_type = QueryType DOCUMENT_LIST_QUERY_TYPE"

definition get_type :: QueryType where
  "get_type = QueryType DOCUMENT_GET_QUERY_TYPE"

lemma document_types_differ: "list_type \<noteq> get_type"
  by (simp add: list_type_def get_type_def DOCUMENT_LIST_QUERY_TYPE_def DOCUMENT_GET_QUERY_TYPE_def)

lemma document_query_types:
  "QueryType_new DOCUMENT_LIST_QUERY_TYPE = Inr list_type"
  "QueryType_new DOCUMENT_GET_QUERY_TYPE = Inr get_type"
proof -
  have "trim DOCUMENT_LIST_QUERY_TYPE = DOCUMENT_LIST_QUERY_TYPE" "trim DOCUMENT_GET_QUERY_TYPE = DOCUMENT_GET_QUERY_TYPE"
    by (rule trim_fixed; simp add: leading_def white_space_def DOCUMENT_LIST_QUERY_TYPE_def DOCUMENT_GET_QUERY_TYPE_def)+
  then show "QueryType_new DOCUMENT_LIST_QUERY_TYPE = Inr list_type" "QueryType_new DOCUMENT_GET_QUERY_TYPE = Inr get_type"
    unfolding QueryType_new_def validate_query_type_def list_type_def get_type_def
    by (simp_all add: DOCUMENT_LIST_QUERY_TYPE_def DOCUMENT_GET_QUERY_TYPE_def query_type_byte_def less_eq_char_def)
qed

lemma register_document_handlers_fresh:
  assumes "r list_type = None" "r get_type = None"
  shows "register_document_query_handlers S cat R auth r =
    Some (Inr (), r(list_type \<mapsto> \<lparr>qh_query_type = list_type, qh_execute = document_list_execute S cat auth list_type\<rparr>,
       get_type \<mapsto> \<lparr>qh_query_type = get_type, qh_execute = document_get_execute S cat R auth get_type\<rparr>))"
  using assms document_types_differ
  by (simp add: register_document_query_handlers_def DocumentListQueryHandler_new_def DocumentGetQueryHandler_new_def
      document_query_types sbind_def query_register_def)



section \<open>Document queries are authorized\<close>

lemma document_list_execute_Inr:
  "document_list_execute S cat auth qt actor request w = (Inr p, w') \<longleftrightarrow>
     (\<exists>payload w1 summaries. query_decode_payload (dser_list S) (dser_payload S) (qr_payload request) = Inr payload
        \<and> auth actor (ldp_session_id payload) qt w = (Inr (), w1)
        \<and> cat_list_documents cat (ldp_session_id payload) w1 = (Inr summaries, w')
        \<and> query_encode_payload (dser_list_result S) (dser_payload S)
            \<lparr>ldto_documents = map DocumentSummaryDto_from summaries\<rparr> = Inr p)"
  by (auto simp: document_list_execute_def result_simps)

lemma document_get_execute_Inr:
  "document_get_execute S cat R auth qt actor request w = (Inr p, w') \<longleftrightarrow>
     (\<exists>payload w1 d w2 v. query_decode_payload (dser_get S) (dser_payload S) (qr_payload request) = Inr payload
        \<and> cat_get_document cat (gdp_document_id payload) w = (Inr (Some d), w1)
        \<and> auth actor (dd_session_id d) qt w1 = (Inr (), w2)
        \<and> get_document_view R (gdp_document_id payload) w2 = (Inr v, w')
        \<and> query_encode_payload (dser_view S) (dser_payload S) (DocumentViewDto_from v) = Inr p)"
  by (auto simp: document_get_execute_def result_simps)

lemma query_execute_success:
  "query_execute r actor req w = (resp, w') \<Longrightarrow> qp_result resp = QuerySuccess p
    \<Longrightarrow> \<exists>h. r (qr_query_type req) = Some h \<and> qh_execute h actor req w = (Inr p, w')"
  by (auto simp: query_execute_def query_get_def query_response_defs split: option.splits sum.splits prod.splits)

text \<open>Documents are immutable: what the handler looked up before the authorization is what the read service
  finds after it, if both read the same catalog and the catalog only grows meanwhile.\<close>

lemma document_get_same_document:
  assumes "\<And>i w. cat_get_document cat i w = (catalog_get_document (cs w) i, w)"
    "\<And>i w. rs_get_document R i w = (catalog_get_document (cs w) i, w)"
    "\<And>a s q w. documents (cs w) \<subseteq>\<^sub>m documents (cs (snd (auth a s q w)))"
    "document_get_execute S cat R auth qt actor request w = (Inr p, w')"
  shows "\<exists>v w2. auth actor (dd_session_id (dv_document v)) qt w = (Inr (), w2)
    \<and> (\<exists>i. documents (cs w) i = Some (dv_document v) \<and> get_document_view R i w2 = (Inr v, w'))
    \<and> query_encode_payload (dser_view S) (dser_payload S) (DocumentViewDto_from v) = Inr p"
proof -
  obtain i d w2 v where run: "documents (cs w) i = Some d"
    "auth actor (dd_session_id d) qt w = (Inr (), w2)"
    "get_document_view R i w2 = (Inr v, w')"
    "query_encode_payload (dser_view S) (dser_payload S) (DocumentViewDto_from v) = Inr p"
    using assms(4) by (auto simp: document_get_execute_Inr assms(1) catalog_get_document_def)
  have "documents (cs w2) i = Some (dv_document v)"
    using get_document_view_Inr [OF run(3)] by (auto simp: assms(2) catalog_get_document_def)
  moreover have "documents (cs w2) i = Some d"
    using assms(3) [of w actor "dd_session_id d" qt] run(1,2) by (force simp: map_le_def dom_def)
  ultimately show ?thesis using run by (intro exI [of _ v] exI [of _ w2]) auto
qed

text \<open>C13. A document query succeeds only for a session the actor may read. On a registry with the document
  handlers, a successful answer is either the listing of a session that the authorizer accepted for this actor
  and this query before the catalog was consulted, or the view of a document whose own session the authorizer
  accepted, even though the document is read again after the authorization; documents inserted concurrently
  cannot change this.\<close>

theorem document_queries_authorized:
  assumes "\<And>i w. cat_get_document cat i w = (catalog_get_document (cs w) i, w)"
    "\<And>i w. rs_get_document R i w = (catalog_get_document (cs w) i, w)"
    "\<And>a s q w. documents (cs w) \<subseteq>\<^sub>m documents (cs (snd (auth a s q w)))"
    "register_document_query_handlers S cat R auth Map.empty = Some (Inr (), registry)"
    "query_execute registry actor req w = (resp, w')" "qp_result resp = QuerySuccess p"
  shows "(\<exists>s w2 summaries. auth actor s list_type w = (Inr (), w2)
      \<and> cat_list_documents cat s w2 = (Inr summaries, w')
      \<and> query_encode_payload (dser_list_result S) (dser_payload S)
          \<lparr>ldto_documents = map DocumentSummaryDto_from summaries\<rparr> = Inr p)
    \<or> (\<exists>v w2. auth actor (dd_session_id (dv_document v)) get_type w = (Inr (), w2)
      \<and> (\<exists>i. documents (cs w) i = Some (dv_document v) \<and> get_document_view R i w2 = (Inr v, w'))
      \<and> query_encode_payload (dser_view S) (dser_payload S) (DocumentViewDto_from v) = Inr p)"
proof -
  have reg: "registry = [list_type \<mapsto> \<lparr>qh_query_type = list_type, qh_execute = document_list_execute S cat auth list_type\<rparr>,
       get_type \<mapsto> \<lparr>qh_query_type = get_type, qh_execute = document_get_execute S cat R auth get_type\<rparr>]"
    using assms(4) by (simp add: register_document_handlers_fresh)
  obtain h where h: "registry (qr_query_type req) = Some h" "qh_execute h actor req w = (Inr p, w')"
    using query_execute_success [OF assms(5,6)] by auto
  then consider
      "document_list_execute S cat auth list_type actor req w = (Inr p, w')"
    | "document_get_execute S cat R auth get_type actor req w = (Inr p, w')"
    unfolding reg by (auto split: if_splits)
  then show ?thesis
  proof cases
    case 1
    then show ?thesis unfolding document_list_execute_Inr by blast
  next
    case 2
    from document_get_same_document [OF assms(1-3) 2] show ?thesis by blast
  qed
qed


section \<open>An authorized reader gets the composed document\<close>

definition memory_document_catalog :: "(CatalogState \<times> MemoryAssetStore) DocumentCatalog" where
  "memory_document_catalog =
     \<lparr>cat_get_document = (\<lambda>i w. (catalog_get_document (fst w) i, w)),
      cat_list_documents = (\<lambda>s w. (catalog_list_documents (fst w) s, w))\<rparr>"

text \<open>An authorizer that lets every actor read one session, and a JSON form in which a document identifier is
  the only request and every result is the empty object.\<close>

definition one_session :: "SessionId \<Rightarrow> 'w DocumentReadAuthorizer" where
  "one_session s actor s' qt w = (if s' = s then Inr () else Inl ReadUnauthorized, w)"

definition toy_serde :: "DocumentId \<Rightarrow> document_serde" where
  "toy_serde i =
     \<lparr>dser_payload = \<lparr>to_value = (\<lambda>_. Some JNull), from_value = (\<lambda>_. Some payload_new)\<rparr>,
      dser_list = \<lparr>to_value = (\<lambda>_. Some JNull), from_value = (\<lambda>_. None)\<rparr>,
      dser_get = \<lparr>to_value = (\<lambda>_. Some JNull), from_value = (\<lambda>_. Some \<lparr>gdp_document_id = i\<rparr>)\<rparr>,
      dser_list_result = \<lparr>to_value = (\<lambda>_. Some JNull), from_value = (\<lambda>_. None)\<rparr>,
      dser_view = \<lparr>to_value = (\<lambda>_. Some JNull), from_value = (\<lambda>_. None)\<rparr>\<rparr>"


definition small_get :: QueryRequest where
  "small_get = \<lparr>qr_request_id = MessageId (numbered 9), qr_query_type = get_type, qr_payload = payload_new\<rparr>"

definition reader_actor :: QueryActorContext where
  "reader_actor = QueryActorContext_new (ActorId (numbered 8))"

theorem document_queries_authorized_witness:
  "(\<exists>s w2 summaries. one_session (SessionId (EntityId 1)) reader_actor s list_type small_world = (Inr (), w2)
      \<and> cat_list_documents memory_document_catalog s w2 = (Inr summaries, small_world)
      \<and> query_encode_payload (dser_list_result (toy_serde (DocumentId (numbered 3)))) (dser_payload (toy_serde (DocumentId (numbered 3))))
          \<lparr>ldto_documents = map DocumentSummaryDto_from summaries\<rparr> = Inr payload_new)
    \<or> (\<exists>v w2. one_session (SessionId (EntityId 1)) reader_actor (dd_session_id (dv_document v)) get_type small_world = (Inr (), w2)
      \<and> (\<exists>i. documents (fst small_world) i = Some (dv_document v)
            \<and> get_document_view (memory_read_service small_cvs) i w2 = (Inr v, small_world))
      \<and> query_encode_payload (dser_view (toy_serde (DocumentId (numbered 3)))) (dser_payload (toy_serde (DocumentId (numbered 3))))
          (DocumentViewDto_from v) = Inr payload_new)"
proof -
  let ?S = "toy_serde (DocumentId (numbered 3))" and ?R = "memory_read_service small_cvs"
  let ?auth = "one_session (SessionId (EntityId 1))"
  define registry where "registry = [list_type \<mapsto> \<lparr>qh_query_type = list_type,
      qh_execute = document_list_execute ?S memory_document_catalog ?auth list_type\<rparr>,
    get_type \<mapsto> \<lparr>qh_query_type = get_type, qh_execute = document_get_execute ?S memory_document_catalog ?R ?auth get_type\<rparr>]"
  have cat: "cat_get_document memory_document_catalog i w = (catalog_get_document (fst w) i, w)" for i w
    by (simp add: memory_document_catalog_def)
  have rs: "rs_get_document ?R i w = (catalog_get_document (fst w) i, w)" for i w
    by (simp add: catalog_get_document_def)
  have grow: "documents (fst w) \<subseteq>\<^sub>m documents (fst (snd (?auth a s q w)))"
    for a s q and w :: "CatalogState \<times> MemoryAssetStore"
    by (simp add: one_session_def)
  have reg: "register_document_query_handlers ?S memory_document_catalog ?R ?auth Map.empty = Some (Inr (), registry)"
    by (simp add: register_document_handlers_fresh registry_def)
  have "document_get_execute ?S memory_document_catalog ?R ?auth get_type reader_actor small_get small_world
      = (Inr payload_new, small_world)"
    using get_small_view
    by (simp add: document_get_execute_def sbind_def slift_def query_decode_payload_def query_encode_payload_def
        toy_serde_def cat catalog_get_document_def one_session_def smap_err_def)
  then have "query_execute registry reader_actor small_get small_world =
      (QueryResponse_success (qr_request_id small_get) (qr_query_type small_get) payload_new, small_world)"
    by (simp add: query_execute_def query_get_def registry_def small_get_def)
  from document_queries_authorized [of memory_document_catalog fst ?R ?auth, OF cat rs grow reg this]
  show ?thesis by (simp add: query_response_defs)
qed

end
