(* ===== verification/Wire_Model.thy ===== *)
theory Wire_Model
  imports Document_Query
begin

text \<open>
  The hand-written \<open>Serialize\<close> and \<open>Deserialize\<close> implementations: points, spaces and styles of a canvas
  (\<open>orbitrelay-canvas\<close>), page rotation, page geometry and descriptors of a document (\<open>orbitrelay-document\<close>), content hashes
  and asset descriptors (\<open>orbitrelay-asset\<close>) and query types (\<open>orbitrelay-query\<close>). Each reads an auxiliary structure of
  plain fields and passes it to the validating constructor. The reader of the fields and the writers of structures are
  derived by the \<open>serde\<close> crate; with the format they read and write they are the record \<open>wire_format\<close>, a parameter. A
  derived implementation is given the implementations for the types of its fields.
\<close>

section \<open>The derived implementations\<close>

type_synonym ('v, 'err, 'a) reader = "'v \<Rightarrow> ('err, 'a) result"

type_synonym page_fields = "PageId \<times> u32 \<times> PageDisplayGeometry \<times> CanvasId"

type_synonym document_fields = "DocumentId \<times> SessionId \<times> DocumentType \<times> AssetId \<times> string \<times> DocumentPageDescriptor list"

type_synonym asset_fields = "AssetId \<times> string \<times> u64 \<times> ContentHash \<times> string option"

record ('v, 'err) wire_format =
  wf_custom_canvas :: "CanvasError \<Rightarrow> 'err"
  wf_custom_document :: "DocumentError \<Rightarrow> 'err"
  wf_custom_asset :: "AssetError \<Rightarrow> 'err"
  wf_custom_query :: "QueryTypeError \<Rightarrow> 'err"
  wf_read_u16 :: "('v, 'err, u16) reader"
  wf_read_string :: "('v, 'err, string) reader"
  wf_write_u16 :: "u16 \<Rightarrow> 'v"
  wf_write_str :: "string \<Rightarrow> 'v"
  wf_read_point :: "('v, 'err, f64 \<times> f64) reader"
  wf_read_space :: "('v, 'err, f64 \<times> f64) reader"
  wf_read_style :: "('v, 'err, f64 \<times> RgbaColor) reader"
  wf_read_geometry :: "('v, 'err, PageRotation) reader \<Rightarrow> ('v, 'err, f64 \<times> f64 \<times> PageRotation) reader"
  wf_write_geometry :: "(PageRotation \<Rightarrow> 'v) \<Rightarrow> PageDisplayGeometry \<Rightarrow> 'v"
  wf_read_page :: "('v, 'err, PageDisplayGeometry) reader \<Rightarrow> ('v, 'err, page_fields) reader"
  wf_write_page :: "(PageDisplayGeometry \<Rightarrow> 'v) \<Rightarrow> DocumentPageDescriptor \<Rightarrow> 'v"
  wf_read_document :: "('v, 'err, DocumentPageDescriptor) reader \<Rightarrow> ('v, 'err, document_fields) reader"
  wf_write_document :: "(DocumentPageDescriptor \<Rightarrow> 'v) \<Rightarrow> DocumentDescriptor \<Rightarrow> 'v"
  wf_read_asset :: "('v, 'err, ContentHash) reader \<Rightarrow> ('v, 'err, asset_fields) reader"
  wf_write_asset :: "(ContentHash \<Rightarrow> 'v) \<Rightarrow> SourceAssetDescriptor \<Rightarrow> 'v"


section \<open>The hand-written implementations\<close>

definition deserialize_CanvasPoint :: "('v, 'err) wire_format \<Rightarrow> ('v, 'err, CanvasPoint) reader" where
  "deserialize_CanvasPoint W v =
     rbind (wf_read_point W v) (\<lambda>fields. map_err (wf_custom_canvas W) (case fields of (x, y) \<Rightarrow> CanvasPoint_new x y))"

definition deserialize_CanvasSpace :: "('v, 'err) wire_format \<Rightarrow> ('v, 'err, CanvasSpace) reader" where
  "deserialize_CanvasSpace W v =
     rbind (wf_read_space W v) (\<lambda>fields. map_err (wf_custom_canvas W) (case fields of (w, h) \<Rightarrow> CanvasSpace_new w h))"

definition deserialize_StrokeStyle :: "('v, 'err) wire_format \<Rightarrow> ('v, 'err, StrokeStyle) reader" where
  "deserialize_StrokeStyle W v =
     rbind (wf_read_style W v) (\<lambda>fields. map_err (wf_custom_canvas W) (case fields of (w, c) \<Rightarrow> StrokeStyle_new w c))"

definition serialize_PageRotation :: "('v, 'err) wire_format \<Rightarrow> PageRotation \<Rightarrow> 'v" where
  "serialize_PageRotation W r = wf_write_u16 W (degrees r)"

definition deserialize_PageRotation :: "('v, 'err) wire_format \<Rightarrow> ('v, 'err, PageRotation) reader" where
  "deserialize_PageRotation W v = rbind (wf_read_u16 W v) (\<lambda>d. map_err (wf_custom_document W) (from_degrees d))"

definition deserialize_PageDisplayGeometry :: "('v, 'err) wire_format \<Rightarrow> ('v, 'err, PageDisplayGeometry) reader" where
  "deserialize_PageDisplayGeometry W v =
     rbind (wf_read_geometry W (deserialize_PageRotation W) v) (\<lambda>fields.
       map_err (wf_custom_document W) (case fields of (w, h, r) \<Rightarrow> PageDisplayGeometry_new w h r))"

definition deserialize_DocumentPageDescriptor ::
  "('v, 'err) wire_format \<Rightarrow> ('v, 'err, DocumentPageDescriptor) reader" where
  "deserialize_DocumentPageDescriptor W v =
     rbind (wf_read_page W (deserialize_PageDisplayGeometry W) v) (\<lambda>(i, n, g, c).
       Inr \<lparr>dpd_page_id = i, dpd_page_index = n, dpd_display_geometry = g, dpd_overlay_canvas_id = c\<rparr>)"

definition deserialize_DocumentDescriptor :: "('v, 'err) wire_format \<Rightarrow> ('v, 'err, DocumentDescriptor) reader" where
  "deserialize_DocumentDescriptor W v =
     rbind (wf_read_document W (deserialize_DocumentPageDescriptor W) v) (\<lambda>fields.
       map_err (wf_custom_document W)
         (case fields of (i, s, ty, a, title, pages) \<Rightarrow> DocumentDescriptor_new i s ty a title pages))"

definition serialize_ContentHash :: "('v, 'err) wire_format \<Rightarrow> ContentHash \<Rightarrow> 'v" where
  "serialize_ContentHash W h = wf_write_str W (hash_str h)"

definition deserialize_ContentHash :: "('v, 'err) wire_format \<Rightarrow> ('v, 'err, ContentHash) reader" where
  "deserialize_ContentHash W v = rbind (wf_read_string W v) (\<lambda>s. map_err (wf_custom_asset W) (ContentHash_parse s))"

definition deserialize_SourceAssetDescriptor ::
  "('v, 'err) wire_format \<Rightarrow> ('v, 'err, SourceAssetDescriptor) reader" where
  "deserialize_SourceAssetDescriptor W v =
     rbind (wf_read_asset W (deserialize_ContentHash W) v) (\<lambda>fields.
       map_err (wf_custom_asset W) (case fields of (i, m, n, h, f) \<Rightarrow> SourceAssetDescriptor_new i m n h f))"

definition deserialize_QueryType :: "('v, 'err) wire_format \<Rightarrow> ('v, 'err, QueryType) reader" where
  "deserialize_QueryType W v = rbind (wf_read_string W v) (\<lambda>s. map_err (wf_custom_query W) (QueryType_new s))"

text \<open>The derived \<open>Serialize\<close> implementations with the implementations of their fields.\<close>

definition serialize_DocumentDescriptor :: "('v, 'err) wire_format \<Rightarrow> DocumentDescriptor \<Rightarrow> 'v" where
  "serialize_DocumentDescriptor W =
     wf_write_document W (wf_write_page W (wf_write_geometry W (serialize_PageRotation W)))"

definition serialize_SourceAssetDescriptor :: "('v, 'err) wire_format \<Rightarrow> SourceAssetDescriptor \<Rightarrow> 'v" where
  "serialize_SourceAssetDescriptor W = wf_write_asset W (serialize_ContentHash W)"


section \<open>Validating constructors\<close>

text \<open>A constructor that accepts exactly the fields of the valid values. What is deserialised through it is valid, and
  every valid value whose fields can be read is accepted.\<close>

locale validated_form =
  fixes construct :: "'f \<Rightarrow> ('e, 'a) result"
    and fields :: "'a \<Rightarrow> 'f"
    and ok :: "'a \<Rightarrow> bool"
  assumes construct_iff: "construct f = Inr x \<longleftrightarrow> f = fields x \<and> ok x"
begin

lemma deserialized: "rbind r (\<lambda>f. map_err custom (construct f)) = Inr x \<longleftrightarrow> r = Inr (fields x) \<and> ok x"
  using construct_iff by (cases r) (auto simp: result_simps)

end

lemma f64_positive: "f64_is_finite a \<Longrightarrow> f64_lt 0 a \<longleftrightarrow> \<not> f64_le a 0"
  using f64_not_lt [of 0 a] by auto

definition point_ok :: "CanvasPoint \<Rightarrow> bool" where
  "point_ok p \<longleftrightarrow> f64_is_finite (pt_x p) \<and> f64_is_finite (pt_y p)"

interpretation point_form: validated_form "\<lambda>f. case f of (x, y) \<Rightarrow> CanvasPoint_new x y" "\<lambda>p. (pt_x p, pt_y p)" point_ok
  by unfold_locales (auto simp: CanvasPoint_new_def point_ok_def split: if_splits)

definition space_ok :: "CanvasSpace \<Rightarrow> bool" where
  "space_ok s \<longleftrightarrow> f64_is_finite (sp_width s) \<and> f64_lt 0 (sp_width s) \<and> f64_is_finite (sp_height s) \<and> f64_lt 0 (sp_height s)"

interpretation space_form: validated_form "\<lambda>f. case f of (w, h) \<Rightarrow> CanvasSpace_new w h" "\<lambda>s. (sp_width s, sp_height s)" space_ok
  by unfold_locales (auto simp: CanvasSpace_new_def space_ok_def f64_positive split: if_splits)

interpretation style_form: validated_form "\<lambda>f. case f of (w, c) \<Rightarrow> StrokeStyle_new w c"
  "\<lambda>s. (style_width s, style_color s)" "\<lambda>s. f64_is_finite (style_width s) \<and> f64_lt 0 (style_width s)"
  by unfold_locales (auto simp: StrokeStyle_new_def f64_positive split: if_splits)

interpretation rotation_form: validated_form from_degrees degrees "\<lambda>_. True"
  by unfold_locales (simp add: rotation_roundtrip)

interpretation geometry_form: validated_form "\<lambda>f. case f of (w, h, r) \<Rightarrow> PageDisplayGeometry_new w h r"
  "\<lambda>g. (pg_width g, pg_height g, pg_rotation g)" geometry_ok
  by unfold_locales (auto simp: geometry_new_Inr)

definition pages_ok :: "DocumentDescriptor \<Rightarrow> bool" where
  "pages_ok d \<longleftrightarrow> trim (dd_title d) \<noteq> [] \<and> dd_pages d \<noteq> []
     \<and> map (\<lambda>p. unat (dpd_page_index p)) (dd_pages d) = [0..<length (dd_pages d)]
     \<and> distinct (map dpd_page_id (dd_pages d)) \<and> distinct (map dpd_overlay_canvas_id (dd_pages d))"

lemma document_ok_pages:
  "document_ok d \<longleftrightarrow> pages_ok d \<and> (\<forall>p \<in> set (dd_pages d). geometry_ok (dpd_display_geometry p))"
  by (auto simp: document_ok_def pages_ok_def)

interpretation document_form: validated_form
  "\<lambda>f. case f of (i, s, ty, a, title, pages) \<Rightarrow> DocumentDescriptor_new i s ty a title pages"
  "\<lambda>d. (dd_document_id d, dd_session_id d, dd_document_type d, dd_source_asset_id d, dd_title d, dd_pages d)" pages_ok
  by unfold_locales (auto simp: document_descriptor_accepts pages_ok_def)

definition asset_names_ok :: "SourceAssetDescriptor \<Rightarrow> bool" where
  "asset_names_ok a \<longleftrightarrow> \<not> blank (sad_media_type a) \<and> (\<forall>name. sad_original_filename a = Some name \<longrightarrow> \<not> blank name)"

interpretation asset_form: validated_form "\<lambda>f. case f of (i, m, n, h, f) \<Rightarrow> SourceAssetDescriptor_new i m n h f"
  "\<lambda>a. (sad_asset_id a, sad_media_type a, sad_byte_length a, sad_content_hash a, sad_original_filename a)" asset_names_ok
  by unfold_locales (auto simp: SourceAssetDescriptor_new_def asset_names_ok_def split: option.splits if_splits)

interpretation query_type_form: validated_form QueryType_new query_type_str
  "\<lambda>t. validate_query_type (query_type_str t) = Inr ()"
proof
  fix s and t :: QueryType
  show "QueryType_new s = Inr t \<longleftrightarrow> s = query_type_str t \<and> validate_query_type (query_type_str t) = Inr ()"
    by (cases t) (auto simp: QueryType_new_def result_simps)
qed

lemmas wire_forms = point_form.deserialized space_form.deserialized style_form.deserialized rotation_form.deserialized
  geometry_form.deserialized document_form.deserialized asset_form.deserialized query_type_form.deserialized

text \<open>The values of the other crates that arrive are valid, whatever the format.\<close>

lemma deserialized_values:
  "deserialize_CanvasPoint W v = Inr p \<Longrightarrow> point_ok p"
  "deserialize_CanvasSpace W v = Inr s \<Longrightarrow> space_ok s"
  "deserialize_StrokeStyle W v = Inr y \<Longrightarrow> f64_is_finite (style_width y) \<and> f64_lt 0 (style_width y)"
  "deserialize_PageDisplayGeometry W v = Inr g \<Longrightarrow> geometry_ok g"
  "deserialize_QueryType W v = Inr t \<Longrightarrow> QueryType_new (query_type_str t) = Inr t"
  unfolding deserialize_CanvasPoint_def deserialize_CanvasSpace_def deserialize_StrokeStyle_def
    deserialize_PageDisplayGeometry_def deserialize_QueryType_def wire_forms
  by (simp_all add: query_type_form.construct_iff)

definition hash_ok :: "ContentHash \<Rightarrow> bool" where
  "hash_ok h \<longleftrightarrow> length (hash_str h) = 64 \<and> list_all (\<lambda>c. is_ascii_hexdigit c \<and> to_ascii_lowercase c = c) (hash_str h)"

lemma to_ascii_lowercase_idem [simp]: "to_ascii_lowercase (to_ascii_lowercase c) = to_ascii_lowercase c"
  by (subst of_char_eq_iff [where ?'a = nat, symmetric]) (simp add: of_char_lowercase del: of_char_eq_iff)

lemma parse_hash_ok: "ContentHash_parse s = Inr h \<Longrightarrow> hash_ok h"
  by (auto simp: ContentHash_parse_def hash_ok_def hash_digits_eq_Inr result_simps list_all_iff split: if_splits)

lemma parse_hash_str: "hash_ok h \<Longrightarrow> ContentHash_parse (hash_str h) = Inr h"
  by (cases h) (auto simp: ContentHash_parse_def hash_ok_def hash_digits_eq_Inr result_simps list_all_iff map_idI)

definition asset_ok :: "SourceAssetDescriptor \<Rightarrow> bool" where
  "asset_ok a \<longleftrightarrow> asset_names_ok a \<and> hash_ok (sad_content_hash a)"


section \<open>What the derived implementations promise\<close>

text \<open>A derived reader obtains the values of its fields from the reader of their type; \<open>part\<close> are the fields of that
  type. A structure that was written is read back if these fields are.\<close>

definition reads_parts ::
  "(('v, 'err, 'b) reader \<Rightarrow> ('v, 'err, 'f) reader) \<Rightarrow> ('f \<Rightarrow> 'b set) \<Rightarrow> bool" where
  "reads_parts derived part \<longleftrightarrow> (\<forall>rd v f. derived rd v = Inr f \<longrightarrow> (\<forall>x \<in> part f. \<exists>v'. rd v' = Inr x))"

definition reads_written ::
  "(('v, 'err, 'b) reader \<Rightarrow> ('v, 'err, 'f) reader) \<Rightarrow> (('b \<Rightarrow> 'v) \<Rightarrow> 'a \<Rightarrow> 'v) \<Rightarrow> ('a \<Rightarrow> 'f) \<Rightarrow> ('f \<Rightarrow> 'b set)
     \<Rightarrow> ('a \<Rightarrow> bool) \<Rightarrow> bool" where
  "reads_written derived write parts_of part ok \<longleftrightarrow>
     (\<forall>rd wr x. ok x \<longrightarrow> (\<forall>y \<in> part (parts_of x). rd (wr y) = Inr y) \<longrightarrow> derived rd (write wr x) = Inr (parts_of x))"

lemma reads_partsD: "reads_parts derived part \<Longrightarrow> derived rd v = Inr f \<Longrightarrow> x \<in> part f \<Longrightarrow> \<exists>v'. rd v' = Inr x"
  unfolding reads_parts_def by (drule spec [of _ rd]) blast

lemma reads_writtenD:
  "reads_written derived write parts_of part ok \<Longrightarrow> ok x \<Longrightarrow> (\<And>y. y \<in> part (parts_of x) \<Longrightarrow> rd (wr y) = Inr y) \<Longrightarrow>
    derived rd (write wr x) = Inr (parts_of x)"
  by (simp add: reads_written_def)

abbreviation geometry_fields :: "PageDisplayGeometry \<Rightarrow> f64 \<times> f64 \<times> PageRotation" where
  "geometry_fields g \<equiv> (pg_width g, pg_height g, pg_rotation g)"

abbreviation page_fields_of :: "DocumentPageDescriptor \<Rightarrow> page_fields" where
  "page_fields_of p \<equiv> (dpd_page_id p, dpd_page_index p, dpd_display_geometry p, dpd_overlay_canvas_id p)"

abbreviation document_fields_of :: "DocumentDescriptor \<Rightarrow> document_fields" where
  "document_fields_of d \<equiv>
     (dd_document_id d, dd_session_id d, dd_document_type d, dd_source_asset_id d, dd_title d, dd_pages d)"

abbreviation asset_fields_of :: "SourceAssetDescriptor \<Rightarrow> asset_fields" where
  "asset_fields_of a \<equiv>
     (sad_asset_id a, sad_media_type a, sad_byte_length a, sad_content_hash a, sad_original_filename a)"

text \<open>The derived readers of the format.\<close>

definition fieldwise :: "('v, 'err) wire_format \<Rightarrow> bool" where
  "fieldwise W \<longleftrightarrow>
     reads_parts (wf_read_page W) (\<lambda>(i, n, g, c). {g})
     \<and> reads_parts (wf_read_document W) (\<lambda>(i, s, ty, a, title, pages). set pages)
     \<and> reads_parts (wf_read_asset W) (\<lambda>(i, m, n, h, f). {h})"

text \<open>The derived writers; numbers have to be finite.\<close>

definition reads_back :: "('v, 'err) wire_format \<Rightarrow> bool" where
  "reads_back W \<longleftrightarrow>
     (\<forall>n. wf_read_u16 W (wf_write_u16 W n) = Inr n) \<and> (\<forall>s. wf_read_string W (wf_write_str W s) = Inr s)
     \<and> reads_written (wf_read_geometry W) (wf_write_geometry W) geometry_fields (\<lambda>(w, h, r). {r})
         (\<lambda>g. f64_is_finite (pg_width g) \<and> f64_is_finite (pg_height g))
     \<and> reads_written (wf_read_page W) (wf_write_page W) page_fields_of (\<lambda>(i, n, g, c). {g}) (\<lambda>_. True)
     \<and> reads_written (wf_read_document W) (wf_write_document W) document_fields_of
         (\<lambda>(i, s, ty, a, title, pages). set pages) (\<lambda>_. True)
     \<and> reads_written (wf_read_asset W) (wf_write_asset W) asset_fields_of (\<lambda>(i, m, n, h, f). {h}) (\<lambda>_. True)"


section \<open>Documents and assets on the wire\<close>

lemma deserialized_document:
  assumes "fieldwise W" "deserialize_DocumentDescriptor W v = Inr d"
  shows "document_ok d"
proof -
  have pages: "reads_parts (wf_read_page W) (\<lambda>(i, n, g, c). {g})"
    "reads_parts (wf_read_document W) (\<lambda>(i, s, ty, a, title, pages). set pages)"
    using assms(1) by (simp_all add: fieldwise_def)
  have read: "wf_read_document W (deserialize_DocumentPageDescriptor W) v = Inr (document_fields_of d)" and ok: "pages_ok d"
    using assms(2) unfolding deserialize_DocumentDescriptor_def wire_forms by simp_all
  have "geometry_ok (dpd_display_geometry p)" if p: "p \<in> set (dd_pages d)" for p
  proof -
    obtain u where "deserialize_DocumentPageDescriptor W u = Inr p"
      using reads_partsD [OF pages(2) read] p by auto
    then have "wf_read_page W (deserialize_PageDisplayGeometry W) u = Inr (page_fields_of p)"
      by (auto simp: deserialize_DocumentPageDescriptor_def result_simps)
    from reads_partsD [OF pages(1) this] show ?thesis using deserialized_values(4) by fastforce
  qed
  with ok show ?thesis by (simp add: document_ok_pages)
qed

lemma document_reads_back:
  assumes "reads_back W" "document_ok d"
  shows "deserialize_DocumentDescriptor W (serialize_DocumentDescriptor W d) = Inr d"
proof -
  let ?geometry = "wf_write_geometry W (serialize_PageRotation W)"
  have written: "reads_written (wf_read_geometry W) (wf_write_geometry W) geometry_fields (\<lambda>(w, h, r). {r})
         (\<lambda>g. f64_is_finite (pg_width g) \<and> f64_is_finite (pg_height g))"
    "reads_written (wf_read_page W) (wf_write_page W) page_fields_of (\<lambda>(i, n, g, c). {g}) (\<lambda>_. True)"
    "reads_written (wf_read_document W) (wf_write_document W) document_fields_of
       (\<lambda>(i, s, ty, a, title, pages). set pages) (\<lambda>_. True)"
    "\<And>n. wf_read_u16 W (wf_write_u16 W n) = Inr n"
    using assms(1) by (simp_all add: reads_back_def)
  have rotation: "deserialize_PageRotation W (serialize_PageRotation W r) = Inr r" for r
    unfolding deserialize_PageRotation_def serialize_PageRotation_def wire_forms by (simp add: written(4))
  have geometry: "deserialize_PageDisplayGeometry W (?geometry g) = Inr g" if "geometry_ok g" for g
    unfolding deserialize_PageDisplayGeometry_def wire_forms
    using reads_writtenD [OF written(1), of g] that rotation by (simp add: geometry_ok_def)
  have page: "deserialize_DocumentPageDescriptor W (wf_write_page W ?geometry p) = Inr p"
    if "geometry_ok (dpd_display_geometry p)" for p :: DocumentPageDescriptor
    using reads_writtenD [OF written(2), of p] geometry [OF that] by (simp add: deserialize_DocumentPageDescriptor_def)
  show ?thesis
    unfolding deserialize_DocumentDescriptor_def serialize_DocumentDescriptor_def wire_forms
    using reads_writtenD [OF written(3), of d] page assms(2) by (simp add: document_ok_pages)
qed

lemma deserialized_asset:
  assumes "fieldwise W" "deserialize_SourceAssetDescriptor W v = Inr a"
  shows "asset_ok a"
proof -
  have read: "wf_read_asset W (deserialize_ContentHash W) v = Inr (asset_fields_of a)" and names: "asset_names_ok a"
    using assms(2) unfolding deserialize_SourceAssetDescriptor_def wire_forms by simp_all
  have "reads_parts (wf_read_asset W) (\<lambda>(i, m, n, h, f). {h})" using assms(1) by (simp add: fieldwise_def)
  from reads_partsD [OF this read] obtain u where "deserialize_ContentHash W u = Inr (sad_content_hash a)" by auto
  then have "hash_ok (sad_content_hash a)" by (auto simp: deserialize_ContentHash_def result_simps intro: parse_hash_ok)
  with names show ?thesis by (simp add: asset_ok_def)
qed

lemma asset_reads_back:
  assumes "reads_back W" "asset_ok a"
  shows "deserialize_SourceAssetDescriptor W (serialize_SourceAssetDescriptor W a) = Inr a"
proof -
  have written: "reads_written (wf_read_asset W) (wf_write_asset W) asset_fields_of (\<lambda>(i, m, n, h, f). {h}) (\<lambda>_. True)"
    "\<And>s. wf_read_string W (wf_write_str W s) = Inr s"
    using assms(1) by (simp_all add: reads_back_def)
  have "deserialize_ContentHash W (serialize_ContentHash W (sad_content_hash a)) = Inr (sad_content_hash a)"
    using assms(2) by (simp add: deserialize_ContentHash_def serialize_ContentHash_def written(2) parse_hash_str asset_ok_def)
  then show ?thesis
    unfolding deserialize_SourceAssetDescriptor_def serialize_SourceAssetDescriptor_def wire_forms
    using reads_writtenD [OF written(1), of a] assms(2) by (simp add: asset_ok_def)
qed

text \<open>A format of trees that keeps every value as it is.\<close>

datatype wire_tree =
    WU16 u16
  | WStr string
  | WGeometry f64 f64 wire_tree
  | WPage PageId u32 wire_tree CanvasId
  | WDocument DocumentId SessionId DocumentType AssetId string "wire_tree list"
  | WAsset AssetId string u64 wire_tree "string option"

primrec read_list :: "('v, 'err, 'a) reader \<Rightarrow> ('v list, 'err, 'a list) reader" where
  "read_list rd [] = Inr []"
| "read_list rd (v # vs) = rbind (rd v) (\<lambda>x. rbind (read_list rd vs) (\<lambda>xs. Inr (x # xs)))"

lemma read_list_parts: "read_list rd vs = Inr xs \<Longrightarrow> x \<in> set xs \<Longrightarrow> \<exists>v. rd v = Inr x"
  by (induction vs arbitrary: xs) (auto simp: result_simps)

lemma read_list_written: "(\<And>x. x \<in> set xs \<Longrightarrow> rd (wr x) = Inr x) \<Longrightarrow> read_list rd (map wr xs) = Inr xs"
  by (induction xs) simp_all

definition tree_format :: "(wire_tree, unit) wire_format" where
  "tree_format =
     \<lparr>wf_custom_canvas = (\<lambda>_. ()), wf_custom_document = (\<lambda>_. ()), wf_custom_asset = (\<lambda>_. ()), wf_custom_query = (\<lambda>_. ()),
      wf_read_u16 = (\<lambda>v. case v of WU16 n \<Rightarrow> Inr n | _ \<Rightarrow> Inl ()),
      wf_read_string = (\<lambda>v. case v of WStr s \<Rightarrow> Inr s | _ \<Rightarrow> Inl ()),
      wf_write_u16 = WU16, wf_write_str = WStr,
      wf_read_point = (\<lambda>_. Inl ()), wf_read_space = (\<lambda>_. Inl ()), wf_read_style = (\<lambda>_. Inl ()),
      wf_read_geometry = (\<lambda>rd v. case v of WGeometry w h r \<Rightarrow> rbind (rd r) (\<lambda>r. Inr (w, h, r)) | _ \<Rightarrow> Inl ()),
      wf_write_geometry = (\<lambda>wr g. WGeometry (pg_width g) (pg_height g) (wr (pg_rotation g))),
      wf_read_page = (\<lambda>rd v. case v of WPage i n g c \<Rightarrow> rbind (rd g) (\<lambda>g. Inr (i, n, g, c)) | _ \<Rightarrow> Inl ()),
      wf_write_page = (\<lambda>wr p. WPage (dpd_page_id p) (dpd_page_index p) (wr (dpd_display_geometry p)) (dpd_overlay_canvas_id p)),
      wf_read_document = (\<lambda>rd v. case v of
          WDocument i s ty a title ps \<Rightarrow> rbind (read_list rd ps) (\<lambda>ps. Inr (i, s, ty, a, title, ps)) | _ \<Rightarrow> Inl ()),
      wf_write_document = (\<lambda>wr d. WDocument (dd_document_id d) (dd_session_id d) (dd_document_type d)
          (dd_source_asset_id d) (dd_title d) (map wr (dd_pages d))),
      wf_read_asset = (\<lambda>rd v. case v of WAsset i m n h f \<Rightarrow> rbind (rd h) (\<lambda>h. Inr (i, m, n, h, f)) | _ \<Rightarrow> Inl ()),
      wf_write_asset = (\<lambda>wr a. WAsset (sad_asset_id a) (sad_media_type a) (sad_byte_length a)
          (wr (sad_content_hash a)) (sad_original_filename a))\<rparr>"

lemma tree_format_fieldwise: "fieldwise tree_format"
  by (auto simp: fieldwise_def reads_parts_def tree_format_def result_simps intro: read_list_parts split: wire_tree.splits)

lemma tree_format_reads_back: "reads_back tree_format"
  by (auto simp: reads_back_def reads_written_def tree_format_def read_list_written)


section \<open>Properties\<close>

text \<open>C23. Nothing invalid comes off the wire, and valid descriptors survive it: in any format whose derived readers take
  each field from the reader of its type and read back what was written, a document descriptor that is deserialised
  has a title, contiguous page indices, distinct pages and canvases and finite positive page sizes, an asset descriptor has a
  media type, no blank file name and a hash of 64 lower-case hexadecimal digits, and every such descriptor is read back as
  itself after it was serialised.\<close>

theorem descriptors_survive_the_wire:
  assumes "fieldwise W" "reads_back W"
  shows "(\<forall>v d. deserialize_DocumentDescriptor W v = Inr d \<longrightarrow> document_ok d)
    \<and> (\<forall>d. document_ok d \<longrightarrow> deserialize_DocumentDescriptor W (serialize_DocumentDescriptor W d) = Inr d)
    \<and> (\<forall>v a. deserialize_SourceAssetDescriptor W v = Inr a \<longrightarrow> asset_ok a)
    \<and> (\<forall>a. asset_ok a \<longrightarrow> deserialize_SourceAssetDescriptor W (serialize_SourceAssetDescriptor W a) = Inr a)"
  using deserialized_document [OF assms(1)] document_reads_back [OF assms(2)]
    deserialized_asset [OF assms(1)] asset_reads_back [OF assms(2)] by blast

lemma small_asset_ok: "asset_ok small_asset"
proof -
  have "trim ''application/pdf'' = ''application/pdf''"
    by (rule trim_fixed; simp add: leading_def white_space_def)
  moreover have "is_ascii_hexdigit CHR ''0''" "to_ascii_lowercase CHR ''0'' = CHR ''0''"
    by (simp_all add: is_ascii_hexdigit_def to_ascii_lowercase_def)
  ultimately show ?thesis
    by (simp add: asset_ok_def asset_names_ok_def small_asset_def blank_def hash_ok_def zero_hash_def list_all_iff)
qed

theorem descriptors_survive_the_wire_witness:
  "deserialize_SourceAssetDescriptor tree_format (serialize_SourceAssetDescriptor tree_format small_asset) = Inr small_asset
   \<and> deserialize_DocumentDescriptor tree_format (serialize_DocumentDescriptor tree_format (dc_document small_composition))
       = Inr (dc_document small_composition)"
proof -
  have "document_ok (dc_document small_composition)"
    using trim_default_title [of Pdf] by (simp add: small_composition_def document_ok_def small_page_def unit_geometry_ok)
  then show ?thesis
    using descriptors_survive_the_wire [OF tree_format_fieldwise tree_format_reads_back] small_asset_ok by blast
qed

end
