(* ===== verification/Core_Text.thy ===== *)
theory Core_Text
  imports Node_Model Sync_Model Transport_Flow Wire_Model
begin

text \<open>
  The textual forms and conversions of the core values: parsing and printing of the identifiers that every crate defines on
  top of \<open>EntityId\<close> (\<open>core/src/id.rs\<close>, \<open>protocol/src/id.rs\<close>, \<open>canvas/src/id.rs\<close>, \<open>document/src/id.rs\<close>, \<open>asset/src/id.rs\<close>,
  \<open>node/src/identity.rs\<close>, \<open>sync/src/subscription.rs\<close>, \<open>transport/src/connection.rs\<close>, \<open>transport/src/subscription.rs\<close>), the
  conversions of \<open>Timestamp\<close> and the text of a \<open>Version\<close>. The crates \<open>uuid\<close> and \<open>time\<close> are parameters.
\<close>

section \<open>Identifiers\<close>

record 'u uuid_crate =
  uuid_parse_str :: "string \<Rightarrow> ('u, 128 word) result"
  uuid_fmt :: "128 word \<Rightarrow> string"

datatype ('u, 't) CoreError = InvalidEntityId 'u | InvalidTimestamp 't

definition EntityId_parse :: "'u uuid_crate \<Rightarrow> string \<Rightarrow> (('u, 't) CoreError, EntityId) result" where
  "EntityId_parse U s = rbind (map_err InvalidEntityId (uuid_parse_str U s)) (\<lambda>w. Inr (EntityId w))"

definition EntityId_to_string :: "'u uuid_crate \<Rightarrow> EntityId \<Rightarrow> string" where
  "EntityId_to_string U e = uuid_fmt U (as_uuid e)"

text \<open>The macros \<open>define_domain_id!\<close>, \<open>define_canvas_id!\<close> and \<open>define_document_id!\<close>, for a constructor and its selector.\<close>

definition domain_id_parse :: "'u uuid_crate \<Rightarrow> (EntityId \<Rightarrow> 'i) \<Rightarrow> string \<Rightarrow> (('u, 't) CoreError, 'i) result" where
  "domain_id_parse U mk s = rbind (EntityId_parse U s) (\<lambda>e. Inr (mk e))"

definition domain_id_to_string :: "'u uuid_crate \<Rightarrow> ('i \<Rightarrow> EntityId) \<Rightarrow> 'i \<Rightarrow> string" where
  "domain_id_to_string U entity_of i = EntityId_to_string U (entity_of i)"

definition canvas_id_parse :: "'u uuid_crate \<Rightarrow> (EntityId \<Rightarrow> 'i) \<Rightarrow> string \<Rightarrow> (('u, 't) CoreError, 'i) result" where
  "canvas_id_parse U mk s = rbind (EntityId_parse U s) (\<lambda>e. Inr (mk e))"

definition canvas_id_to_string :: "'u uuid_crate \<Rightarrow> ('i \<Rightarrow> EntityId) \<Rightarrow> 'i \<Rightarrow> string" where
  "canvas_id_to_string U entity_of i = EntityId_to_string U (entity_of i)"

definition document_id_parse :: "'u uuid_crate \<Rightarrow> (EntityId \<Rightarrow> 'i) \<Rightarrow> string \<Rightarrow> (('u, 't) CoreError, 'i) result" where
  "document_id_parse U mk s = rbind (EntityId_parse U s) (\<lambda>e. Inr (mk e))"

definition document_id_to_string :: "'u uuid_crate \<Rightarrow> ('i \<Rightarrow> EntityId) \<Rightarrow> 'i \<Rightarrow> string" where
  "document_id_to_string U entity_of i = EntityId_to_string U (entity_of i)"

definition AssetId_parse :: "'u uuid_crate \<Rightarrow> string \<Rightarrow> (('u, 't) CoreError, AssetId) result" where
  "AssetId_parse U s = rbind (EntityId_parse U s) (\<lambda>e. Inr (AssetId e))"

definition AssetId_to_string :: "'u uuid_crate \<Rightarrow> AssetId \<Rightarrow> string" where
  "AssetId_to_string U i = (case i of AssetId e \<Rightarrow> EntityId_to_string U e)"

definition NodeId_parse :: "'u uuid_crate \<Rightarrow> string \<Rightarrow> (('u, 't) CoreError, NodeId) result" where
  "NodeId_parse U s = rbind (EntityId_parse U s) (\<lambda>e. Inr (NodeId e))"

definition NodeId_to_string :: "'u uuid_crate \<Rightarrow> NodeId \<Rightarrow> string" where
  "NodeId_to_string U i = (case i of NodeId e \<Rightarrow> EntityId_to_string U e)"

definition SubscriptionId_parse :: "'u uuid_crate \<Rightarrow> string \<Rightarrow> (('u, 't) CoreError, SubscriptionId) result" where
  "SubscriptionId_parse U s = rbind (EntityId_parse U s) (\<lambda>e. Inr (SubscriptionId e))"

definition SubscriptionId_to_string :: "'u uuid_crate \<Rightarrow> SubscriptionId \<Rightarrow> string" where
  "SubscriptionId_to_string U i = (case i of SubscriptionId e \<Rightarrow> EntityId_to_string U e)"

definition ConnectionId_parse :: "'u uuid_crate \<Rightarrow> string \<Rightarrow> (('u, 't) CoreError, ConnectionId) result" where
  "ConnectionId_parse U s = rbind (EntityId_parse U s) (\<lambda>e. Inr (ConnectionId e))"

definition ConnectionId_to_string :: "'u uuid_crate \<Rightarrow> ConnectionId \<Rightarrow> string" where
  "ConnectionId_to_string U i = (case i of ConnectionId e \<Rightarrow> EntityId_to_string U e)"

definition TransportSubscriptionId_parse ::
  "'u uuid_crate \<Rightarrow> string \<Rightarrow> (('u, 't) CoreError, TransportSubscriptionId) result" where
  "TransportSubscriptionId_parse U s = rbind (EntityId_parse U s) (\<lambda>e. Inr (TransportSubscriptionId e))"

definition TransportSubscriptionId_to_string :: "'u uuid_crate \<Rightarrow> TransportSubscriptionId \<Rightarrow> string" where
  "TransportSubscriptionId_to_string U i = (case i of TransportSubscriptionId e \<Rightarrow> EntityId_to_string U e)"

text \<open>A strong identifier wraps an entity identifier and nothing else, so its text is that of the entity identifier.\<close>

locale strong_id =
  fixes parse :: "'u uuid_crate \<Rightarrow> string \<Rightarrow> (('u, 't) CoreError, 'i) result"
    and to_text :: "'u uuid_crate \<Rightarrow> 'i \<Rightarrow> string"
    and as_entity :: "'i \<Rightarrow> EntityId"
  assumes parse_entity: "rbind (parse U s) (\<lambda>i. Inr (as_entity i)) = EntityId_parse U s"
    and text_entity: "to_text U i = EntityId_to_string U (as_entity i)"
    and as_entity_inject: "as_entity i = as_entity j \<Longrightarrow> i = j"
begin

lemma text_roundtrip:
  assumes "\<And>w. uuid_parse_str U (uuid_fmt U w) = Inr w"
  shows "parse U (to_text U i) = Inr i"
proof -
  have "rbind (parse U (to_text U i)) (\<lambda>i. Inr (as_entity i)) = Inr (as_entity i)"
    unfolding parse_entity text_entity by (cases "as_entity i") (simp add: EntityId_parse_def EntityId_to_string_def assms)
  then show ?thesis by (auto simp: result_simps dest: as_entity_inject)
qed

lemma text_inject:
  assumes "\<And>w. uuid_parse_str U (uuid_fmt U w) = Inr w"
  shows "to_text U i = to_text U j \<longleftrightarrow> i = j"
  using text_roundtrip [of U i, OF assms] text_roundtrip [of U j, OF assms] by (metis sum.inject(2))

end

lemmas id_text_defs = domain_id_parse_def domain_id_to_string_def canvas_id_parse_def canvas_id_to_string_def
  document_id_parse_def document_id_to_string_def AssetId_parse_def AssetId_to_string_def NodeId_parse_def
  NodeId_to_string_def SubscriptionId_parse_def SubscriptionId_to_string_def ConnectionId_parse_def
  ConnectionId_to_string_def TransportSubscriptionId_parse_def TransportSubscriptionId_to_string_def

lemma strong_idI:
  assumes "\<And>U s. parse U s = rbind (EntityId_parse U s) (\<lambda>e. Inr (mk e))" "\<And>U i. to_text U i = EntityId_to_string U (as_entity i)"
    "\<And>e. as_entity (mk e) = e" "\<And>i. mk (as_entity i) = i"
  shows "strong_id parse to_text as_entity"
proof
  fix U s
  show "rbind (parse U s) (\<lambda>i. Inr (as_entity i)) = EntityId_parse U s"
    unfolding assms(1) by (simp add: rbind_def assms(3) split: sum.splits)
qed (use assms(2,4) in metis)+

interpretation actor_id: strong_id "\<lambda>U. domain_id_parse U ActorId" "\<lambda>U. domain_id_to_string U (case_ActorId (\<lambda>e. e))"
  "case_ActorId (\<lambda>e. e)"
  by (rule strong_idI [where mk = ActorId]) (simp_all add: id_text_defs split: ActorId.splits)

interpretation session_id: strong_id "\<lambda>U. domain_id_parse U SessionId" "\<lambda>U. domain_id_to_string U (case_SessionId (\<lambda>e. e))"
  "case_SessionId (\<lambda>e. e)"
  by (rule strong_idI [where mk = SessionId]) (simp_all add: id_text_defs split: SessionId.splits)

interpretation action_id: strong_id "\<lambda>U. domain_id_parse U ActionId" "\<lambda>U. domain_id_to_string U (case_ActionId (\<lambda>e. e))"
  "case_ActionId (\<lambda>e. e)"
  by (rule strong_idI [where mk = ActionId]) (simp_all add: id_text_defs split: ActionId.splits)

interpretation event_id: strong_id "\<lambda>U. domain_id_parse U EventId" "\<lambda>U. domain_id_to_string U (case_EventId (\<lambda>e. e))"
  "case_EventId (\<lambda>e. e)"
  by (rule strong_idI [where mk = EventId]) (simp_all add: id_text_defs split: EventId.splits)

interpretation message_id: strong_id "\<lambda>U. domain_id_parse U MessageId" "\<lambda>U. domain_id_to_string U (case_MessageId (\<lambda>e. e))"
  "case_MessageId (\<lambda>e. e)"
  by (rule strong_idI [where mk = MessageId]) (simp_all add: id_text_defs split: MessageId.splits)

interpretation canvas_id: strong_id "\<lambda>U. canvas_id_parse U CanvasId" "\<lambda>U. canvas_id_to_string U (case_CanvasId (\<lambda>e. e))"
  "case_CanvasId (\<lambda>e. e)"
  by (rule strong_idI [where mk = CanvasId]) (simp_all add: id_text_defs split: CanvasId.splits)

interpretation layer_id: strong_id "\<lambda>U. canvas_id_parse U LayerId" "\<lambda>U. canvas_id_to_string U (case_LayerId (\<lambda>e. e))"
  "case_LayerId (\<lambda>e. e)"
  by (rule strong_idI [where mk = LayerId]) (simp_all add: id_text_defs split: LayerId.splits)

interpretation stroke_id: strong_id "\<lambda>U. canvas_id_parse U StrokeId" "\<lambda>U. canvas_id_to_string U (case_StrokeId (\<lambda>e. e))"
  "case_StrokeId (\<lambda>e. e)"
  by (rule strong_idI [where mk = StrokeId]) (simp_all add: id_text_defs split: StrokeId.splits)

interpretation document_id: strong_id "\<lambda>U. document_id_parse U DocumentId" "\<lambda>U. document_id_to_string U (case_DocumentId (\<lambda>e. e))"
  "case_DocumentId (\<lambda>e. e)"
  by (rule strong_idI [where mk = DocumentId]) (simp_all add: id_text_defs split: DocumentId.splits)

interpretation page_id: strong_id "\<lambda>U. document_id_parse U PageId" "\<lambda>U. document_id_to_string U (case_PageId (\<lambda>e. e))"
  "case_PageId (\<lambda>e. e)"
  by (rule strong_idI [where mk = PageId]) (simp_all add: id_text_defs split: PageId.splits)

interpretation asset_id: strong_id AssetId_parse AssetId_to_string "case_AssetId (\<lambda>e. e)"
  by (rule strong_idI [where mk = AssetId]) (simp_all add: id_text_defs split: AssetId.splits)

interpretation node_id: strong_id NodeId_parse NodeId_to_string "case_NodeId (\<lambda>e. e)"
  by (rule strong_idI [where mk = NodeId]) (simp_all add: id_text_defs split: NodeId.splits)

interpretation subscription_id: strong_id SubscriptionId_parse SubscriptionId_to_string "case_SubscriptionId (\<lambda>e. e)"
  by (rule strong_idI [where mk = SubscriptionId]) (simp_all add: id_text_defs split: SubscriptionId.splits)

interpretation connection_id: strong_id ConnectionId_parse ConnectionId_to_string "case_ConnectionId (\<lambda>e. e)"
  by (rule strong_idI [where mk = ConnectionId]) (simp_all add: id_text_defs split: ConnectionId.splits)

interpretation transport_subscription_id: strong_id TransportSubscriptionId_parse TransportSubscriptionId_to_string "case_TransportSubscriptionId (\<lambda>e. e)"
  by (rule strong_idI [where mk = TransportSubscriptionId]) (simp_all add: id_text_defs split: TransportSubscriptionId.splits)


section \<open>Timestamps\<close>

text \<open>\<open>OffsetDateTime\<close> of the crate \<open>time\<close>: the conversion from seconds with its range check, the change of offset, the
  instant it denotes in nanoseconds, and the seconds of an instant.\<close>

record ('t, 'o) time_crate =
  odt_from_unix :: "64 word \<Rightarrow> ('t, 'o) result"
  odt_to_utc :: "'o \<Rightarrow> 'o"
  odt_instant :: "'o \<Rightarrow> int"
  odt_unix :: "int \<Rightarrow> 64 word"

definition Timestamp_from_unix_timestamp ::
  "('t, 'o) time_crate \<Rightarrow> 64 word \<Rightarrow> (('u, 't) CoreError, Timestamp) result" where
  "Timestamp_from_unix_timestamp T seconds =
     rbind (map_err InvalidTimestamp (odt_from_unix T seconds)) (\<lambda>o'. Inr (Timestamp (odt_instant T (odt_to_utc T o'))))"

definition unix_timestamp :: "('t, 'o) time_crate \<Rightarrow> Timestamp \<Rightarrow> 64 word" where
  "unix_timestamp T t = odt_unix T (instant t)"

definition deserialize_Timestamp ::
  "('t, 'o) time_crate \<Rightarrow> ('v, 'err, 'o) reader \<Rightarrow> ('v, 'err, Timestamp) reader" where
  "deserialize_Timestamp T read_odt v = rbind (read_odt v) (\<lambda>o'. Inr (Timestamp (odt_instant T (odt_to_utc T o'))))"

text \<open>Seconds survive the conversion, negative ones too, and so does the order: normalising to UTC keeps the instant.\<close>

lemma unix_timestamp_roundtrip:
  assumes "\<And>o'. odt_instant T (odt_to_utc T o') = odt_instant T o'"
    "\<And>s o'. odt_from_unix T s = Inr o' \<Longrightarrow> odt_instant T o' = sint s * 1000000000"
    "\<And>n. odt_unix T n = word_of_int (n div 1000000000)"
    "Timestamp_from_unix_timestamp T seconds = Inr t"
  shows "unix_timestamp T t = seconds"
  using assms by (auto simp: Timestamp_from_unix_timestamp_def unix_timestamp_def result_simps)

lemma unix_timestamp_order:
  assumes "\<And>o'. odt_instant T (odt_to_utc T o') = odt_instant T o'"
    "\<And>s o'. odt_from_unix T s = Inr o' \<Longrightarrow> odt_instant T o' = sint s * 1000000000"
    "Timestamp_from_unix_timestamp T a = Inr t" "Timestamp_from_unix_timestamp T b = Inr u"
  shows "t \<le> u \<longleftrightarrow> a <=s b"
  using assms by (auto simp: Timestamp_from_unix_timestamp_def result_simps less_eq_Timestamp_def word_sle_eq)


section \<open>Versions\<close>

text \<open>\<open>{}\<close> of an unsigned integer.\<close>

fun decimal :: "nat \<Rightarrow> string" where
  "decimal n = (if n < 10 then [char_of (48 + n)] else decimal (n div 10) @ [char_of (48 + n mod 10)])"

declare decimal.simps [simp del]

definition Version_to_string :: "Version \<Rightarrow> string" where
  "Version_to_string v =
     decimal (unat (major v)) @ ''.'' @ decimal (unat (minor v)) @ ''.'' @ decimal (unat (patch v))"

definition number_of :: "string \<Rightarrow> nat" where
  "number_of s = foldl (\<lambda>n c. 10 * n + (of_char c - 48)) 0 s"

lemma number_of_decimal: "number_of (decimal n) = n"
proof (induction n rule: decimal.induct)
  case (1 n)
  then show ?case by (subst decimal.simps) (simp add: number_of_def of_char_of)
qed

lemma decimal_no_dot: "CHR ''.'' \<notin> set (decimal n)"
proof (induction n rule: decimal.induct)
  case (1 n)
  have "CHR ''.'' \<noteq> char_of (48 + k)" if "k < 10" for k :: nat
  proof
    assume "CHR ''.'' = char_of (48 + k)"
    then have "(of_char CHR ''.'' :: nat) = of_char (char_of (48 + k) :: char)" by simp
    with that show False by (simp add: of_char_of)
  qed
  with 1 show ?case by (subst decimal.simps) simp
qed

lemma before_dot:
  "xs @ CHR ''.'' # xs' = ys @ CHR ''.'' # ys' \<Longrightarrow> CHR ''.'' \<notin> set xs \<Longrightarrow> CHR ''.'' \<notin> set ys \<Longrightarrow> xs = ys \<and> xs' = ys'"
  by (induction xs arbitrary: ys) (case_tac ys; auto)+

text \<open>Different versions have different texts.\<close>

lemma Version_to_string_inject: "Version_to_string v = Version_to_string w \<longleftrightarrow> v = w"
proof
  assume "Version_to_string v = Version_to_string w"
  then have "decimal (unat (major v)) @ CHR ''.'' # (decimal (unat (minor v)) @ CHR ''.'' # decimal (unat (patch v)))
      = decimal (unat (major w)) @ CHR ''.'' # (decimal (unat (minor w)) @ CHR ''.'' # decimal (unat (patch w)))"
    by (simp add: Version_to_string_def)
  from before_dot [OF this decimal_no_dot decimal_no_dot]
  have eq: "decimal (unat (major v)) = decimal (unat (major w))"
    "decimal (unat (minor v)) @ CHR ''.'' # decimal (unat (patch v)) = decimal (unat (minor w)) @ CHR ''.'' # decimal (unat (patch w))"
    by simp_all
  with before_dot [OF eq(2) decimal_no_dot decimal_no_dot]
  have "major v = major w" "minor v = minor w" "patch v = patch w"
    by (metis number_of_decimal word_unat_eq_iff)+
  then show "v = w" by (cases v; cases w) simp
qed simp

end
