(* ===== verification/Pdf_Model.thy ===== *)
theory Pdf_Model
  imports Document_Model
begin

text \<open>
  \<open>orbitrelay-pdf\<close>: the resource limits, the scan for an encryption marker, the walk of the page tree with
  inherited attributes, page geometry, the title and the inspection of bytes and of assets. The PDF syntax itself is
  parsed by the third-party crate \<open>lopdf\<close>: its operations are the record \<open>lopdf\<close>, an argument of the definitions
  that use them; \<open>None\<close> is any of its errors where the code does not look at it. Box arithmetic is IEEE
  arithmetic, computed on exact integers and rounded to nearest even.
\<close>

section \<open>Limits, errors and metadata\<close>

record PdfInspectionLimits =
  max_asset_bytes :: u64
  max_pages :: u32
  max_decompressed_stream_bytes :: u64

definition PdfInspectionLimits_DEFAULT :: PdfInspectionLimits where
  "PdfInspectionLimits_DEFAULT =
     \<lparr>max_asset_bytes = 64 * 1024 * 1024, max_pages = 4096, max_decompressed_stream_bytes = 16 * 1024 * 1024\<rparr>"

datatype PdfError =
    PdfAssetNotFound AssetId
  | PdfAssetUnavailable
  | PdfAssetTooLarge u64 u64
  | ReadFailed
  | InvalidPdf
  | EncryptedUnsupported
  | InvalidPageTree
  | MissingMediaBox u32
  | PdfInvalidPageGeometry u32
  | InvalidRotation u32 "64 word"
  | PageIndexOverflow
  | PageLimitExceeded u32
  | ParserResourceLimitExceeded u64

record PdfPageMetadata =
  ppm_page_index :: u32
  ppm_display_geometry :: PageDisplayGeometry

record PdfDocumentMetadata =
  pdm_asset_id :: AssetId
  pdm_title :: "string option"
  pdm_pages :: "PdfPageMetadata list"


section \<open>The third-party parser\<close>

type_synonym ObjectId = "u32 \<times> u16"

datatype lopdf_error =
    MemoryLimitExceeded
  | InvalidPassword
  | UnsupportedSecurityHandler
  | Decryption
  | OtherError

record ('d, 'o, 't) lopdf =
  load_mem :: "bytes \<Rightarrow> u64 \<Rightarrow> (lopdf_error, 'd) result"
  is_encrypted :: "'d \<Rightarrow> bool"
  was_encrypted :: "'d \<Rightarrow> bool"
  trailer :: "'d \<Rightarrow> 't"
  pdf_catalog :: "'d \<Rightarrow> 't option"
  get_dictionary :: "'d \<Rightarrow> ObjectId \<Rightarrow> 't option"
  dereference :: "'d \<Rightarrow> 'o \<Rightarrow> 'o option"
  dict_get :: "'t \<Rightarrow> string \<Rightarrow> 'o option"
  get_deref :: "'t \<Rightarrow> string \<Rightarrow> 'd \<Rightarrow> 'o option"
  as_reference :: "'o \<Rightarrow> ObjectId option"
  as_name :: "'o \<Rightarrow> string option"
  as_array :: "'o \<Rightarrow> 'o list option"
  as_float :: "'o \<Rightarrow> 32 word option"
  as_i64 :: "'o \<Rightarrow> 64 word option"
  as_dict :: "'o \<Rightarrow> 't option"
  decode_text_string :: "'o \<Rightarrow> string option"


section \<open>Floating-point arithmetic\<close>

text \<open>A finite number is an integer multiple of \<open>2^-1074\<close>; \<open>f64_round\<close> is the nearest number to such a multiple, ties
  to even, and infinity beyond the range. The rounded significand carries into the exponent by itself.\<close>

definition f64_scaled :: "f64 \<Rightarrow> int" where
  "f64_scaled b =
     (let m = (if f64_exponent b = 0 then f64_mantissa b else (2 ^ 52 + f64_mantissa b) * 2 ^ (f64_exponent b - 1))
      in if unat b < 2 ^ 63 then int m else - int m)"

definition f64_infinity_bits :: nat where
  "f64_infinity_bits = 0x7FF * 2 ^ 52"

fun bit_length :: "nat \<Rightarrow> nat" where
  "bit_length n = (if n = 0 then 0 else Suc (bit_length (n div 2)))"

declare bit_length.simps [simp del]

definition f64_round_nat :: "nat \<Rightarrow> nat" where
  "f64_round_nat n =
     (if n < 2 ^ 53 then n
      else
        let k = bit_length n - 53; q = n div 2 ^ k; r = n mod 2 ^ k;
            q' = (if 2 * r > 2 ^ k \<or> 2 * r = 2 ^ k \<and> odd q then q + 1 else q)
        in min (k * 2 ^ 52 + q') f64_infinity_bits)"

definition f64_round :: "int \<Rightarrow> f64" where
  "f64_round z = word_of_nat (f64_round_nat (nat \<bar>z\<bar>) + (if z < 0 then 2 ^ 63 else 0))"

text \<open>Only finite operands occur: \<open>number\<close> filters the others. A difference that vanishes is the positive zero, except for
  the negative zero less the positive one.\<close>

definition f64_sub :: "f64 \<Rightarrow> f64 \<Rightarrow> f64" where
  "f64_sub a b =
     (if a = 0x8000000000000000 \<and> b = 0 then a else f64_round (f64_scaled a - f64_scaled b))"

definition f64_abs :: "f64 \<Rightarrow> f64" where
  "f64_abs a = word_of_nat (unat a mod 2 ^ 63)"

text \<open>\<open>f64::from(f32)\<close>: exact on finite numbers; infinities and NaNs stay what they are.\<close>

definition f64_from_f32 :: "32 word \<Rightarrow> f64" where
  "f64_from_f32 b =
     (let e = unat b div 2 ^ 23 mod 2 ^ 8; m = unat b mod 2 ^ 23; s = unat b div 2 ^ 31 in
      if e = 255 then word_of_nat (s * 2 ^ 63 + f64_infinity_bits + m * 2 ^ 29)
      else let n = (if e = 0 then m else (2 ^ 23 + m) * 2 ^ (e - 1)) * 2 ^ (1074 - 149)
           in word_of_nat (f64_round_nat n + s * 2 ^ 63))"


section \<open>The encryption marker\<close>

definition is_ascii_whitespace :: "u8 \<Rightarrow> bool" where
  "is_ascii_whitespace b \<longleftrightarrow> b \<in> {0x20, 0x09, 0x0A, 0x0C, 0x0D}"

definition ascii :: "string \<Rightarrow> bytes" where
  "ascii s = map of_char s"

function skip_comment :: "bytes \<Rightarrow> nat \<Rightarrow> nat" where
  "skip_comment bytes index =
     (if index < length bytes \<and> bytes ! index \<notin> {0x0D, 0x0A} then skip_comment bytes (index + 1) else index)"
  by pat_completeness auto
termination
  by (relation "measure (\<lambda>(bytes, index). length bytes - index)") auto

declare skip_comment.simps [simp del]

function skip_string_loop :: "bytes \<Rightarrow> nat \<Rightarrow> u32 \<Rightarrow> nat" where
  "skip_string_loop bytes index depth =
     (if \<not> index < length bytes then index
      else if bytes ! index = 0x5C then skip_string_loop bytes (min (index + 2) (length bytes)) depth
      else if bytes ! index = 0x28 then skip_string_loop bytes (index + 1) (depth + 1)
      else if bytes ! index = 0x29 then
        (let depth' = (if depth = 0 then 0 else depth - 1) in
         if depth' = 0 then index + 1 else skip_string_loop bytes (index + 1) depth')
      else skip_string_loop bytes (index + 1) depth)"
  by pat_completeness auto
termination
  by (relation "measure (\<lambda>(bytes, index, depth). length bytes - index)") auto

declare skip_string_loop.simps [simp del]

definition skip_literal_string :: "bytes \<Rightarrow> nat \<Rightarrow> nat" where
  "skip_literal_string bytes index = skip_string_loop bytes index 0"

function skip_hex_loop :: "bytes \<Rightarrow> nat \<Rightarrow> nat" where
  "skip_hex_loop bytes index =
     (if \<not> index < length bytes then index
      else if bytes ! index = 0x3E then index + 1
      else skip_hex_loop bytes (index + 1))"
  by pat_completeness auto
termination
  by (relation "measure (\<lambda>(bytes, index). length bytes - index)") auto

declare skip_hex_loop.simps [simp del]

definition skip_hex_string :: "bytes \<Rightarrow> nat \<Rightarrow> nat" where
  "skip_hex_string bytes index = skip_hex_loop bytes (index + 1)"

definition bytes_get :: "bytes \<Rightarrow> nat \<Rightarrow> u8 option" where
  "bytes_get bytes i = (if i < length bytes then Some (bytes ! i) else None)"

definition encrypt_marker :: bytes where
  "encrypt_marker = ascii ''/Encrypt''"

definition marker_at :: "bytes \<Rightarrow> nat \<Rightarrow> bool" where
  "marker_at bytes index \<longleftrightarrow> take (length encrypt_marker) (drop index bytes) = encrypt_marker"

definition marker_ends :: "bytes \<Rightarrow> nat \<Rightarrow> bool" where
  "marker_ends bytes i =
     is_none_or (bytes_get bytes i) (\<lambda>b. is_ascii_whitespace b \<or> b \<in> set (ascii ''()<>[]{}/%''))"

lemma skip_comment_le: "index \<le> skip_comment bytes index"
proof (induction bytes index rule: skip_comment.induct)
  case (1 bytes index)
  then show ?case by (subst skip_comment.simps) auto
qed

lemma skip_string_loop_le: "index \<le> skip_string_loop bytes index depth"
proof (induction bytes index depth rule: skip_string_loop.induct)
  case (1 bytes index depth)
  then show ?case by (subst skip_string_loop.simps) (auto simp: Let_def)
qed

lemma skip_hex_loop_le: "index \<le> skip_hex_loop bytes index"
proof (induction bytes index rule: skip_hex_loop.induct)
  case (1 bytes index)
  then show ?case by (subst skip_hex_loop.simps) auto
qed

text \<open>Each of the three skips makes progress from the byte that starts it.\<close>

lemma skip_comment_progress: "index < length bytes \<Longrightarrow> bytes ! index = 0x25 \<Longrightarrow> index < skip_comment bytes index"
  using skip_comment_le [of "index + 1" bytes] by (simp add: skip_comment.simps [of bytes index])

lemma skip_literal_progress: "index < length bytes \<Longrightarrow> bytes ! index = 0x28 \<Longrightarrow> index < skip_literal_string bytes index"
  using skip_string_loop_le [of "index + 1" bytes 1]
  by (simp add: skip_literal_string_def skip_string_loop.simps [of bytes index])

lemma skip_hex_progress: "index < skip_hex_string bytes index"
  using skip_hex_loop_le [of "index + 1" bytes] by (simp add: skip_hex_string_def)

function scan_encrypt_marker :: "bytes \<Rightarrow> nat \<Rightarrow> bool" where
  "scan_encrypt_marker bytes index =
     (if \<not> index < length bytes then False
      else if bytes ! index = 0x25 then scan_encrypt_marker bytes (skip_comment bytes index)
      else if bytes ! index = 0x28 then scan_encrypt_marker bytes (skip_literal_string bytes index)
      else if bytes ! index = 0x3C \<and> bytes_get bytes (index + 1) \<noteq> Some 0x3C
      then scan_encrypt_marker bytes (skip_hex_string bytes index)
      else if bytes ! index = 0x2F \<and> marker_at bytes index then
        (if marker_ends bytes (index + length encrypt_marker) then True
         else scan_encrypt_marker bytes (index + 1))
      else scan_encrypt_marker bytes (index + 1))"
  by pat_completeness auto
termination
proof (relation "measure (\<lambda>(bytes, index). length bytes - index)", goal_cases)
  case (2 bytes index)
  then show ?case using skip_comment_progress [of index bytes] by auto
next
  case (3 bytes index)
  then show ?case using skip_literal_progress [of index bytes] by auto
next
  case (4 bytes index)
  then show ?case using skip_hex_progress [of index bytes] by auto
qed auto

declare scan_encrypt_marker.simps [simp del]

definition contains_encrypt_marker :: "bytes \<Rightarrow> bool" where
  "contains_encrypt_marker bytes = scan_encrypt_marker bytes 0"



section \<open>The page tree\<close>

definition PAGE_TREE_DEPTH_LIMIT :: nat where
  "PAGE_TREE_DEPTH_LIMIT = 256"

record 'o InheritedAttributes =
  media_box :: "'o option"
  crop_box :: "'o option"
  rotate_attr :: "'o option"

definition InheritedAttributes_default :: "'o InheritedAttributes" where
  "InheritedAttributes_default = \<lparr>media_box = None, crop_box = None, rotate_attr = None\<rparr>"

record 'o RawPage =
  attributes :: "'o InheritedAttributes"

record 'o PageTreeWalker =
  pages :: "'o RawPage list"
  active :: "ObjectId set"
  seen :: "ObjectId set"

definition inherit :: "('d, 'o, 't) lopdf \<Rightarrow> 't \<Rightarrow> string \<Rightarrow> 'o option \<Rightarrow> 'o option" where
  "inherit L dictionary key slot =
     (case dict_get L dictionary key of Some v \<Rightarrow> Some v | None \<Rightarrow> slot)"

definition effective_attributes ::
  "('d, 'o, 't) lopdf \<Rightarrow> 't \<Rightarrow> 'o InheritedAttributes \<Rightarrow> 'o InheritedAttributes" where
  "effective_attributes L dictionary inherited =
     \<lparr>media_box = inherit L dictionary ''MediaBox'' (media_box inherited),
      crop_box = inherit L dictionary ''CropBox'' (crop_box inherited),
      rotate_attr = inherit L dictionary ''Rotate'' (rotate_attr inherited)\<rparr>"

definition resolve_object :: "('d, 'o, 't) lopdf \<Rightarrow> 'd \<Rightarrow> 'o option \<Rightarrow> 'o option" where
  "resolve_object L D ob = Option.bind ob (dereference L D)"

definition resolve_attributes ::
  "('d, 'o, 't) lopdf \<Rightarrow> 'd \<Rightarrow> 'o InheritedAttributes \<Rightarrow> 'o InheritedAttributes" where
  "resolve_attributes L D a =
     \<lparr>media_box = resolve_object L D (media_box a), crop_box = resolve_object L D (crop_box a),
      rotate_attr = resolve_object L D (rotate_attr a)\<rparr>"

text \<open>\<open>kids.iter().map(as_reference).collect::<Result<Vec<_>, _>>()\<close>\<close>

primrec collect_references :: "('d, 'o, 't) lopdf \<Rightarrow> 'o list \<Rightarrow> ObjectId list option" where
  "collect_references L [] = Some []"
| "collect_references L (k # ks) =
     Option.bind (as_reference L k) (\<lambda>i. Option.bind (collect_references L ks) (\<lambda>is. Some (i # is)))"

text \<open>The node that \<open>visit\<close> finds under an identifier: a page, an inner node with its children, or neither.\<close>

datatype 't tree_node = PageNode 't | PagesNode 't "ObjectId list"

definition read_node :: "('d, 'o, 't) lopdf \<Rightarrow> 'd \<Rightarrow> ObjectId \<Rightarrow> 't tree_node option" where
  "read_node L D i =
     Option.bind (get_dictionary L D i) (\<lambda>dictionary.
     Option.bind (Option.bind (get_deref L dictionary ''Type'' D) (as_name L)) (\<lambda>type_name.
     if type_name = ''Page'' then Some (PageNode dictionary)
     else if type_name = ''Pages'' then
       Option.bind (Option.bind (get_deref L dictionary ''Kids'' D) (as_array L)) (\<lambda>kids.
       if kids = [] then None
       else map_option (PagesNode dictionary) (collect_references L kids))
     else None))"

function visit ::
    "('d, 'o, 't) lopdf \<Rightarrow> 'd \<Rightarrow> PdfInspectionLimits \<Rightarrow> ObjectId \<Rightarrow> 'o InheritedAttributes \<Rightarrow> nat
       \<Rightarrow> 'o PageTreeWalker \<Rightarrow> (PdfError, 'o PageTreeWalker) result"
  and visit_kids ::
    "('d, 'o, 't) lopdf \<Rightarrow> 'd \<Rightarrow> PdfInspectionLimits \<Rightarrow> ObjectId list \<Rightarrow> 'o InheritedAttributes \<Rightarrow> nat
       \<Rightarrow> 'o PageTreeWalker \<Rightarrow> (PdfError, 'o PageTreeWalker) result" where
  "visit L D lim node_id inherited depth s =
     (if depth > PAGE_TREE_DEPTH_LIMIT \<or> node_id \<in> active s \<or> node_id \<in> seen s then Inl InvalidPageTree
      else
        let s1 = s\<lparr>active := insert node_id (active s), seen := insert node_id (seen s)\<rparr> in
        rbind
          (case read_node L D node_id of
             None \<Rightarrow> Inl InvalidPageTree
           | Some (PageNode dictionary) \<Rightarrow>
               if length (pages s1) \<ge> unat (max_pages lim) then Inl (PageLimitExceeded (max_pages lim))
               else Inr (s1\<lparr>pages := pages s1 @
                 [\<lparr>attributes = resolve_attributes L D (effective_attributes L dictionary inherited)\<rparr>]\<rparr>)
           | Some (PagesNode dictionary kid_ids) \<Rightarrow>
               visit_kids L D lim kid_ids (effective_attributes L dictionary inherited) (depth + 1) s1)
          (\<lambda>s2. Inr (s2\<lparr>active := active s2 - {node_id}\<rparr>)))"
| "visit_kids L D lim [] inherited depth s = Inr s"
| "visit_kids L D lim (kid_id # kid_ids) inherited depth s =
     rbind (visit L D lim kid_id inherited depth s) (visit_kids L D lim kid_ids inherited depth)"
  by pat_completeness auto
termination
  by (relation "measures [\<lambda>x. case x of Inl (L, D, lim, i, a, d, s) \<Rightarrow> 258 - d | Inr (L, D, lim, ks, a, d, s) \<Rightarrow> 258 - d,
      \<lambda>x. case x of Inl _ \<Rightarrow> 0 | Inr (L, D, lim, ks, a, d, s) \<Rightarrow> Suc (length ks)]")
    (auto simp: PAGE_TREE_DEPTH_LIMIT_def)

declare visit.simps [simp del]

definition collect_pages ::
  "('d, 'o, 't) lopdf \<Rightarrow> 'd \<Rightarrow> PdfInspectionLimits \<Rightarrow> (PdfError, 'o RawPage list) result" where
  "collect_pages L D lim =
     rbind (ok_or (pdf_catalog L D) InvalidPageTree) (\<lambda>catalog.
     rbind (ok_or (Option.bind (dict_get L catalog ''Pages'') (as_reference L)) InvalidPageTree) (\<lambda>pages_id.
     rbind (visit L D lim pages_id InheritedAttributes_default 0 \<lparr>pages = [], active = {}, seen = {}\<rparr>) (\<lambda>walker.
     Inr (pages walker))))"



section \<open>Geometry and title\<close>

record BoxDimensions =
  box_width :: f64
  box_height :: f64

definition pdf_number :: "('d, 'o, 't) lopdf \<Rightarrow> 'd \<Rightarrow> 'o \<Rightarrow> f64 option" where
  "pdf_number L D ob =
     Option.bind (dereference L D ob) (\<lambda>v.
     Option.bind (as_float L v) (\<lambda>x.
     if f64_is_finite (f64_from_f32 x) then Some (f64_from_f32 x) else None))"

definition parse_box :: "('d, 'o, 't) lopdf \<Rightarrow> 'd \<Rightarrow> 'o \<Rightarrow> BoxDimensions option" where
  "parse_box L D ob =
     Option.bind (as_array L ob) (\<lambda>array.
     if length array \<noteq> 4 then None
     else
       Option.bind (pdf_number L D (array ! 0)) (\<lambda>x0.
       Option.bind (pdf_number L D (array ! 1)) (\<lambda>y0.
       Option.bind (pdf_number L D (array ! 2)) (\<lambda>x1.
       Option.bind (pdf_number L D (array ! 3)) (\<lambda>y1.
       let width = f64_abs (f64_sub x1 x0); height = f64_abs (f64_sub y1 y0) in
       if f64_is_finite width \<and> f64_lt 0 width \<and> f64_is_finite height \<and> f64_lt 0 height
       then Some \<lparr>box_width = width, box_height = height\<rparr>
       else None)))))"

definition parse_rotation :: "('d, 'o, 't) lopdf \<Rightarrow> 'd \<Rightarrow> 'o option \<Rightarrow> u32 \<Rightarrow> (PdfError, PageRotation) result" where
  "parse_rotation L D ob page_index =
     rbind
       (case Option.bind ob (dereference L D) of
          None \<Rightarrow> Inr 0
        | Some v \<Rightarrow> ok_or (as_i64 L v) (InvalidRotation page_index 0))
       (\<lambda>raw.
     let normalized = sint raw mod 360 in
     if normalized mod 90 \<noteq> 0 then Inl (InvalidRotation page_index raw)
     else map_err (\<lambda>_. InvalidRotation page_index raw) (from_degrees (word_of_int normalized)))"

definition page_geometry ::
  "('d, 'o, 't) lopdf \<Rightarrow> 'd \<Rightarrow> 'o RawPage \<Rightarrow> u32 \<Rightarrow> (PdfError, PageDisplayGeometry) result" where
  "page_geometry L D page page_index =
     rbind (ok_or (media_box (attributes page)) (MissingMediaBox page_index)) (\<lambda>mb.
     rbind (ok_or (parse_box L D mb) (PdfInvalidPageGeometry page_index)) (\<lambda>media.
     let visible = (case Option.bind (crop_box (attributes page)) (parse_box L D) of Some b \<Rightarrow> b | None \<Rightarrow> media) in
     rbind (parse_rotation L D (rotate_attr (attributes page)) page_index) (\<lambda>rotation.
     let (width, height) =
       (case rotation of
          Deg0 \<Rightarrow> (box_width visible, box_height visible)
        | Deg180 \<Rightarrow> (box_width visible, box_height visible)
        | Deg90 \<Rightarrow> (box_height visible, box_width visible)
        | Deg270 \<Rightarrow> (box_height visible, box_width visible)) in
     map_err (\<lambda>_. PdfInvalidPageGeometry page_index) (PageDisplayGeometry_new width height rotation))))"

definition extract_title :: "('d, 'o, 't) lopdf \<Rightarrow> 'd \<Rightarrow> string option" where
  "extract_title L D =
     Option.bind (Option.bind (dict_get L (trailer L D) ''Info'') (dereference L D)) (\<lambda>info.
     Option.bind (as_dict L info) (\<lambda>dictionary.
     Option.bind (get_deref L dictionary ''Title'' D) (\<lambda>title.
     Option.bind (decode_text_string L title) (\<lambda>decoded.
     if trim decoded = [] then None else Some (trim decoded)))))"


section \<open>Inspection\<close>

primrec map_parser_error :: "PdfInspectionLimits \<Rightarrow> lopdf_error \<Rightarrow> PdfError" where
  "map_parser_error lim MemoryLimitExceeded = ParserResourceLimitExceeded (max_decompressed_stream_bytes lim)"
| "map_parser_error lim InvalidPassword = EncryptedUnsupported"
| "map_parser_error lim UnsupportedSecurityHandler = EncryptedUnsupported"
| "map_parser_error lim Decryption = EncryptedUnsupported"
| "map_parser_error lim OtherError = InvalidPdf"

primrec page_descriptors ::
  "('d, 'o, 't) lopdf \<Rightarrow> 'd \<Rightarrow> nat \<Rightarrow> 'o RawPage list \<Rightarrow> (PdfError, PdfPageMetadata list) result" where
  "page_descriptors L D index [] = Inr []"
| "page_descriptors L D index (page # rest) =
     rbind (ok_or (u32_of index) PageIndexOverflow) (\<lambda>page_index.
     rbind (page_geometry L D page page_index) (\<lambda>geometry.
     rbind (page_descriptors L D (Suc index) rest) (\<lambda>descriptors.
     Inr (\<lparr>ppm_page_index = page_index, ppm_display_geometry = geometry\<rparr> # descriptors))))"

definition inspect_bytes ::
  "('d, 'o, 't) lopdf \<Rightarrow> AssetId \<Rightarrow> bytes \<Rightarrow> PdfInspectionLimits \<Rightarrow> (PdfError, PdfDocumentMetadata) result" where
  "inspect_bytes L asset_id bytes lim =
     (if contains_encrypt_marker bytes then Inl EncryptedUnsupported
      else
        rbind (map_err (map_parser_error lim) (load_mem L bytes (max_decompressed_stream_bytes lim))) (\<lambda>D.
        if is_encrypted L D \<or> was_encrypted L D then Inl EncryptedUnsupported
        else
          let title = extract_title L D in
          rbind (collect_pages L D lim) (\<lambda>ps.
          if ps = [] then Inl InvalidPageTree
          else
            rbind (page_descriptors L D 0 ps) (\<lambda>descriptors.
            Inr \<lparr>pdm_asset_id = asset_id, pdm_title = title, pdm_pages = descriptors\<rparr>))))"

definition pdf_map_read_error :: "AssetReadAllError \<Rightarrow> AssetId \<Rightarrow> PdfError" where
  "pdf_map_read_error e asset_id =
     (case e of
        AssetNotFound _ \<Rightarrow> PdfAssetNotFound asset_id
      | AssetTooLarge _ len max_bytes \<Rightarrow> PdfAssetTooLarge len max_bytes
      | CatalogUnavailable _ \<Rightarrow> PdfAssetUnavailable
      | ReaderFailure _ \<Rightarrow> ReadFailed
      | AssetLengthOverflow _ _ \<Rightarrow> ReadFailed
      | InvalidChunk _ _ \<Rightarrow> ReadFailed)"

text \<open>\<open>PdfInspector::inspect\<close>: \<open>None\<close> is a panic of the reader.\<close>

definition inspect ::
  "('d, 'o, 't) lopdf \<Rightarrow> 'w asset_ports \<Rightarrow> PdfInspectionLimits \<Rightarrow> AssetId \<Rightarrow> 'w
     \<Rightarrow> ((PdfError, PdfDocumentMetadata) result \<times> 'w) option" where
  "inspect L P lim asset_id w =
     (case ap_get_asset P asset_id w of
        (Inl _, w1) \<Rightarrow> Some (Inl PdfAssetUnavailable, w1)
      | (Inr None, w1) \<Rightarrow> Some (Inl (PdfAssetNotFound asset_id), w1)
      | (Inr (Some descriptor), w1) \<Rightarrow>
          if sad_byte_length descriptor > max_asset_bytes lim
          then Some (Inl (PdfAssetTooLarge (sad_byte_length descriptor) (max_asset_bytes lim)), w1)
          else
            (case read_asset_fully P asset_id (max_asset_bytes lim) w1 of
               None \<Rightarrow> None
             | Some (Inl e, w2) \<Rightarrow> Some (Inl (pdf_map_read_error e asset_id), w2)
             | Some (Inr bytes, w2) \<Rightarrow> Some (inspect_bytes L asset_id bytes lim, w2)))"


section \<open>Rounding is exact on representable numbers\<close>

lemma bit_length_eq: "2 ^ k \<le> n \<Longrightarrow> n < 2 ^ Suc k \<Longrightarrow> bit_length n = Suc k"
proof (induction k arbitrary: n)
  case 0
  then have "n = 1" by simp
  then show ?case by (simp add: bit_length.simps)
next
  case (Suc k)
  have "2 ^ k \<le> n div 2" "n div 2 < 2 ^ Suc k" using Suc.prems by auto
  then have "bit_length (n div 2) = Suc k" by (rule Suc.IH)
  moreover have "n \<noteq> 0" using Suc.prems by (cases n) auto
  ultimately show ?case by (simp add: bit_length.simps [of n])
qed

lemma f64_round_nat_exact:
  assumes "m < 2 ^ 52" "k < 2046"
  shows "f64_round_nat ((2 ^ 52 + m) * 2 ^ k) = Suc k * 2 ^ 52 + m"
proof (cases k)
  case 0
  then show ?thesis using assms by (simp add: f64_round_nat_def)
next
  case (Suc j)
  let ?n = "(2 ^ 52 + m) * 2 ^ k"
  have lo: "2 ^ (52 + k) \<le> ?n" by (simp add: power_add)
  have "?n < 2 ^ 53 * 2 ^ k" using assms(1) by (intro mult_strict_right_mono) auto
  then have hi: "?n < 2 ^ Suc (52 + k)" by (simp add: power_add)
  have len: "bit_length ?n = Suc (52 + k)" using lo hi by (rule bit_length_eq)
  have "(2 :: nat) ^ 53 \<le> 2 ^ (52 + k)" unfolding Suc by (rule power_increasing) auto
  then have big: "\<not> ?n < 2 ^ 53" using lo by linarith
  have "k * 2 ^ 52 + (2 ^ 52 + m) \<le> f64_infinity_bits" using assms by (simp add: f64_infinity_bits_def)
  then show ?thesis using big len by (simp add: f64_round_nat_def Let_def)
qed

text \<open>Every finite number is the rounding of its exact value; so differences of box coordinates that are
  representable are exact.\<close>

lemma f64_round_scaled:
  assumes "f64_is_finite b" "unat b < 2 ^ 63"
  shows "f64_round (f64_scaled b) = b"
proof -
  define e where "e = f64_exponent b"
  define m where "m = f64_mantissa b"
  have m: "m < 2 ^ 52" by (simp add: m_def f64_mantissa_def)
  have e: "unat b div 2 ^ 52 = e" using assms(2) by (simp add: e_def f64_exponent_def div_less_iff_less_mult)
  have bits: "unat b = e * 2 ^ 52 + m"
    using div_mult_mod_eq [of "unat b" "2 ^ 52"] unfolding e m_def f64_mantissa_def by simp
  have bound: "e < 2047" using assms unfolding bits f64_is_finite_def e_def [symmetric] by simp
  have "f64_round_nat (nat \<bar>f64_scaled b\<bar>) = unat b"
  proof (cases e)
    case 0
    then show ?thesis using bits m assms(2)
      by (simp add: f64_scaled_def e_def [symmetric] m_def [symmetric] f64_round_nat_def)
  next
    case (Suc k)
    then have "f64_scaled b = int ((2 ^ 52 + m) * 2 ^ k)"
      using assms(2) by (simp add: f64_scaled_def e_def [symmetric] m_def [symmetric])
    then have "nat \<bar>f64_scaled b\<bar> = (2 ^ 52 + m) * 2 ^ k" by (simp only: abs_of_nat nat_int)
    then show ?thesis using bits Suc f64_round_nat_exact [OF m, of k] bound by simp
  qed
  moreover have "0 \<le> f64_scaled b" using assms(2) by (simp add: f64_scaled_def Let_def)
  ultimately show ?thesis by (simp add: f64_round_def)
qed

text \<open>Subtracting zero from a finite positive number is exact, and so is the conversion of the number 1.\<close>

lemma f64_sub_zero: "f64_is_finite a \<Longrightarrow> unat a < 2 ^ 63 \<Longrightarrow> f64_sub a 0 = a"
  using f64_round_scaled [of a] by (simp add: f64_sub_def f64_scaled_def [of 0] f64_exponent_def f64_mantissa_def)

lemma f64_from_f32_zero: "f64_from_f32 0 = 0"
  by (simp add: f64_from_f32_def f64_round_def f64_round_nat_def)

lemma f64_from_f32_one: "f64_from_f32 0x3F800000 = 0x3FF0000000000000"
proof -
  have one: "f64_is_finite 0x3FF0000000000000" "unat (0x3FF0000000000000 :: f64) < 2 ^ 63"
    by (simp_all add: f64_is_finite_def f64_exponent_def)
  have "f64_from_f32 0x3F800000 = f64_round (f64_scaled 0x3FF0000000000000)"
    by (simp add: f64_from_f32_def f64_round_def f64_scaled_def f64_exponent_def f64_mantissa_def Let_def)
  then show ?thesis using f64_round_scaled [OF one] by simp
qed

end
