(* ===== verification/Pdf_Pages.thy ===== *)
theory Pdf_Pages
  imports Pdf_Model Document_Composition
begin

text \<open>
  The properties of \<open>orbitrelay-pdf\<close>: the page-tree walk is characterised by the declarative notion of a page tree,
  inspected pages are valid, rotations are normalised, encrypted files are refused, and an inspected document can be
  composed.
\<close>

section \<open>Page trees\<close>

text \<open>The identifiers of a page tree in the order of a depth-first traversal and its pages from left to right,
  each with the attributes it has or inherits.\<close>

inductive page_tree ::
    "('d, 'o, 't) lopdf \<Rightarrow> 'd \<Rightarrow> 'o InheritedAttributes \<Rightarrow> nat \<Rightarrow> ObjectId \<Rightarrow> ObjectId list \<Rightarrow> 'o RawPage list \<Rightarrow> bool"
  and page_forest ::
    "('d, 'o, 't) lopdf \<Rightarrow> 'd \<Rightarrow> 'o InheritedAttributes \<Rightarrow> nat \<Rightarrow> ObjectId list \<Rightarrow> ObjectId list \<Rightarrow> 'o RawPage list \<Rightarrow> bool"
  for L D where
  page: "read_node L D i = Some (PageNode t) \<Longrightarrow> depth \<le> PAGE_TREE_DEPTH_LIMIT
    \<Longrightarrow> page_tree L D a depth i [i] [\<lparr>attributes = resolve_attributes L D (effective_attributes L t a)\<rparr>]"
| inner: "read_node L D i = Some (PagesNode t kids) \<Longrightarrow> depth \<le> PAGE_TREE_DEPTH_LIMIT
    \<Longrightarrow> page_forest L D (effective_attributes L t a) (depth + 1) kids ids ps \<Longrightarrow> page_tree L D a depth i (i # ids) ps"
| empty: "page_forest L D a depth [] [] []"
| more: "page_tree L D a depth k ids ps \<Longrightarrow> page_forest L D a depth ks ids' ps'
    \<Longrightarrow> page_forest L D a depth (k # ks) (ids @ ids') (ps @ ps')"

inductive_simps page_forest_Nil [simp]: "page_forest L D a depth [] ids ps"
inductive_simps page_forest_Cons: "page_forest L D a depth (k # ks) ids ps"
inductive_simps page_tree_unfold: "page_tree L D a depth i ids ps"

lemma read_node_kids: "read_node L D i = Some (PagesNode t kids) \<Longrightarrow> kids \<noteq> []"
proof
  assume read: "read_node L D i = Some (PagesNode t kids)" and "kids = []"
  then obtain ks where "ks \<noteq> []" "collect_references L ks = Some []"
    by (auto simp: read_node_def bind_eq_Some_conv split: if_splits)
  then show False by (cases ks) (auto simp: bind_eq_Some_conv)
qed

lemma page_tree_has_page:
  "page_tree L D a depth i ids ps \<Longrightarrow> ps \<noteq> []"
  "page_forest L D a depth ks ids ps \<Longrightarrow> ks \<noteq> [] \<longrightarrow> ps \<noteq> []"
  by (induction rule: page_tree_page_forest.inducts) (auto dest: read_node_kids)

text \<open>One visit, by the kind of the node.\<close>

lemma visit_Inr_fresh:
  "visit L D lim i a depth s = Inr s' \<Longrightarrow> depth \<le> PAGE_TREE_DEPTH_LIMIT \<and> i \<notin> active s \<and> i \<notin> seen s \<and> read_node L D i \<noteq> None"
  by (cases "read_node L D i") (auto simp: visit.simps [of L D lim i] Let_def split: if_splits)

lemma visit_PageNode:
  assumes "read_node L D i = Some (PageNode t)" "depth \<le> PAGE_TREE_DEPTH_LIMIT" "i \<notin> active s" "i \<notin> seen s"
  shows "visit L D lim i a depth s =
    (if length (pages s) \<ge> unat (max_pages lim) then Inl (PageLimitExceeded (max_pages lim))
     else Inr (s\<lparr>pages := pages s @ [\<lparr>attributes = resolve_attributes L D (effective_attributes L t a)\<rparr>],
            seen := insert i (seen s)\<rparr>))"
  using assms by (cases s) (simp add: visit.simps Let_def)

lemma visit_PagesNode:
  assumes "read_node L D i = Some (PagesNode t kids)" "depth \<le> PAGE_TREE_DEPTH_LIMIT" "i \<notin> active s" "i \<notin> seen s"
  shows "visit L D lim i a depth s =
    rbind (visit_kids L D lim kids (effective_attributes L t a) (depth + 1)
             (s\<lparr>active := insert i (active s), seen := insert i (seen s)\<rparr>))
      (\<lambda>s2. Inr (s2\<lparr>active := active s2 - {i}\<rparr>))"
  using assms by (simp add: visit.simps [of L D lim i] Let_def)

text \<open>The walk is sound: what it visits is a page tree without repetitions, within the page limit, and it appends
  exactly its pages; the set of active nodes is restored.\<close>

lemma visit_sound:
  "visit L D lim i a depth s = Inr s' \<Longrightarrow>
    \<exists>ids ps. page_tree L D a depth i ids ps \<and> distinct ids \<and> set ids \<inter> seen s = {} \<and> set ids \<inter> active s = {}
      \<and> length (pages s @ ps) \<le> unat (max_pages lim)
      \<and> s' = s\<lparr>pages := pages s @ ps, seen := seen s \<union> set ids\<rparr>"
  "visit_kids L D lim ks a depth s = Inr s' \<Longrightarrow>
    \<exists>ids ps. page_forest L D a depth ks ids ps \<and> distinct ids \<and> set ids \<inter> seen s = {} \<and> set ids \<inter> active s = {}
      \<and> (ks \<noteq> [] \<longrightarrow> length (pages s @ ps) \<le> unat (max_pages lim))
      \<and> s' = s\<lparr>pages := pages s @ ps, seen := seen s \<union> set ids\<rparr>"
proof (induction L D lim i a depth s and L D lim ks a depth s arbitrary: s' and s' rule: visit_visit_kids.induct)
  case (1 L D lim i a depth s)
  define s1 where "s1 = s\<lparr>active := insert i (active s), seen := insert i (seen s)\<rparr>"
  have fresh: "depth \<le> PAGE_TREE_DEPTH_LIMIT" "i \<notin> active s" "i \<notin> seen s"
    using visit_Inr_fresh [OF 1(2)] by simp_all
  obtain n where n: "read_node L D i = Some n" using visit_Inr_fresh [OF 1(2)] by blast
  show ?case
  proof (cases n)
    case (PageNode t)
    then show ?thesis
      using 1(2) visit_PageNode [OF n [unfolded PageNode] fresh] page [OF n [unfolded PageNode] fresh(1), of a] fresh
      by (intro exI [of _ "[i]"] exI [of _ "[\<lparr>attributes = resolve_attributes L D (effective_attributes L t a)\<rparr>]"])
        (auto split: if_splits)
  next
    case (PagesNode t kids)
    obtain s2 where s2: "visit_kids L D lim kids (effective_attributes L t a) (depth + 1) s1 = Inr s2"
      "s' = s2\<lparr>active := active s2 - {i}\<rparr>"
      using 1(2) visit_PagesNode [OF n [unfolded PagesNode] fresh] by (auto simp: s1_def result_simps)
    obtain ids ps where forest: "page_forest L D (effective_attributes L t a) (depth + 1) kids ids ps"
      "distinct ids" "set ids \<inter> seen s1 = {}" "set ids \<inter> active s1 = {}"
      "length (pages s1 @ ps) \<le> unat (max_pages lim)" "s2 = s1\<lparr>pages := pages s1 @ ps, seen := seen s1 \<union> set ids\<rparr>"
      using 1(1) [OF _ s1_def n PagesNode s2(1)] fresh read_node_kids [OF n [unfolded PagesNode]] by auto
    have "s' = s\<lparr>pages := pages s @ ps, seen := seen s \<union> set (i # ids)\<rparr>"
      using s2(2) forest(6) fresh by (cases s) (auto simp: s1_def)
    then show ?thesis using inner [OF n [unfolded PagesNode] fresh(1) forest(1)] forest fresh
      by (intro exI [of _ "i # ids"] exI [of _ ps]) (auto simp: s1_def)
  qed
next
  case (2 L D lim a depth s)
  then show ?case by auto
next
  case (3 L D lim k ks a depth s)
  then obtain s1 where s1: "visit L D lim k a depth s = Inr s1" "visit_kids L D lim ks a depth s1 = Inr s'"
    by (auto simp: result_simps)
  obtain ids ps where tree: "page_tree L D a depth k ids ps" "distinct ids" "set ids \<inter> seen s = {}"
    "set ids \<inter> active s = {}" "length (pages s @ ps) \<le> unat (max_pages lim)"
    "s1 = s\<lparr>pages := pages s @ ps, seen := seen s \<union> set ids\<rparr>"
    using 3(1) [OF s1(1)] by auto
  obtain ids' ps' where rest: "page_forest L D a depth ks ids' ps'" "distinct ids'" "set ids' \<inter> seen s1 = {}"
    "set ids' \<inter> active s1 = {}" "ks \<noteq> [] \<longrightarrow> length (pages s1 @ ps') \<le> unat (max_pages lim)"
    "s' = s1\<lparr>pages := pages s1 @ ps', seen := seen s1 \<union> set ids'\<rparr>"
    using 3(2) [OF s1(2)] by auto
  have "length (pages s @ (ps @ ps')) \<le> unat (max_pages lim)"
    using tree(5,6) rest(1,5) by (cases "ks = []") auto
  then show ?case using more [OF tree(1) rest(1)] tree rest
    by (intro exI [of _ "ids @ ids'"] exI [of _ "ps @ ps'"]) (auto simp: Un_assoc)
qed


text \<open>It is complete: a page tree without repetitions within the limits is walked successfully.\<close>

lemma visit_complete:
  "page_tree L D a depth i ids ps \<Longrightarrow>
    \<forall>s. distinct ids \<and> set ids \<inter> seen s = {} \<and> set ids \<inter> active s = {} \<and> length (pages s @ ps) \<le> unat (max_pages lim)
      \<longrightarrow> visit L D lim i a depth s = Inr (s\<lparr>pages := pages s @ ps, seen := seen s \<union> set ids\<rparr>)"
  "page_forest L D a depth ks ids ps \<Longrightarrow>
    \<forall>s. distinct ids \<and> set ids \<inter> seen s = {} \<and> set ids \<inter> active s = {} \<and> length (pages s @ ps) \<le> unat (max_pages lim)
      \<longrightarrow> visit_kids L D lim ks a depth s = Inr (s\<lparr>pages := pages s @ ps, seen := seen s \<union> set ids\<rparr>)"
proof (induction rule: page_tree_page_forest.inducts)
  case (page i t depth a)
  then show ?case by (auto simp: visit_PageNode)
next
  case (inner i t kids depth a ids ps)
  show ?case
  proof (intro allI impI)
    fix s :: "'b PageTreeWalker"
    assume s: "distinct (i # ids) \<and> set (i # ids) \<inter> seen s = {} \<and> set (i # ids) \<inter> active s = {}
      \<and> length (pages s @ ps) \<le> unat (max_pages lim)"
    define s1 where "s1 = s\<lparr>active := insert i (active s), seen := insert i (seen s)\<rparr>"
    have "visit_kids L D lim kids (effective_attributes L t a) (depth + 1) s1 =
        Inr (s1\<lparr>pages := pages s1 @ ps, seen := seen s1 \<union> set ids\<rparr>)"
      using spec [OF inner.IH(3), of s1] s by (auto simp: s1_def)
    then show "visit L D lim i a depth s = Inr (s\<lparr>pages := pages s @ ps, seen := seen s \<union> set (i # ids)\<rparr>)"
      using s visit_PagesNode [OF inner.IH(1) inner.hyps] by (cases s) (auto simp: s1_def)
  qed
next
  case (empty a depth)
  then show ?case by (auto simp: visit.simps)
next
  case (more a depth k ids ps ks ids' ps')
  show ?case
  proof (intro allI impI)
    fix s :: "'b PageTreeWalker"
    assume s: "distinct (ids @ ids') \<and> set (ids @ ids') \<inter> seen s = {} \<and> set (ids @ ids') \<inter> active s = {}
      \<and> length (pages s @ ps @ ps') \<le> unat (max_pages lim)"
    define s1 where "s1 = s\<lparr>pages := pages s @ ps, seen := seen s \<union> set ids\<rparr>"
    have "visit L D lim k a depth s = Inr s1"
      using spec [OF more.IH(2), of s] s by (auto simp: s1_def)
    moreover have "visit_kids L D lim ks a depth s1 = Inr (s1\<lparr>pages := pages s1 @ ps', seen := seen s1 \<union> set ids'\<rparr>)"
      using spec [OF more.IH(4), of s1] s by (auto simp: s1_def)
    ultimately show "visit_kids L D lim (k # ks) a depth s =
        Inr (s\<lparr>pages := pages s @ ps @ ps', seen := seen s \<union> set (ids @ ids')\<rparr>)"
      by (auto simp: s1_def visit.simps Un_assoc)
  qed
qed

text \<open>C10. Collecting the pages of a parsed file succeeds exactly if the catalog refers to the root of a page tree in
  which no node occurs twice, no node is deeper than the depth limit and there are at most as many pages as allowed;
  the result is then the list of its pages from left to right, each with the attributes it has itself or inherits
  from its nearest ancestor that has them. Shared and cyclic page trees are refused.\<close>

theorem collect_pages_exact:
  "collect_pages L D lim = Inr ps \<longleftrightarrow>
     (\<exists>t ob root ids. pdf_catalog L D = Some t \<and> dict_get L t ''Pages'' = Some ob \<and> as_reference L ob = Some root
        \<and> page_tree L D InheritedAttributes_default 0 root ids ps \<and> distinct ids
        \<and> length ps \<le> unat (max_pages lim))"
  (is "?runs \<longleftrightarrow> ?tree")
proof
  assume ?runs
  then obtain t ob root w where run: "pdf_catalog L D = Some t" "dict_get L t ''Pages'' = Some ob"
    "as_reference L ob = Some root" "ps = pages w"
    "visit L D lim root InheritedAttributes_default 0 \<lparr>pages = [], active = {}, seen = {}\<rparr> = Inr w"
    by (auto simp: collect_pages_def result_simps bind_eq_Some_conv)
  obtain ids where "page_tree L D InheritedAttributes_default 0 root ids ps" "distinct ids"
    "length ps \<le> unat (max_pages lim)"
    using visit_sound(1) [OF run(5)] run(4) by auto
  with run show ?tree by blast
next
  assume ?tree
  then obtain t ob root ids where tree: "pdf_catalog L D = Some t" "dict_get L t ''Pages'' = Some ob"
    "as_reference L ob = Some root" "page_tree L D InheritedAttributes_default 0 root ids ps" "distinct ids"
    "length ps \<le> unat (max_pages lim)"
    by blast
  have "visit L D lim root InheritedAttributes_default 0 \<lparr>pages = [], active = {}, seen = {}\<rparr>
      = Inr \<lparr>pages = ps, active = {}, seen = set ids\<rparr>"
    using spec [OF visit_complete(1) [OF tree(4), of lim], of "\<lparr>pages = [], active = {}, seen = {}\<rparr>"] tree(5,6)
    by auto
  then show ?runs using tree by (simp add: collect_pages_def)
qed



section \<open>Rotation and geometry\<close>

lemma quarter_turns: "(0 :: int) \<le> n \<Longrightarrow> n < 360 \<Longrightarrow> n mod 90 = 0 \<longleftrightarrow> n \<in> {0, 90, 180, 270}"
  by (auto simp: mod_eq_0_iff_dvd dvd_def)

lemma from_quarter_turn:
  assumes "0 \<le> n" "n < 360"
  shows "n mod 90 = 0 \<and> from_degrees (word_of_int n) = Inr r \<longleftrightarrow> n = int (unat (degrees r))"
  using quarter_turns [OF assms] by (cases r) (auto simp: from_degrees_def)

text \<open>The rotation of a page is its \<open>Rotate\<close> entry, resolved through references and reduced modulo 360, for any
  64-bit number including negative ones; it is accepted exactly for multiples of 90 degrees, and a page without a
  resolvable entry is not rotated.\<close>

theorem rotation_normalised:
  "parse_rotation L D ob k = Inr r \<longleftrightarrow>
     (\<exists>raw. (case Option.bind ob (dereference L D) of None \<Rightarrow> raw = 0 | Some v \<Rightarrow> as_i64 L v = Some raw)
        \<and> sint raw mod 360 = int (unat (degrees r)))"
proof -
  have "(let n = sint raw mod 360 in if n mod 90 \<noteq> 0 then Inl (InvalidRotation k raw)
       else map_err (\<lambda>_. InvalidRotation k raw) (from_degrees (word_of_int n))) = Inr r
     \<longleftrightarrow> sint raw mod 360 = int (unat (degrees r))" for raw :: "64 word"
    using from_quarter_turn [of "sint raw mod 360" r] by (auto simp: Let_def)
  then show ?thesis
    unfolding parse_rotation_def by (auto simp: result_simps split: option.splits)
qed

lemma page_geometry_ok: "page_geometry L D p k = Inr g \<Longrightarrow> geometry_ok g"
  by (auto simp: page_geometry_def result_simps Let_def geometry_new_Inr case_prod_beta)

lemma page_descriptors_ok:
  "page_descriptors L D n ps = Inr ds \<Longrightarrow>
     map (\<lambda>d. unat (ppm_page_index d)) ds = [n..<n + length ps] \<and> list_all (\<lambda>d. geometry_ok (ppm_display_geometry d)) ds"
proof (induction ps arbitrary: n ds)
  case Nil
  then show ?case by simp
next
  case (Cons p ps)
  have upt: "[n..<n + length (p # ps)] = n # [Suc n..<Suc n + length ps]"
    by (subst upt_conv_Cons) (auto simp del: upt_Suc)
  from Cons.prems obtain k g ds' where "u32_of n = Some k" "page_geometry L D p k = Inr g"
    "page_descriptors L D (Suc n) ps = Inr ds'" "ds = \<lparr>ppm_page_index = k, ppm_display_geometry = g\<rparr> # ds'"
    by (auto simp: result_simps)
  then show ?case unfolding upt using Cons.IH [of "Suc n" ds'] page_geometry_ok by (auto simp: u32_of_Some)
qed


section \<open>Inspected documents\<close>

definition source_page :: "PdfPageMetadata \<Rightarrow> DocumentSourcePage" where
  "source_page p = \<lparr>dsp_page_index = ppm_page_index p, dsp_display_geometry = ppm_display_geometry p\<rparr>"

definition metadata_ok :: "PdfInspectionLimits \<Rightarrow> PdfDocumentMetadata \<Rightarrow> bool" where
  "metadata_ok lim md \<longleftrightarrow>
     pdm_pages md \<noteq> [] \<and> length (pdm_pages md) \<le> unat (max_pages lim)
     \<and> map (\<lambda>p. unat (ppm_page_index p)) (pdm_pages md) = [0..<length (pdm_pages md)]
     \<and> list_all (\<lambda>p. geometry_ok (ppm_display_geometry p)) (pdm_pages md)
     \<and> (case pdm_title md of None \<Rightarrow> True | Some t \<Rightarrow> t \<noteq> [] \<and> trim t = t)"

lemma collect_pages_bound: "collect_pages L D lim = Inr ps \<Longrightarrow> length ps \<le> unat (max_pages lim)"
  using visit_sound(1) by (fastforce simp: collect_pages_def result_simps)

lemma inspect_bytes_Inr:
  assumes "inspect_bytes L i bs lim = Inr md"
  shows "metadata_ok lim md" "pdm_asset_id md = i" "\<not> contains_encrypt_marker bs"
    "\<exists>D. load_mem L bs (max_decompressed_stream_bytes lim) = Inr D \<and> \<not> is_encrypted L D \<and> \<not> was_encrypted L D"
proof -
  obtain D ps ds where run: "\<not> contains_encrypt_marker bs"
    "load_mem L bs (max_decompressed_stream_bytes lim) = Inr D" "\<not> is_encrypted L D" "\<not> was_encrypted L D"
    "collect_pages L D lim = Inr ps" "ps \<noteq> []" "page_descriptors L D 0 ps = Inr ds"
    "md = \<lparr>pdm_asset_id = i, pdm_title = extract_title L D, pdm_pages = ds\<rparr>"
    using assms by (auto simp: inspect_bytes_def Let_def result_simps split: if_splits)
  have ds: "map (\<lambda>d. unat (ppm_page_index d)) ds = [0..<length ps]" "list_all (\<lambda>d. geometry_ok (ppm_display_geometry d)) ds"
    using page_descriptors_ok [OF run(7)] by simp_all
  have "length ds = length ps" using arg_cong [OF ds(1), of length] by simp
  moreover have "extract_title L D = Some t \<Longrightarrow> t \<noteq> [] \<and> trim t = t" for t
    by (auto simp: extract_title_def bind_eq_Some_conv split: if_splits)
  ultimately show "metadata_ok lim md"
    using run(6,8) ds collect_pages_bound [OF run(5)] by (auto simp: metadata_ok_def split: option.splits)
  show "pdm_asset_id md = i" "\<not> contains_encrypt_marker bs"
    "\<exists>D. load_mem L bs (max_decompressed_stream_bytes lim) = Inr D \<and> \<not> is_encrypted L D \<and> \<not> was_encrypted L D"
    using run by auto
qed

text \<open>C22. Whatever the parser returns for the bytes of a file, the metadata an inspection delivers is well formed: at
  least one page and no more than allowed, indexed \<open>0, 1, 2, ...\<close> in order, every page with a finite positive size, a
  title that is trimmed and not blank if there is one; and the bytes passed the marker scan and were parsed to a
  document that is not and was not encrypted. Such metadata is always accepted as the input of a composition.\<close>

theorem inspected_metadata_wellformed:
  assumes "inspect_bytes L i bs lim = Inr md"
  shows "metadata_ok lim md \<and> pdm_asset_id md = i \<and> \<not> contains_encrypt_marker bs
    \<and> (\<exists>D. load_mem L bs (max_decompressed_stream_bytes lim) = Inr D \<and> \<not> is_encrypted L D \<and> \<not> was_encrypted L D)
    \<and> (\<exists>input. DocumentComposeInput_new s Pdf asset (pdm_title md) (map source_page (pdm_pages md)) = Inr input)"
proof -
  have "metadata_ok lim md" using inspect_bytes_Inr [OF assms] by simp
  then have "\<exists>input. DocumentComposeInput_new s Pdf asset (pdm_title md) (map source_page (pdm_pages md)) = Inr input"
    by (auto simp: compose_input_Inr metadata_ok_def source_page_def comp_def)
  then show ?thesis using inspect_bytes_Inr [OF assms] by blast
qed

lemma inspect_accepted:
  assumes "insert_verified digest d bs (insert_all digest before Map.empty) = (Inr oc, m)"
  shows "inspect L memory_asset_ports lim (sad_asset_id d) (insert_all digest later m) =
    Some (if sad_byte_length d > max_asset_bytes lim
          then Inl (PdfAssetTooLarge (sad_byte_length d) (max_asset_bytes lim))
          else inspect_bytes L (sad_asset_id d) bs lim, insert_all digest later m)"
proof -
  have "ap_get_asset memory_asset_ports (sad_asset_id d) (insert_all digest later m) = (Inr (Some d), insert_all digest later m)"
    using accepted_asset(2) [OF assms, of later] by (simp add: memory_asset_ports_def get_asset_def)
  then show ?thesis
    using accepted_asset_reads [OF assms, of "max_asset_bytes lim" later] by (simp add: inspect_def)
qed

text \<open>Inspecting a stored asset inspects exactly the bytes that were stored. After an accepted insertion in the
  in-memory store and any further insertion attempts, the inspector reports the asset as too large, without reading
  it, if it exceeds the limit, and otherwise returns the result of inspecting the inserted bytes; it never panics.\<close>

theorem inspector_reads_stored_bytes:
  assumes "insert_verified digest d bs (insert_all digest before Map.empty) = (Inr oc, m)"
  shows "inspect L memory_asset_ports lim (sad_asset_id d) (insert_all digest later m) =
    Some (if sad_byte_length d > max_asset_bytes lim
          then Inl (PdfAssetTooLarge (sad_byte_length d) (max_asset_bytes lim))
          else inspect_bytes L (sad_asset_id d) bs lim, insert_all digest later m)"
  by (rule inspect_accepted [OF assms])


section \<open>A one-page file\<close>

text \<open>A parser that returns, for any bytes, a file with one page that inherits its box and its rotation.\<close>

datatype toy_object =
    TRef ObjectId | TName string | TArr "toy_object list" | TReal "32 word" | TInt "64 word"

definition toy_file :: "ObjectId \<rightharpoonup> (string \<rightharpoonup> toy_object)" where
  "toy_file =
     [(1, 0) \<mapsto> [''Pages'' \<mapsto> TRef (2, 0)],
      (2, 0) \<mapsto> [''Type'' \<mapsto> TName ''Pages'', ''Kids'' \<mapsto> TArr [TRef (3, 0)],
               ''MediaBox'' \<mapsto> TArr [TReal 0, TReal 0, TReal 0x3F800000, TReal 0x3F800000], ''Rotate'' \<mapsto> TInt (- 90)],
      (3, 0) \<mapsto> [''Type'' \<mapsto> TName ''Page'']]"

definition toy_lopdf :: "(ObjectId \<rightharpoonup> (string \<rightharpoonup> toy_object), toy_object, string \<rightharpoonup> toy_object) lopdf" where
  "toy_lopdf =
     \<lparr>load_mem = (\<lambda>_ _. Inr toy_file), is_encrypted = (\<lambda>_. False), was_encrypted = (\<lambda>_. False),
      trailer = (\<lambda>_. Map.empty), pdf_catalog = (\<lambda>f. f (1, 0)), get_dictionary = (\<lambda>f i. f i),
      dereference = (\<lambda>_ ob. Some ob), dict_get = (\<lambda>t k. t k), get_deref = (\<lambda>t k _. t k),
      as_reference = (\<lambda>ob. case ob of TRef i \<Rightarrow> Some i | _ \<Rightarrow> None),
      as_name = (\<lambda>ob. case ob of TName s \<Rightarrow> Some s | _ \<Rightarrow> None),
      as_array = (\<lambda>ob. case ob of TArr xs \<Rightarrow> Some xs | _ \<Rightarrow> None),
      as_float = (\<lambda>ob. case ob of TReal x \<Rightarrow> Some x | _ \<Rightarrow> None),
      as_i64 = (\<lambda>ob. case ob of TInt x \<Rightarrow> Some x | _ \<Rightarrow> None),
      as_dict = (\<lambda>_. None), decode_text_string = (\<lambda>_. None)\<rparr>"

definition toy_attributes :: "toy_object InheritedAttributes" where
  "toy_attributes = \<lparr>media_box = Some (TArr [TReal 0, TReal 0, TReal 0x3F800000, TReal 0x3F800000]), crop_box = None,
     rotate_attr = Some (TInt (- 90))\<rparr>"

lemma toy_pages: "collect_pages toy_lopdf toy_file PdfInspectionLimits_DEFAULT = Inr [\<lparr>attributes = toy_attributes\<rparr>]"
proof -
  have nodes: "read_node toy_lopdf toy_file (2, 0) = Some (PagesNode (the (toy_file (2, 0))) [(3, 0)])"
    "read_node toy_lopdf toy_file (3, 0) = Some (PageNode (the (toy_file (3, 0))))"
    by (simp_all add: read_node_def toy_lopdf_def toy_file_def)
  have attrs: "resolve_attributes toy_lopdf toy_file (effective_attributes toy_lopdf (the (toy_file (3, 0)))
      (effective_attributes toy_lopdf (the (toy_file (2, 0))) InheritedAttributes_default)) = toy_attributes"
    by (simp add: resolve_attributes_def resolve_object_def effective_attributes_def inherit_def toy_lopdf_def
        toy_file_def InheritedAttributes_default_def toy_attributes_def)
  have "visit toy_lopdf toy_file PdfInspectionLimits_DEFAULT (2, 0) InheritedAttributes_default 0
      \<lparr>pages = [], active = {}, seen = {}\<rparr> = Inr \<lparr>pages = [\<lparr>attributes = toy_attributes\<rparr>], active = {}, seen = {(2, 0), (3, 0)}\<rparr>"
    by (simp add: visit.simps nodes attrs Let_def PAGE_TREE_DEPTH_LIMIT_def PdfInspectionLimits_DEFAULT_def insert_Diff_if insert_commute)
  then show ?thesis by (simp add: collect_pages_def) (simp add: toy_lopdf_def toy_file_def)
qed

definition toy_metadata :: "AssetId \<Rightarrow> PdfDocumentMetadata" where
  "toy_metadata i = \<lparr>pdm_asset_id = i, pdm_title = None,
     pdm_pages = [\<lparr>ppm_page_index = 0, ppm_display_geometry = unit_geometry\<lparr>pg_rotation := Deg270\<rparr>\<rparr>]\<rparr>"

lemma toy_geometry: "page_geometry toy_lopdf toy_file \<lparr>attributes = toy_attributes\<rparr> 0 = Inr (unit_geometry\<lparr>pg_rotation := Deg270\<rparr>)"
proof -
  have one: "f64_is_finite 0x3FF0000000000000" "unat (0x3FF0000000000000 :: f64) < 2 ^ 63"
    "f64_lt 0 0x3FF0000000000000" "f64_abs 0x3FF0000000000000 = 0x3FF0000000000000"
    by (simp_all add: f64_is_finite_def f64_exponent_def f64_lt_def f64_is_nan_def f64_key_def f64_abs_def)
  have "parse_box toy_lopdf toy_file (TArr [TReal 0, TReal 0, TReal 0x3F800000, TReal 0x3F800000]) =
      Some \<lparr>box_width = 0x3FF0000000000000, box_height = 0x3FF0000000000000\<rparr>"
    using one f64_sub_zero [OF one(1,2)]
    by (simp add: parse_box_def pdf_number_def toy_lopdf_def f64_from_f32_zero f64_from_f32_one Let_def)
  moreover have "parse_rotation toy_lopdf toy_file (Some (TInt (- 90))) 0 = Inr Deg270"
    by (simp add: parse_rotation_def toy_lopdf_def from_degrees_def)
  moreover have "PageDisplayGeometry_new 0x3FF0000000000000 0x3FF0000000000000 Deg270 = Inr (unit_geometry\<lparr>pg_rotation := Deg270\<rparr>)"
    using unit_geometry_ok by (simp add: geometry_new_Inr unit_geometry_def geometry_ok_def)
  ultimately show ?thesis by (simp add: page_geometry_def toy_attributes_def)
qed

lemma toy_inspection: "inspect_bytes toy_lopdf i [1, 2, 3] PdfInspectionLimits_DEFAULT = Inr (toy_metadata i)"
proof -
  have "\<not> contains_encrypt_marker [1, 2, 3]"
    by (simp add: contains_encrypt_marker_def scan_encrypt_marker.simps)
  moreover have "extract_title toy_lopdf toy_file = None" by (simp add: extract_title_def toy_lopdf_def)
  moreover have "page_descriptors toy_lopdf toy_file 0 [\<lparr>attributes = toy_attributes\<rparr>] = Inr (pdm_pages (toy_metadata i))"
    using toy_geometry by (simp add: u32_of_def toy_metadata_def)
  moreover have "load_mem toy_lopdf [1, 2, 3] n = Inr toy_file" "\<not> is_encrypted toy_lopdf toy_file" "\<not> was_encrypted toy_lopdf toy_file" for n
    by (simp_all add: toy_lopdf_def)
  ultimately show ?thesis using toy_pages by (simp add: inspect_bytes_def Let_def toy_metadata_def)
qed

theorem inspected_metadata_wellformed_witness:
  "metadata_ok PdfInspectionLimits_DEFAULT (toy_metadata (AssetId (EntityId 7)))
   \<and> (\<exists>input. DocumentComposeInput_new (SessionId (EntityId 1)) Pdf small_asset None
        (map source_page (pdm_pages (toy_metadata (AssetId (EntityId 7))))) = Inr input)"
  using inspected_metadata_wellformed [OF toy_inspection, of "AssetId (EntityId 7)" "SessionId (EntityId 1)" small_asset]
  by (simp add: toy_metadata_def)

theorem inspector_reads_stored_bytes_witness:
  "inspect toy_lopdf memory_asset_ports PdfInspectionLimits_DEFAULT (AssetId (EntityId 7))
     (insert_all (\<lambda>_. replicate 32 0) [] [AssetId (EntityId 7) \<mapsto> \<lparr>mar_descriptor = small_asset, mar_bytes = [1, 2, 3]\<rparr>]) =
   Some (Inr (toy_metadata (AssetId (EntityId 7))),
     insert_all (\<lambda>_. replicate 32 0) [] [AssetId (EntityId 7) \<mapsto> \<lparr>mar_descriptor = small_asset, mar_bytes = [1, 2, 3]\<rparr>])"
  using inspector_reads_stored_bytes [OF insert_small_asset, of toy_lopdf PdfInspectionLimits_DEFAULT "[]"]
    toy_inspection [of "AssetId (EntityId 7)"] by (simp add: small_asset_def PdfInspectionLimits_DEFAULT_def)

end
