(* ===== verification/Pdf_Scan.thy ===== *)
theory Pdf_Scan
  imports Pdf_Pages
begin

text \<open>
  The byte scan for an encryption marker: it is independent of its position in the file, and what it finds and
  what it misses.
\<close>

section \<open>The scan\<close>

text \<open>Scanning does not depend on what precedes the position.\<close>

lemma skip_comment_shift: "skip_comment (xs @ ys) (length xs + i) = length xs + skip_comment ys i"
proof (induction ys i rule: skip_comment.induct)
  case (1 ys i)
  then show ?case
    by (subst (1 2) skip_comment.simps) (auto simp: nth_append)
qed

lemma skip_string_loop_shift:
  "skip_string_loop (xs @ ys) (length xs + i) d = length xs + skip_string_loop ys i d"
proof (induction ys i d rule: skip_string_loop.induct)
  case (1 ys i d)
  note L = skip_string_loop.simps [of "xs @ ys" "length xs + i"] and R = skip_string_loop.simps [of ys i d]
  consider (out) "\<not> i < length ys" | (escape) "i < length ys" "ys ! i = 0x5C" | (opened) "i < length ys" "ys ! i = 0x28"
    | (closed) "i < length ys" "ys ! i = 0x29" | (other) "i < length ys" "ys ! i \<notin> {0x5C, 0x28, 0x29}"
    by auto
  then show ?case
  proof cases
    case escape
    have m: "min (length xs + i + 2) (length (xs @ ys)) = length xs + min (i + 2) (length ys)" by simp
    show ?thesis unfolding L R m using escape 1(1) by simp
  next
    case opened
    then show ?thesis unfolding L R using 1(2) by simp
  next
    case closed
    then show ?thesis unfolding L R Let_def using 1(3) [OF _ _ _ closed(2) refl] by simp
  next
    case other
    then show ?thesis unfolding L R using 1(4) by simp
  qed (simp add: L R)
qed

lemma skip_hex_loop_shift: "skip_hex_loop (xs @ ys) (length xs + i) = length xs + skip_hex_loop ys i"
proof (induction ys i rule: skip_hex_loop.induct)
  case (1 ys i)
  then show ?case by (subst (1 2) skip_hex_loop.simps) (auto simp: nth_append)
qed

lemma scan_shift: "scan_encrypt_marker (xs @ ys) (length xs + i) = scan_encrypt_marker ys i"
proof (induction ys i rule: scan_encrypt_marker.induct)
  case (1 ys i)
  have "marker_at (xs @ ys) (length xs + i) = marker_at ys i"
    "marker_ends (xs @ ys) (length xs + i + length encrypt_marker) = marker_ends ys (i + length encrypt_marker)"
    "bytes_get (xs @ ys) (length xs + i + 1) = bytes_get ys (i + 1)"
    "skip_literal_string (xs @ ys) (length xs + i) = length xs + skip_literal_string ys i"
    "skip_hex_string (xs @ ys) (length xs + i) = length xs + skip_hex_string ys i"
    using skip_string_loop_shift [of xs ys i 0] skip_hex_loop_shift [of xs ys "i + 1"]
    by (simp_all add: marker_at_def marker_ends_def bytes_get_def nth_append skip_literal_string_def skip_hex_string_def)
  then show ?case using 1
    by (subst (1 2) scan_encrypt_marker.simps) (auto simp: nth_append skip_comment_shift)
qed

lemma scan_drop: "n \<le> length bs \<Longrightarrow> scan_encrypt_marker bs n = contains_encrypt_marker (drop n bs)"
  using scan_shift [of "take n bs" "drop n bs" 0] by (simp add: contains_encrypt_marker_def)

text \<open>Bytes that start nothing are passed over one by one.\<close>

definition plain_byte :: "u8 \<Rightarrow> bool" where
  "plain_byte b \<longleftrightarrow> b \<notin> {0x25, 0x28, 0x3C, 0x2F}"

lemma contains_plain: "list_all plain_byte pre \<Longrightarrow> contains_encrypt_marker (pre @ bs) = contains_encrypt_marker bs"
proof (induction pre)
  case (Cons b pre)
  have "contains_encrypt_marker ((b # pre) @ bs) = scan_encrypt_marker ((b # pre) @ bs) 1"
    using Cons.prems by (simp add: contains_encrypt_marker_def scan_encrypt_marker.simps [of _ 0] plain_byte_def)
  also have "\<dots> = contains_encrypt_marker (pre @ bs)" by (simp add: scan_drop)
  finally show ?case using Cons by simp
qed simp

lemma skip_hex_loop_to_close:
  "0x3E \<notin> set body \<Longrightarrow> skip_hex_loop (body @ 0x3E # rest) 0 = Suc (length body)"
proof (induction body)
  case Nil
  then show ?case by (simp add: skip_hex_loop.simps)
next
  case (Cons b body)
  have "skip_hex_loop ((b # body) @ 0x3E # rest) 0 = skip_hex_loop ((b # body) @ 0x3E # rest) 1"
    using Cons.prems by (simp add: skip_hex_loop.simps [of _ 0])
  also have "\<dots> = Suc (Suc (length body))"
    using skip_hex_loop_shift [of "[b]" "body @ 0x3E # rest" 0] Cons by simp
  finally show ?case by simp
qed


lemma contains_dictionary:
  assumes "0x3E \<notin> set body" "body = [] \<or> hd body \<noteq> 0x3C"
  shows "contains_encrypt_marker ([0x3C, 0x3C] @ body @ [0x3E] @ rest) = contains_encrypt_marker rest"
proof -
  let ?bs = "0x3C # body @ 0x3E # rest"
  have "contains_encrypt_marker (0x3C # ?bs) = scan_encrypt_marker (0x3C # ?bs) 1"
    by (simp add: contains_encrypt_marker_def scan_encrypt_marker.simps [of _ 0] bytes_get_def)
  also have "\<dots> = contains_encrypt_marker ?bs" by (simp add: scan_drop)
  also have "\<dots> = scan_encrypt_marker ?bs (skip_hex_string ?bs 0)"
    using assms(2)
    by (cases body) (auto simp: contains_encrypt_marker_def scan_encrypt_marker.simps [of _ 0] bytes_get_def)
  also have "skip_hex_string ?bs 0 = Suc (Suc (length body))"
    using skip_hex_loop_shift [of "[0x3C]" "body @ 0x3E # rest" 0] skip_hex_loop_to_close [OF assms(1), of rest]
    by (simp add: skip_hex_string_def)
  also have "scan_encrypt_marker ?bs (Suc (Suc (length body))) = contains_encrypt_marker rest"
    by (simp add: scan_drop)
  finally show ?thesis by simp
qed

lemma contains_marker:
  assumes "rest = [] \<or> is_ascii_whitespace (hd rest) \<or> hd rest \<in> set (ascii ''()<>[]{}/%'')"
  shows "contains_encrypt_marker (encrypt_marker @ rest)"
proof -
  have len: "length encrypt_marker = 8" and hd: "(encrypt_marker @ rest) ! 0 = 0x2F" "0 < length (encrypt_marker @ rest)"
    by (simp_all add: encrypt_marker_def ascii_def)
  have "marker_at (encrypt_marker @ rest) 0" by (simp add: marker_at_def)
  moreover have "marker_ends (encrypt_marker @ rest) (0 + length encrypt_marker)"
    using assms by (cases rest) (auto simp: marker_ends_def bytes_get_def nth_append)
  ultimately show ?thesis unfolding contains_encrypt_marker_def
    by (subst scan_encrypt_marker.simps) (use hd in simp)
qed



end
