(* ===== verification/Spec2Isabelle.thy ===== *)
theory Spec2Isabelle
  imports Storage_Replay Canvas_Actions Core_Text Pdf_Scan
begin

text \<open>
  A verification development for the OrbitRelay kernel, a collaboration kernel in Rust (\<open>src/crates\<close>).

  \<^bold>\<open>The program.\<close> Clients reach the kernel over a WebSocket connection (\<open>orbitrelay-transport\<close>). A session
  coordinator negotiates a protocol version, authenticates the connection, and then hands actions to an action worker,
  queries to a query worker, and subscriptions to event pumps. An action runs in the action runtime
  (\<open>orbitrelay-runtime\<close>): its handler validates it, the application authorises it, a lease on the handler's execution
  scope is acquired, and the events the handler drafts are stamped and dispatched. The canvas crates (\<open>orbitrelay-canvas\<close>,
  \<open>orbitrelay-canvas-runtime\<close>) provide the handlers of five stroke commands and the projector that rebuilds a stroke
  from its events. Events are kept by the event store (\<open>orbitrelay-storage\<close>) and fanned out by the event bus
  (\<open>orbitrelay-sync\<close>). Queries run in the query runtime (\<open>orbitrelay-query\<close>); the document crates
  (\<open>orbitrelay-document\<close>, \<open>orbitrelay-document-runtime\<close>) answer two of them, from documents that are composed from the
  pages \<open>orbitrelay-pdf\<close> finds in a stored asset (\<open>orbitrelay-asset\<close>, \<open>orbitrelay-asset-runtime\<close>). Nodes announce
  themselves in a registry (\<open>orbitrelay-node\<close>). \<open>orbitrelay-core\<close> and \<open>orbitrelay-protocol\<close> hold the shared values.

  \<^bold>\<open>The theories.\<close>

  \<^item> \<open>Orbit_Prelude\<close>: how Rust is read (see below), ordered maps, white space and trimming, checked arithmetic; the
    collection \<open>result_simps\<close>; the locales \<open>ordered_map\<close> (what a \<open>BTreeMap\<close> promises; interpreted as \<open>btree\<close> here and as
    \<open>metadata\<close> in \<open>Core_Model\<close>) and \<open>lifecycle\<close> (a transition relation that a rank strictly increases; interpreted for
    strokes and for connections).
  \<^item> \<open>Core_Model\<close>: identifiers, metadata, timestamps, versions, payloads, actions and events.
  \<^item> \<open>Storage_Model\<close>: \<open>record.rs\<close>, \<open>query.rs\<close> and \<open>memory.rs\<close>: opaque tokens and their decoding, queries with their
    limits, and every operation of the in-memory store on the record \<open>MemState\<close>. The locale \<open>event_store\<close> states the
    contract of a store over its abstract log; \<open>mem\<close> interprets it for the invariant \<open>mem_inv\<close>. \<open>Storage_Replay\<close>: tokens
    are read back only where they were issued, paging is complete and checkpoints freeze a replay.
  \<^item> \<open>Sync_Model\<close>: \<open>filter.rs\<close> and \<open>memory.rs\<close>: the bus with one bounded queue and one loss counter per subscription. The
    inductive relation \<open>sub_run\<close> ranges over all interleavings of publishing, receiving and closing.
  \<^item> \<open>Runtime_Model\<close>: \<open>registry.rs\<close>, \<open>coordination.rs\<close>, \<open>context.rs\<close>, \<open>pipeline.rs\<close> and \<open>runtime.rs\<close>. \<open>execute\<close> is the whole
    life of an action; \<open>guarded_registry\<close> is the contract of a registry that never replaces an entry, interpreted for the
    action handlers and, in \<open>Query_Model\<close>, for the query handlers.
  \<^item> \<open>Query_Model\<close>: \<open>model.rs\<close>, \<open>registry.rs\<close> and \<open>executor.rs\<close>: query types, requests, responses, execution.
  \<^item> \<open>Node_Model\<close>: node validation and the in-memory registry, which refines a finite map.
  \<^item> \<open>Canvas_Model\<close>, \<open>Canvas_Projection\<close>: canvas values and payloads; events and the projector \<open>apply_event\<close> with the
    invariant \<open>stroke_inv\<close> and the predicate \<open>projected\<close> of the histories it accepts. \<open>Canvas_Service\<close>: the five
    commands, the handlers that \<open>define_handler!\<close> generates, and their registration. \<open>Canvas_Actions\<close>: runtime, handlers
    and projector together.
  \<^item> \<open>Transport_Model\<close>: connections, identity binding, version policies, configuration, messages and errors.
    \<open>Transport_Codec\<close>: the structural checks of the JSON codec. \<open>Transport_Session\<close>: \<open>websocket/coordinator.rs\<close> and
    \<open>session.rs\<close>, with \<open>session_step\<close> as the relation between passes of its loop. \<open>Transport_Tasks\<close>: \<open>reader.rs\<close>,
    \<open>writer.rs\<close>, \<open>event_pump.rs\<close>, \<open>action_worker.rs\<close> and \<open>query_worker.rs\<close>, one function per pass of each loop.
    \<open>Transport_Flow\<close>: coordinator and action worker with the channels between them, as the step relation \<open>flow_step\<close>.
  \<^item> \<open>Asset_Model\<close>: content hashes, descriptors, byte ranges, the verified in-memory store and the bounded read of a whole
    asset. The locale \<open>range_reader\<close> is what \<open>read_asset_fully\<close> needs of a reader; the in-memory store provides it.
  \<^item> \<open>Document_Model\<close>, \<open>Document_Composition\<close>, \<open>Document_Runtime\<close>, \<open>Document_Query\<close>: descriptors; the composer; the
    catalog and the read model; the two query handlers. The locale \<open>document_catalog\<close> is the contract between catalog and
    read model; the in-memory catalog provides it.
  \<^item> \<open>Pdf_Model\<close>, \<open>Pdf_Pages\<close>, \<open>Pdf_Scan\<close>: the limits, the marker scan, the page-tree walk, page geometry in IEEE
    arithmetic, and the inspection of bytes and of stored assets; the walk characterised by page trees; the scan.
  \<^item> \<open>Wire_Model\<close>: the hand-written serialisers and deserialisers of canvas, document, asset and query values. The locale
    \<open>validated_form\<close> is the contract of a constructor that accepts exactly the fields of valid values, interpreted for the
    eight constructors they call.
  \<^item> \<open>Core_Text\<close>: parsing and printing of identifiers, conversions of timestamps, the text of versions. The locale
    \<open>strong_id\<close> is what the identifier types share, interpreted for each of the fifteen.
  \<^item> This theory: the way of a PDF from the asset store through inspection and composition to the document view.

  \<^bold>\<open>How Rust is read.\<close> Structs are records, enums datatypes, \<open>Result\<close> is a sum with the error on the left, a panic (a
  failing \<open>expect\<close>, an index out of range) is \<open>None\<close> around it. \<open>u8\<close>, \<open>u32\<close>, \<open>u64\<close> and UUIDs are words of their width;
  \<open>f32\<close> and \<open>f64\<close> are the words of their bits, and a derived \<open>==\<close> compares them as numbers (\<open>f64_eq\<close>, \<open>event_eq\<close>). A method that mutates is a function that also returns the new state; a
  port of the application acts on a world \<open>'w\<close> and returns the new one. An operation that holds its lock throughout is
  one step. Asynchronous loops are functions of one pass and its input, folded over any sequence of inputs, so that
  theorems about them hold for every interleaving that \<open>select!\<close> may choose.

  \<^bold>\<open>What the theorems show.\<close> Storage: appends refine an abstract log, stored events survive, paging delivers each
  matching record once and in order, a checkpoint bounds a replay for good. Bus: each event is delivered, queued or counted as
  lost. Runtime: leases are released on every path, dispatched events are the returned ones, rejected actions have no
  effect. Canvas: the accepted histories are exactly \<open>begin append* (end remove? | cancel)?\<close>, commands emit events the
  projector accepts, repeated commands emit nothing, no command panics. Transport: identities of ready sessions were vouched
  for, actions run only for the bound actor and are answered once and in order, sessions end closed, the tasks keep order and bounds. Assets and documents: what was
  accepted is read back byte for byte, composition yields valid documents, views are exactly the stored composition, document
  queries are authorised. PDF: the walk accepts exactly the page trees without repetition within its limits, and delivered
  metadata is well formed whatever the parser returns.

  \<^bold>\<open>Termination and bounds.\<close> Every function is total; none uses fuel in the place of a loop of the program. The
  read loop of an asset ends because each chunk makes progress (measure: the bytes that remain), the marker scan because each
  skip does, the page-tree walk by its depth limit and then the remaining kids. \<open>fetch_pages\<close>, which plays the client that
  follows \<open>next_cursor\<close>, takes a number of requests, and one more than the number of records is proved to be enough. Capacities
  follow the program: \<open>isize_max\<close> bounds vectors, lengths are converted to \<open>u32\<close> and \<open>u64\<close> with the checks of the code.

  \<^bold>\<open>Parameters.\<close> Third-party code and the application's ports are arguments: base64, the channels of tokio, \<open>serde\<close>
  and \<open>serde_json\<close> (per type, a pair of conversions), SHA-256, \<open>lopdf\<close>, \<open>uuid\<close> and \<open>time\<close>, random identifiers, the clock, the authorizers, the
  identity resolver, the coordinator, the catalogs and readers behind traits. What a theorem needs of one of them is a hypothesis of
  that theorem, satisfied by a concrete instance beside it.

  \<^bold>\<open>Findings.\<close> \<open>contains_encrypt_marker\<close> (\<open>orbitrelay-pdf/src/parser.rs\<close>) takes the second bracket of a dictionary
  opening for the start of a hexadecimal string and does not see an \<open>/Encrypt\<close> entry inside of that dictionary
  (\<open>encrypt_marker_scan\<close>); the check after parsing still refuses the file.

  \<^bold>\<open>Not modelled.\<close> Derived \<open>serde\<close> implementations and the text forms of UUIDs and timestamps, which are generated or
  third-party and appear as parameters; the clock and the authorizer that exist for tests only; random numbers and the system clock; sockets, TLS and frame encoding; memory exhaustion; the bodies of \<open>Debug\<close>
  and \<open>Display\<close> implementations that only format messages; trait declarations without code; tests.
\<close>

section \<open>From a stored PDF to a readable document\<close>

text \<open>A canvas catalog that holds the canvases of a composition.\<close>

definition canvases_of :: "DocumentComposition \<Rightarrow> CanvasId \<rightharpoonup> CanvasDescriptor" where
  "canvases_of c = map_of (map (\<lambda>pc. (cd_canvas_id (pcc_canvas pc), pcc_canvas pc)) (dc_page_canvases c))"

lemma canvases_of_served:
  assumes "document_ok (dc_document c)" "list_all2 (page_canvas_ok s) (dd_pages (dc_document c)) (dc_page_canvases c)"
  shows "list_all (\<lambda>pc. canvases_of c (cd_canvas_id (pcc_canvas pc)) = Some (pcc_canvas pc)) (dc_page_canvases c)"
proof -
  have "map (\<lambda>pc. cd_canvas_id (pcc_canvas pc)) (dc_page_canvases c) = map dpd_overlay_canvas_id (dd_pages (dc_document c))"
    using assms(2) by (induction rule: list_all2_induct) (simp_all add: page_canvas_ok_def)
  then have "distinct (map fst (map (\<lambda>pc. (cd_canvas_id (pcc_canvas pc), pcc_canvas pc)) (dc_page_canvases c)))"
    using assms(1) by (simp add: document_ok_def comp_def)
  then show ?thesis by (auto simp: list_all_iff canvases_of_def intro!: map_of_is_SomeI)
qed

text \<open>C5. A PDF that was stored and inspected becomes a document that readers see: for an asset the store accepted and the
  inspector could read, the composition of its pages succeeds with fresh identifiers, has exactly the inspected page
  geometries in order and the session it was composed for, and once its document and canvases are in their catalogs the
  document view is exactly that composition with the stored asset as its source.\<close>

theorem stored_pdf_is_readable:
  assumes "insert_verified digest d bs (insert_all digest earlier Map.empty) = (Inr oc, store)"
    "inspect L memory_asset_ports lim (sad_asset_id d) (insert_all digest later store) = Some (Inr md, assets)"
    "inj_on ids {..3 * length (pdm_pages md)}"
    "documents cat (DocumentId (ids (3 * length (pdm_pages md)))) = None"
  shows "\<exists>input c. DocumentComposeInput_new s Pdf d (pdm_title md) (map source_page (pdm_pages md)) = Inr input
    \<and> compose ids input = Inr c \<and> dd_session_id (dc_document c) = s
    \<and> map dpd_display_geometry (dd_pages (dc_document c)) = map ppm_display_geometry (pdm_pages md)
    \<and> dc_source_asset c = d
    \<and> get_document_view (memory_read_service (canvases_of c)) (dd_document_id (dc_document c))
        (snd (catalog_insert (dc_document c) cat), assets)
      = (Inr (view_of_composition c), (snd (catalog_insert (dc_document c) cat), assets))"
proof -
  have assets: "assets = insert_all digest later store"
    and md: "inspect_bytes L (sad_asset_id d) bs lim = Inr md"
    using assms(2) unfolding inspect_accepted [OF assms(1)] by (auto split: if_splits)
  have ok: "metadata_ok lim md" using inspect_bytes_Inr [OF md] by simp
  define ps where "ps = map source_page (pdm_pages md)"
  define input where "input = \<lparr>dci_session_id = s, dci_document_type = Pdf, dci_source_asset = d,
    dci_source_title = Option.bind (pdm_title md) trimmed_title, dci_pages = ps\<rparr>"
  have new: "DocumentComposeInput_new s Pdf d (pdm_title md) ps = Inr input"
    using ok by (simp add: compose_input_Inr metadata_ok_def source_page_def comp_def ps_def input_def)
  have geo: "list_all (\<lambda>p. geometry_ok (dsp_display_geometry p)) ps"
    using ok by (simp add: metadata_ok_def ps_def list_all_iff source_page_def)
  have inj: "inj_on ids {..3 * length ps}" using assms(3) by (simp add: ps_def)
  obtain c where c: "compose ids input = Inr c" "document_ok (dc_document c)" "dd_session_id (dc_document c) = s"
    "dc_source_asset c = d" "map dpd_display_geometry (dd_pages (dc_document c)) = map dsp_display_geometry ps"
    "list_all2 (page_canvas_ok s) (dd_pages (dc_document c)) (dc_page_canvases c)"
    using compose_document [OF new geo inj] by blast
  have "dd_document_id (dc_document c) = DocumentId (ids (3 * length (pdm_pages md)))"
    using compose_document_id [OF c(1)] by (simp add: input_def ps_def)
  then have inserted: "catalog_insert (dc_document c) cat = (DocumentInserted, snd (catalog_insert (dc_document c) cat))"
    using assms(4) by (simp add: catalog_insert_def)
  have "get_document_view (memory_read_service (canvases_of c)) (dd_document_id (dc_document c))
        (snd (catalog_insert (dc_document c) cat), assets)
      = (Inr (view_of_composition c), (snd (catalog_insert (dc_document c) cat), assets))"
    using composition_served [OF c(1) inserted _ canvases_of_served [OF c(2,6)], of digest bs earlier oc store "[]" later]
      assms(1) c(4) by (simp add: assets)
  then show ?thesis using new c by (auto simp: ps_def source_page_def comp_def)
qed

theorem stored_pdf_is_readable_witness:
  "\<exists>input c. DocumentComposeInput_new (SessionId (EntityId 1)) Pdf small_asset None
        [\<lparr>dsp_page_index = 0, dsp_display_geometry = unit_geometry\<lparr>pg_rotation := Deg270\<rparr>\<rparr>] = Inr input
    \<and> compose numbered input = Inr c
    \<and> map dpd_display_geometry (dd_pages (dc_document c)) = [unit_geometry\<lparr>pg_rotation := Deg270\<rparr>]
    \<and> fst (get_document_view (memory_read_service (canvases_of c)) (dd_document_id (dc_document c))
        (snd (catalog_insert (dc_document c) CatalogState_default),
         [AssetId (EntityId 7) \<mapsto> \<lparr>mar_descriptor = small_asset, mar_bytes = [1, 2, 3]\<rparr>]))
      = Inr (view_of_composition c)"
proof -
  let ?digest = "\<lambda>_. replicate 32 0"
  let ?store = "[AssetId (EntityId 7) \<mapsto> \<lparr>mar_descriptor = small_asset, mar_bytes = [1, 2, 3]\<rparr>]"
  have inspected: "inspect toy_lopdf memory_asset_ports PdfInspectionLimits_DEFAULT (sad_asset_id small_asset)
      (insert_all ?digest [] ?store) = Some (Inr (toy_metadata (AssetId (EntityId 7))), ?store)"
    using toy_inspection [of "AssetId (EntityId 7)"] unfolding inspect_accepted [OF insert_small_asset]
    by (simp add: small_asset_def PdfInspectionLimits_DEFAULT_def insert_all_def)
  have fresh: "inj_on numbered {..3 * length (pdm_pages (toy_metadata (AssetId (EntityId 7))))}"
    by (rule inj_on_subset [OF numbered_inj]) (auto simp: toy_metadata_def)
  show ?thesis
    using stored_pdf_is_readable [OF insert_small_asset inspected fresh, of CatalogState_default "SessionId (EntityId 1)"]
    by (auto simp: toy_metadata_def source_page_def CatalogState_default_def)
qed

end
